(* ===== verification/Leo_Prelude.thy ===== *)
theory Leo_Prelude
  imports Complex_Main "HOL-Library.Word"
begin

text \<open>
  Shared ground of the development: what the agent's C code uses of the language and of its
  standard library, as executable functions, with the lemmas the components share.

  A C string is the \<open>string\<close> of the bytes before its terminator. A fixed-size buffer written by
  \<^verbatim>\<open>strncpy(dst, src, sizeof(dst) - 1)\<close> over zeroed memory holds \<open>strncpy_buf sz src\<close>. File
  contents are byte strings that may hold NUL bytes; \<open>c_str\<close> cuts them as the string functions
  do. A \<^verbatim>\<open>double\<close> is a not-a-number, an infinity or a rational.
\<close>

named_theorems buf_simps \<open>bounds of what ends up in a fixed-size buffer\<close>
named_theorems str_simps \<open>searching and splitting C strings\<close>

section \<open>Bytes and C strings\<close>

type_synonym cstring = string

definition NUL :: char where "NUL = CHR 0x00"
definition NL :: char where "NL = CHR 0x0A"

text \<open>The string a C function sees in a byte array: everything before the first NUL.\<close>

definition c_str :: "string \<Rightarrow> cstring" where
  "c_str bs = takeWhile (\<lambda>c. c \<noteq> NUL) bs"

text \<open>\<^verbatim>\<open>strchr\<close>: the offset of the first occurrence.\<close>

fun strchr :: "char \<Rightarrow> cstring \<Rightarrow> nat option" where
  "strchr c [] = None"
| "strchr c (x # xs) = (if x = c then Some 0 else map_option Suc (strchr c xs))"

text \<open>\<^verbatim>\<open>strncmp(s, p, strlen(p)) == 0\<close>.\<close>

definition strprefix :: "cstring \<Rightarrow> cstring \<Rightarrow> bool" where
  "strprefix p s \<longleftrightarrow> take (length p) s = p"

text \<open>\<^verbatim>\<open>strstr(s, p) != NULL\<close>.\<close>

fun strstr :: "cstring \<Rightarrow> cstring \<Rightarrow> bool" where
  "strstr [] p \<longleftrightarrow> p = []"
| "strstr (x # xs) p \<longleftrightarrow> strprefix p (x # xs) \<or> strstr xs p"

text \<open>
  What a zeroed buffer of \<open>sz\<close> bytes holds after \<^verbatim>\<open>strncpy(dst, src, sz - 1)\<close> (and after
  \<^verbatim>\<open>snprintf(dst, sz, "%s", src)\<close>): the source cut to \<open>sz - 1\<close> bytes.
\<close>

definition strncpy_buf :: "nat \<Rightarrow> cstring \<Rightarrow> cstring" where
  "strncpy_buf sz s = take (sz - 1) s"

section \<open>Character classes of the C locale\<close>

definition byte_of :: "char \<Rightarrow> nat" where
  "byte_of c = of_char c"

definition isspace :: "char \<Rightarrow> bool" where
  "isspace c \<longleftrightarrow> byte_of c = 32 \<or> (9 \<le> byte_of c \<and> byte_of c \<le> 13)"

definition isdigit :: "char \<Rightarrow> bool" where
  "isdigit c \<longleftrightarrow> 48 \<le> byte_of c \<and> byte_of c \<le> 57"

definition isalpha :: "char \<Rightarrow> bool" where
  "isalpha c \<longleftrightarrow> (65 \<le> byte_of c \<and> byte_of c \<le> 90) \<or> (97 \<le> byte_of c \<and> byte_of c \<le> 122)"

definition isalnum :: "char \<Rightarrow> bool" where
  "isalnum c \<longleftrightarrow> isalpha c \<or> isdigit c"

definition tolower :: "char \<Rightarrow> char" where
  "tolower c = (if 65 \<le> byte_of c \<and> byte_of c \<le> 90 then char_of (byte_of c + 32) else c)"

definition strcasecmp_eq :: "cstring \<Rightarrow> cstring \<Rightarrow> bool" where
  "strcasecmp_eq a b \<longleftrightarrow> map tolower a = map tolower b"

section \<open>Numbers as text\<close>

definition digit_char :: "nat \<Rightarrow> char" where
  "digit_char d = char_of (48 + d)"

definition digit_val :: "char \<Rightarrow> nat" where
  "digit_val c = byte_of c - 48"

fun show_nat :: "nat \<Rightarrow> string" where
  "show_nat n = (if n < 10 then [digit_char n] else show_nat (n div 10) @ [digit_char (n mod 10)])"

text \<open>\<^verbatim>\<open>%d\<close>.\<close>

definition show_int :: "int \<Rightarrow> string" where
  "show_int i = (if i < 0 then CHR ''-'' # show_nat (nat (- i)) else show_nat (nat i))"

fun digits_val :: "nat \<Rightarrow> cstring \<Rightarrow> nat" where
  "digits_val acc [] = acc"
| "digits_val acc (c # cs) = (if isdigit c then digits_val (10 * acc + digit_val c) cs else acc)"

text \<open>
  \<^verbatim>\<open>atoi\<close> as the C library of the Linux build computes it, \<^verbatim>\<open>(int)strtol(s, NULL, 10)\<close>:
  white space, an optional sign, the digits; the \<^verbatim>\<open>long\<close> saturates and the conversion to
  \<^verbatim>\<open>int\<close> keeps the low 32 bits.
\<close>

definition strtol10 :: "cstring \<Rightarrow> int" where
  "strtol10 s =
     (let s' = dropWhile isspace s in
      case s' of
        [] \<Rightarrow> 0
      | c # cs \<Rightarrow>
          if c = CHR ''-'' then max (- (2 ^ 63)) (- int (digits_val 0 cs))
          else if c = CHR ''+'' then min (2 ^ 63 - 1) (int (digits_val 0 cs))
          else min (2 ^ 63 - 1) (int (digits_val 0 s')))"

definition wrap32 :: "int \<Rightarrow> int" where
  "wrap32 i = (i + 2 ^ 31) mod 2 ^ 32 - 2 ^ 31"

definition atoi :: "cstring \<Rightarrow> int" where
  "atoi s = wrap32 (strtol10 s)"

definition int32_range :: "int \<Rightarrow> bool" where
  "int32_range i \<longleftrightarrow> - (2 ^ 31) \<le> i \<and> i < 2 ^ 31"

text \<open>Division of C, towards zero, by a positive number.\<close>

definition cdiv :: "int \<Rightarrow> int \<Rightarrow> int" where
  "cdiv a b = (if 0 \<le> a then a div b else - ((- a) div b))"

text \<open>\<^verbatim>\<open>%02x\<close> of a byte.\<close>

definition hex_digit :: "nat \<Rightarrow> char" where
  "hex_digit d = (if d < 10 then char_of (48 + d) else char_of (87 + d))"

definition hex_byte :: "8 word \<Rightarrow> string" where
  "hex_byte b = [hex_digit (unat b div 16), hex_digit (unat b mod 16)]"

section \<open>Reading lines\<close>

text \<open>
  \<^verbatim>\<open>fgets(line, n, fp)\<close> for \<open>n \<ge> 2\<close>: at most \<open>n - 1\<close> bytes, up to and including a
  newline; \<open>None\<close> at the end of the file.
\<close>

fun take_line :: "nat \<Rightarrow> string \<Rightarrow> string \<times> string" where
  "take_line 0 bs = ([], bs)"
| "take_line (Suc n) [] = ([], [])"
| "take_line (Suc n) (b # bs) =
     (if b = NL then ([b], bs) else (let (l, r) = take_line n bs in (b # l, r)))"

definition fgets :: "nat \<Rightarrow> string \<Rightarrow> (string \<times> string) option" where
  "fgets n bs = (if bs = [] then None else Some (take_line (n - 1) bs))"

lemma take_line_length: "take_line n bs = (l, r) \<Longrightarrow> length l + length r = length bs"
  by (induction n bs arbitrary: l r rule: take_line.induct) (auto split: if_splits prod.splits)

lemma take_line_shorter:
  assumes "0 < n" "bs \<noteq> []" shows "length (snd (take_line n bs)) < length bs"
proof -
  obtain m b bs' where eq: "n = Suc m" "bs = b # bs'"
    using assms by (cases n; cases bs) auto
  obtain l r where "take_line m bs' = (l, r)" by fastforce
  with take_line_length[OF this] eq show ?thesis by auto
qed

text \<open>The lines a \<^verbatim>\<open>while (fgets(line, sizeof(line), fp))\<close> loop sees, with \<open>n\<close> bytes per
  line buffer.\<close>

function read_lines :: "nat \<Rightarrow> string \<Rightarrow> string list" where
  "read_lines n bs =
     (if n < 2 then [] else
      case fgets n bs of None \<Rightarrow> [] | Some (l, r) \<Rightarrow> l # read_lines n r)"
  by pat_completeness auto
termination
proof (relation "measure (\<lambda>(n, bs). length bs)")
  fix n bs x and l r :: string
  assume "\<not> n < 2" "fgets n bs = Some x" "(l, r) = x"
  then show "((n, r), n, bs) \<in> measure (\<lambda>(n, bs). length bs)"
    using take_line_shorter[of "n - 1" bs]
    by (auto simp: fgets_def split: if_splits)
qed simp

declare read_lines.simps [simp del] show_nat.simps [simp del]

section \<open>Doubles\<close>

datatype dbl = Dnan | Dinf bool \<comment> \<open>\<open>True\<close> for minus infinity\<close> | Dfin rat

fun dbl_lt :: "dbl \<Rightarrow> dbl \<Rightarrow> bool" where
  "dbl_lt Dnan _ = False"
| "dbl_lt _ Dnan = False"
| "dbl_lt (Dinf a) (Dinf b) = (a \<and> \<not> b)"
| "dbl_lt (Dinf a) (Dfin _) = a"
| "dbl_lt (Dfin _) (Dinf b) = (\<not> b)"
| "dbl_lt (Dfin x) (Dfin y) = (x < y)"

fun dbl_eq :: "dbl \<Rightarrow> dbl \<Rightarrow> bool" where
  "dbl_eq Dnan _ = False"
| "dbl_eq _ Dnan = False"
| "dbl_eq (Dinf a) (Dinf b) = (a = b)"
| "dbl_eq (Dfin x) (Dfin y) = (x = y)"
| "dbl_eq _ _ = False"

definition dbl_le :: "dbl \<Rightarrow> dbl \<Rightarrow> bool" where
  "dbl_le a b \<longleftrightarrow> dbl_lt a b \<or> dbl_eq a b"

definition dbl_of_int :: "int \<Rightarrow> dbl" where
  "dbl_of_int i = Dfin (of_int i)"

definition trunc_rat :: "rat \<Rightarrow> int" where
  "trunc_rat x = (if 0 \<le> x then \<lfloor>x\<rfloor> else \<lceil>x\<rceil>)"

text \<open>
  The conversions \<^verbatim>\<open>(int)d\<close> and \<^verbatim>\<open>(uint64_t)d\<close>: truncation towards zero, and \<open>None\<close> where
  the C standard leaves the behaviour undefined (the truncated value does not fit).
\<close>

fun int_of_dbl :: "dbl \<Rightarrow> int option" where
  "int_of_dbl (Dfin x) = (if int32_range (trunc_rat x) then Some (trunc_rat x) else None)"
| "int_of_dbl _ = None"

fun u64_of_dbl :: "dbl \<Rightarrow> nat option" where
  "u64_of_dbl (Dfin x) =
     (if 0 \<le> trunc_rat x \<and> trunc_rat x < 2 ^ 64 then Some (nat (trunc_rat x)) else None)"
| "u64_of_dbl _ = None"

text \<open>
  \<^verbatim>\<open>(double)n\<close> for an unsigned integer: exact below \<open>2 ^ 53\<close>, otherwise rounded to the nearest
  value with 53 significant bits, ties to even.
\<close>

fun nbits :: "nat \<Rightarrow> nat" where
  "nbits n = (if n = 0 then 0 else Suc (nbits (n div 2)))"

declare nbits.simps [simp del]

definition round53 :: "nat \<Rightarrow> nat" where
  "round53 n =
     (if n < 2 ^ 53 then n
      else let k = nbits n - 53; q = n div 2 ^ k; r = n mod 2 ^ k; h = 2 ^ (k - 1)
           in (if h < r \<or> (r = h \<and> odd q) then q + 1 else q) * 2 ^ k)"

definition dbl_of_nat :: "nat \<Rightarrow> dbl" where
  "dbl_of_nat n = Dfin (of_nat (round53 n))"

section \<open>Lemmas on strings\<close>

lemma byte_of_char_of [simp]: "byte_of (char_of n) = n mod 256"
  by (simp add: byte_of_def)

lemma byte_of_less [simp]: "byte_of c < 256"
proof -
  have "byte_of c = byte_of c mod 256"
    using byte_of_char_of [of "byte_of c"] by (simp add: byte_of_def)
  then show ?thesis by (metis mod_less_divisor zero_less_numeral)
qed

lemma byte_of_inject: "byte_of c = byte_of d \<longleftrightarrow> c = d"
  by (simp add: byte_of_def)

lemma strncpy_buf_length [buf_simps]: "0 < sz \<Longrightarrow> length (strncpy_buf sz s) < sz"
  by (auto simp: strncpy_buf_def)

lemma strncpy_buf_id [buf_simps]: "length s < sz \<Longrightarrow> strncpy_buf sz s = s"
  by (auto simp: strncpy_buf_def)

lemma strncpy_buf_set: "set (strncpy_buf sz s) \<subseteq> set s"
  by (auto simp: strncpy_buf_def dest: in_set_takeD)

lemma strncpy_buf_Nil [simp]: "strncpy_buf sz [] = []"
  by (simp add: strncpy_buf_def)

lemma c_str_no_NUL [simp]: "NUL \<notin> set (c_str bs)"
  by (auto simp: c_str_def dest: set_takeWhileD)

lemma c_str_id [str_simps]: "NUL \<notin> set s \<Longrightarrow> c_str s = s"
  by (auto simp: c_str_def takeWhile_eq_all_conv)

lemma strchr_None_iff [str_simps]: "strchr c s = None \<longleftrightarrow> c \<notin> set s"
  by (induction s) auto

lemma strchr_SomeD:
  "strchr c s = Some i \<Longrightarrow> i < length s \<and> s ! i = c \<and> c \<notin> set (take i s)"
  by (induction s arbitrary: i) (auto split: if_splits)

lemma strchr_append_notin [str_simps]:
  "c \<notin> set xs \<Longrightarrow> strchr c (xs @ ys) = map_option (\<lambda>i. length xs + i) (strchr c ys)"
proof (induction xs)
  case Nil
  show ?case by (cases "strchr c ys") simp_all
next
  case (Cons x xs)
  then have "strchr c (xs @ ys) = map_option (\<lambda>i. length xs + i) (strchr c ys)" by simp
  with Cons.prems show ?case by (auto simp: option.map_comp comp_def intro: option.map_cong)
qed

lemma strchr_append_hit [str_simps]: "c \<notin> set xs \<Longrightarrow> strchr c (xs @ c # ys) = Some (length xs)"
  by (simp add: strchr_append_notin)

lemma strprefix_append [str_simps, simp]: "strprefix p (p @ s)"
  by (simp add: strprefix_def)

lemma strprefix_iff: "strprefix p s \<longleftrightarrow> (\<exists>r. s = p @ r)"
  by (auto simp: strprefix_def) (metis append_take_drop_id)

lemma strstr_iff: "strstr s p \<longleftrightarrow> (\<exists>a b. s = a @ p @ b)"
proof (induction s)
  case (Cons x xs)
  show ?case
  proof
    assume "strstr (x # xs) p"
    then consider "strprefix p (x # xs)" | "strstr xs p" by auto
    then show "\<exists>a b. x # xs = a @ p @ b"
      by cases (use Cons.IH in \<open>fastforce simp: strprefix_iff intro: exI [of _ "[]"] exI [of _ "x # _"]\<close>)+
  next
    assume "\<exists>a b. x # xs = a @ p @ b"
    then obtain a b where ab: "x # xs = a @ p @ b" by blast
    show "strstr (x # xs) p"
    proof (cases a)
      case Nil
      with ab have "strprefix p (x # xs)" by (auto simp: strprefix_iff)
      then show ?thesis by simp
    next
      case (Cons y ys)
      with ab \<open>strstr xs p = _\<close> show ?thesis by auto
    qed
  qed
qed simp

section \<open>Lemmas on numbers\<close>

lemma isdigit_digit_char [simp]: "d < 10 \<Longrightarrow> isdigit (digit_char d)"
  by (simp add: isdigit_def digit_char_def)

lemma digit_val_digit_char [simp]: "d < 10 \<Longrightarrow> digit_val (digit_char d) = d"
  by (simp add: digit_val_def digit_char_def)

lemma digits_val_append:
  "list_all isdigit xs \<Longrightarrow> digits_val acc (xs @ ys) = digits_val (digits_val acc xs) ys"
  by (induction xs arbitrary: acc) auto

lemma show_nat_digits: "list_all isdigit (show_nat n)"
  by (induction n rule: show_nat.induct) (subst show_nat.simps, simp)

lemma show_nat_nonempty [simp]: "show_nat n \<noteq> []"
  by (subst show_nat.simps) simp

lemma digits_val_show_nat: "digits_val 0 (show_nat n) = n"
proof (induction n rule: show_nat.induct)
  case (1 n)
  then show ?case
    by (subst show_nat.simps) (simp add: digits_val_append show_nat_digits)
qed

lemma isdigit_imp: "isdigit c \<Longrightarrow> \<not> isspace c \<and> c \<noteq> CHR ''-'' \<and> c \<noteq> CHR ''+'' \<and> c \<noteq> NL \<and> c \<noteq> NUL"
  by (auto simp: isdigit_def isspace_def byte_of_def NL_def NUL_def)

lemma digits_val_stop: "\<not> isdigit c \<Longrightarrow> digits_val acc (c # cs) = acc"
  by simp

lemma strtol10_show_nat:
  assumes "int n < 2 ^ 63" and "rest = [] \<or> \<not> isdigit (hd rest)"
  shows "strtol10 (show_nat n @ rest) = int n"
proof -
  obtain c cs where c: "show_nat n = c # cs" by (cases "show_nat n") auto
  have dig: "isdigit c" using show_nat_digits[of n] c by simp
  have "digits_val 0 (show_nat n @ rest) = n"
    using assms(2) by (cases rest) (auto simp: digits_val_append show_nat_digits digits_val_show_nat)
  with assms(1) isdigit_imp[OF dig] show ?thesis
    by (simp add: strtol10_def c Let_def del: digits_val.simps)
qed

lemma wrap32_id: "int32_range i \<Longrightarrow> wrap32 i = i"
  by (auto simp: wrap32_def int32_range_def)

lemma wrap32_range [simp]: "int32_range (wrap32 i)"
  using pos_mod_bound [of "2 ^ 32" "i + 2 ^ 31"] pos_mod_sign [of "2 ^ 32" "i + 2 ^ 31"]
  by (simp add: wrap32_def int32_range_def)

lemma atoi_range [simp]: "int32_range (atoi s)"
  by (simp add: atoi_def)

lemma atoi_show_nat:
  assumes "int32_range (int n)" and "rest = [] \<or> \<not> isdigit (hd rest)"
  shows "atoi (show_nat n @ rest) = int n"
  using assms strtol10_show_nat [of n rest] by (simp add: atoi_def wrap32_id int32_range_def)

lemma strtol10_neg: "- int n \<ge> - (2 ^ 63) \<Longrightarrow> strtol10 (CHR ''-'' # show_nat n) = - int n"
  by (simp add: strtol10_def isspace_def byte_of_def digits_val_show_nat)

lemma atoi_show_int: "int32_range i \<Longrightarrow> atoi (show_int i) = i"
  using atoi_show_nat [of "nat i" "[]"] strtol10_neg [of "nat (- i)"]
  by (auto simp: show_int_def atoi_def wrap32_id int32_range_def)

lemma show_int_no_ws: "c \<in> set (show_int i) \<Longrightarrow> \<not> isspace c \<and> c \<noteq> NL \<and> c \<noteq> NUL"
  using show_nat_digits [of "nat i"] show_nat_digits [of "nat (- i)"]
  by (auto simp: show_int_def list_all_iff split: if_splits dest!: bspec isdigit_imp)
     (simp_all add: isspace_def byte_of_def NL_def NUL_def)

lemma show_nat_length: "n < 10 ^ k \<Longrightarrow> 0 < k \<Longrightarrow> length (show_nat n) \<le> k"
proof (induction n arbitrary: k rule: show_nat.induct)
  case (1 n)
  show ?case
  proof (cases "n < 10")
    case True
    with 1 show ?thesis by (subst show_nat.simps) simp
  next
    case False
    with 1 obtain j where j: "k = Suc j" "0 < j" by (cases k; cases "k - 1") auto
    with 1 False have "length (show_nat (n div 10)) \<le> j" by (auto simp: less_mult_imp_div_less)
    with False j show ?thesis by (subst show_nat.simps) simp
  qed
qed

lemma show_int_length: "int32_range i \<Longrightarrow> length (show_int i) \<le> 11"
  using show_nat_length [of "nat i" 10] show_nat_length [of "nat (- i)" 10]
  by (auto simp: show_int_def int32_range_def nat_less_iff)

lemma show_int_nonempty [simp]: "show_int i \<noteq> []"
  by (simp add: show_int_def)

section \<open>Lemmas on reading lines\<close>

lemma take_line_exact:
  "NL \<notin> set l \<Longrightarrow> length l < n \<Longrightarrow> take_line n (l @ NL # bs) = (l @ [NL], bs)"
proof (induction l arbitrary: n)
  case Nil
  then show ?case by (cases n) auto
next
  case (Cons c l)
  then show ?case by (cases n) auto
qed

lemma read_lines_Nil [simp]: "read_lines n [] = []"
  by (subst read_lines.simps) (simp add: fgets_def)

lemma read_lines_Cons:
  "NL \<notin> set l \<Longrightarrow> length l + 2 \<le> n \<Longrightarrow> read_lines n (l @ NL # bs) = (l @ [NL]) # read_lines n bs"
  by (subst read_lines.simps) (simp add: fgets_def take_line_exact)

lemma read_lines_concat:
  "\<forall>l \<in> set ls. NL \<notin> set l \<and> length l + 2 \<le> n \<Longrightarrow>
   read_lines n (concat (map (\<lambda>l. l @ [NL]) ls)) = map (\<lambda>l. l @ [NL]) ls"
  by (induction ls) (auto simp: read_lines_Cons)

section \<open>Lemmas on doubles\<close>

lemma trunc_rat_of_int [simp]: "trunc_rat (of_int i) = i"
  by (simp add: trunc_rat_def)

lemma trunc_rat_between:
  assumes "of_int lo \<le> x" "x \<le> of_int hi" shows "lo \<le> trunc_rat x \<and> trunc_rat x \<le> hi"
  using assms by (auto simp: trunc_rat_def le_floor_iff floor_le_iff le_ceiling_iff ceiling_le_iff)

lemma round53_exact: "n < 2 ^ 53 \<Longrightarrow> round53 n = n"
  by (simp add: round53_def)

lemma dbl_of_nat_exact: "n < 2 ^ 53 \<Longrightarrow> dbl_of_nat n = dbl_of_int (int n)"
  by (simp add: dbl_of_nat_def dbl_of_int_def round53_exact)

section \<open>Lemmas on hexadecimal bytes\<close>

lemma unat_byte_bounds [simp]: "unat (b :: 8 word) div 16 < 16" "unat (b :: 8 word) mod 16 < 16"
proof -
  have "unat b < 2 ^ 8" using unsigned_less [of b, where ?'a = nat] by simp
  then show "unat b div 16 < 16" "unat b mod 16 < 16" by simp_all
qed

lemma hex_digit_inject: "d < 16 \<Longrightarrow> e < 16 \<Longrightarrow> hex_digit d = hex_digit e \<longleftrightarrow> d = e"
  by (auto simp: hex_digit_def split: if_splits dest: arg_cong [of _ _ byte_of])

lemma byte_nibbles:
  "(unat a div 16 = unat b div 16 \<and> unat a mod 16 = unat b mod 16) \<longleftrightarrow> a = (b :: 8 word)"
  by (metis div_mult_mod_eq word_unat_eq_iff)

lemma byte_nibbles_conj:
  "(unat a div 16 = unat b div 16 \<and> unat a mod 16 = unat b mod 16 \<and> P) \<longleftrightarrow> a = (b :: 8 word) \<and> P"
  using byte_nibbles by blast

lemma tolower_hex_digit: "d < 16 \<Longrightarrow> tolower (hex_digit d) = hex_digit d"
  by (auto simp: tolower_def hex_digit_def)

lemma hex_byte_inject: "hex_byte a @ xs = hex_byte b @ ys \<longleftrightarrow> a = b \<and> xs = ys"
  by (simp add: hex_byte_def hex_digit_inject byte_nibbles_conj)

lemma map_tolower_hex_byte: "map tolower (hex_byte b) = hex_byte b"
  by (simp add: hex_byte_def tolower_hex_digit)

end
