(* ===== verification/Leo_Types.thy ===== *)
theory Leo_Types
  imports Leo_Prelude
begin

text \<open>
  The types and constants of \<^verbatim>\<open>agent/include/leo_agent.h\<close>, shared by every component: message
  types and their wire codes, error codes, the persistent configuration, the metrics and
  inventory snapshots, and the enumerations of patches, transfers and agent states.
\<close>

section \<open>Constants\<close>

definition LEO_AGENT_VERSION :: string where "LEO_AGENT_VERSION = ''1.0.0''"
definition LEO_PROTOCOL_VERSION :: int where "LEO_PROTOCOL_VERSION = 1"
definition LEO_HEARTBEAT_INTERVAL_SEC :: int where "LEO_HEARTBEAT_INTERVAL_SEC = 10800"
definition LEO_METRICS_INTERVAL_SEC :: int where "LEO_METRICS_INTERVAL_SEC = 300"
definition LEO_PATCH_CHECK_INTERVAL_SEC :: int where "LEO_PATCH_CHECK_INTERVAL_SEC = 21600"
definition LEO_RECONNECT_INIT_MS :: int where "LEO_RECONNECT_INIT_MS = 5000"
definition LEO_RECONNECT_STEP_MS :: int where "LEO_RECONNECT_STEP_MS = 5000"
definition LEO_RECONNECT_MAX_MS :: int where "LEO_RECONNECT_MAX_MS = 60000"
definition LEO_MAX_MSG_SIZE :: nat where "LEO_MAX_MSG_SIZE = 65536"
definition LEO_SEND_QUEUE_DEPTH :: nat where "LEO_SEND_QUEUE_DEPTH = 32"
definition LEO_UUID_STR_LEN :: nat where "LEO_UUID_STR_LEN = 37"
definition LEO_MAX_CPU_CORES :: nat where "LEO_MAX_CPU_CORES = 256"
definition LEO_INVENTORY_MAX_SW_ITEMS :: nat where "LEO_INVENTORY_MAX_SW_ITEMS = 150"
definition LEO_INVENTORY_MAX_PATCHES :: nat where "LEO_INVENTORY_MAX_PATCHES = 200"
definition LEO_PATCH_ID_MAX_LEN :: nat where "LEO_PATCH_ID_MAX_LEN = 160"
definition LEO_PATCH_TITLE_MAX_LEN :: nat where "LEO_PATCH_TITLE_MAX_LEN = 256"
definition LEO_PATCH_INSTALL_MAX_COUNT :: nat where "LEO_PATCH_INSTALL_MAX_COUNT = 64"
definition LEO_FILE_URL_MAX_LEN :: nat where "LEO_FILE_URL_MAX_LEN = 1024"
definition LEO_FILE_NAME_MAX_LEN :: nat where "LEO_FILE_NAME_MAX_LEN = 255"
definition LEO_FILE_SHA256_HEX_LEN :: nat where "LEO_FILE_SHA256_HEX_LEN = 65"
definition LEO_RD_WS_URL_MAX_LEN :: nat where "LEO_RD_WS_URL_MAX_LEN = 1024"
definition LEO_RD_MAX_SESSION_SEC :: int where "LEO_RD_MAX_SESSION_SEC = 14400"

text \<open>The POSIX paths, and the work directory of Windows.\<close>

definition LEO_WORKDIR :: string where "LEO_WORKDIR = ''/opt/leo-one/work/''"
definition WIN_WORKDIR :: string where
  "WIN_WORKDIR = ''C:'' @ [CHR 0x5C] @ ''ProgramData'' @ [CHR 0x5C] @ ''LeoOne'' @ [CHR 0x5C] @ ''work'' @ [CHR 0x5C]"
definition LEO_CERTS_DIR :: string where "LEO_CERTS_DIR = ''/opt/leo-one/certs/''"
definition LEO_CONFIG_FILE :: string where "LEO_CONFIG_FILE = ''/opt/leo-one/agent.conf''"
definition LEO_BOOTSTRAP_FILE :: string where "LEO_BOOTSTRAP_FILE = ''/opt/leo-one/agent_bootstrap.conf''"
definition LEO_CLIENT_CERT_FILE :: string where "LEO_CLIENT_CERT_FILE = LEO_CERTS_DIR @ ''client_cert.pem''"
definition LEO_CLIENT_KEY_FILE :: string where "LEO_CLIENT_KEY_FILE = LEO_CERTS_DIR @ ''client_key.pem''"

lemmas leo_sizes =
  LEO_MAX_MSG_SIZE_def LEO_SEND_QUEUE_DEPTH_def LEO_UUID_STR_LEN_def LEO_MAX_CPU_CORES_def
  LEO_INVENTORY_MAX_SW_ITEMS_def LEO_INVENTORY_MAX_PATCHES_def LEO_PATCH_ID_MAX_LEN_def
  LEO_PATCH_TITLE_MAX_LEN_def LEO_PATCH_INSTALL_MAX_COUNT_def LEO_FILE_URL_MAX_LEN_def
  LEO_FILE_NAME_MAX_LEN_def LEO_FILE_SHA256_HEX_LEN_def LEO_RD_WS_URL_MAX_LEN_def

lemmas leo_intervals =
  LEO_HEARTBEAT_INTERVAL_SEC_def LEO_METRICS_INTERVAL_SEC_def LEO_PATCH_CHECK_INTERVAL_SEC_def
  LEO_RECONNECT_INIT_MS_def LEO_RECONNECT_STEP_MS_def LEO_RECONNECT_MAX_MS_def
  LEO_RD_MAX_SESSION_SEC_def

section \<open>Message types\<close>

datatype leo_msg_type =
    LEO_MSG_HELLO | LEO_MSG_HEARTBEAT | LEO_MSG_METRICS | LEO_MSG_INVENTORY
  | LEO_MSG_CMD_RESULT | LEO_MSG_LOG | LEO_MSG_PONG | LEO_MSG_PATCH_INVENTORY
  | LEO_MSG_FILE_TRANSFER_PROGRESS | LEO_MSG_REMOTE_DESKTOP_STATUS
  | LEO_MSG_HELLO_ACK | LEO_MSG_EXEC_SCRIPT | LEO_MSG_INSTALL_PKG | LEO_MSG_REBOOT
  | LEO_MSG_COLLECT_INVENTORY | LEO_MSG_PING | LEO_MSG_CONFIG_UPDATE
  | LEO_MSG_FORCE_HEARTBEAT | LEO_MSG_INSTALL_PATCHES | LEO_MSG_FILE_TRANSFER
  | LEO_MSG_REMOTE_DESKTOP_START | LEO_MSG_REMOTE_DESKTOP_STOP
  | LEO_MSG_UNKNOWN

fun msg_code :: "leo_msg_type \<Rightarrow> int" where
  "msg_code LEO_MSG_HELLO = 1"
| "msg_code LEO_MSG_HEARTBEAT = 2"
| "msg_code LEO_MSG_METRICS = 3"
| "msg_code LEO_MSG_INVENTORY = 4"
| "msg_code LEO_MSG_CMD_RESULT = 5"
| "msg_code LEO_MSG_LOG = 6"
| "msg_code LEO_MSG_PONG = 7"
| "msg_code LEO_MSG_PATCH_INVENTORY = 8"
| "msg_code LEO_MSG_FILE_TRANSFER_PROGRESS = 9"
| "msg_code LEO_MSG_REMOTE_DESKTOP_STATUS = 10"
| "msg_code LEO_MSG_HELLO_ACK = 100"
| "msg_code LEO_MSG_EXEC_SCRIPT = 101"
| "msg_code LEO_MSG_INSTALL_PKG = 102"
| "msg_code LEO_MSG_REBOOT = 103"
| "msg_code LEO_MSG_COLLECT_INVENTORY = 104"
| "msg_code LEO_MSG_PING = 105"
| "msg_code LEO_MSG_CONFIG_UPDATE = 106"
| "msg_code LEO_MSG_FORCE_HEARTBEAT = 107"
| "msg_code LEO_MSG_INSTALL_PATCHES = 108"
| "msg_code LEO_MSG_FILE_TRANSFER = 109"
| "msg_code LEO_MSG_REMOTE_DESKTOP_START = 110"
| "msg_code LEO_MSG_REMOTE_DESKTOP_STOP = 111"
| "msg_code LEO_MSG_UNKNOWN = -1"

definition all_msg_types :: "leo_msg_type list" where
  "all_msg_types =
     [LEO_MSG_HELLO, LEO_MSG_HEARTBEAT, LEO_MSG_METRICS, LEO_MSG_INVENTORY, LEO_MSG_CMD_RESULT,
      LEO_MSG_LOG, LEO_MSG_PONG, LEO_MSG_PATCH_INVENTORY, LEO_MSG_FILE_TRANSFER_PROGRESS,
      LEO_MSG_REMOTE_DESKTOP_STATUS, LEO_MSG_HELLO_ACK, LEO_MSG_EXEC_SCRIPT, LEO_MSG_INSTALL_PKG,
      LEO_MSG_REBOOT, LEO_MSG_COLLECT_INVENTORY, LEO_MSG_PING, LEO_MSG_CONFIG_UPDATE,
      LEO_MSG_FORCE_HEARTBEAT, LEO_MSG_INSTALL_PATCHES, LEO_MSG_FILE_TRANSFER,
      LEO_MSG_REMOTE_DESKTOP_START, LEO_MSG_REMOTE_DESKTOP_STOP, LEO_MSG_UNKNOWN]"

text \<open>
  An incoming type is an arbitrary \<^verbatim>\<open>int\<close> stored in the enumeration; a \<^verbatim>\<open>switch\<close> matches it
  against the named constants, and no constant (\<open>None\<close>) is the \<^verbatim>\<open>default\<close> branch.
\<close>

definition msg_of_code :: "int \<Rightarrow> leo_msg_type option" where
  "msg_of_code i = find (\<lambda>t. msg_code t = i) all_msg_types"

section \<open>Error codes and states\<close>

datatype leo_error =
    LEO_OK | LEO_ERR_CONFIG | LEO_ERR_NETWORK | LEO_ERR_TLS | LEO_ERR_PROTOCOL
  | LEO_ERR_SYSTEM | LEO_ERR_QUEUE_FULL | LEO_ERR_TIMEOUT

datatype leo_agent_state =
    LEO_STATE_INIT | LEO_STATE_ENROLLING | LEO_STATE_CONNECTING | LEO_STATE_CONNECTED
  | LEO_STATE_RECONNECTING | LEO_STATE_STOPPING

section \<open>Configuration\<close>

record leo_config =
  agent_id :: cstring
  tenant_id :: cstring
  ws_endpoint :: cstring
  hostname :: cstring
  os_name :: cstring
  os_version :: cstring
  arch :: cstring
  hardware_id :: cstring
  ca_fingerprint :: cstring
  metrics_interval_sec :: int
  heartbeat_interval_sec :: int

text \<open>The zeroed structure (\<^verbatim>\<open>memset(out, 0, sizeof(*out))\<close>).\<close>

definition zero_config :: leo_config where
  "zero_config =
     \<lparr>agent_id = [], tenant_id = [], ws_endpoint = [], hostname = [], os_name = [],
      os_version = [], arch = [], hardware_id = [], ca_fingerprint = [],
      metrics_interval_sec = 0, heartbeat_interval_sec = 0\<rparr>"

text \<open>Every field fits its buffer and holds a C string; the intervals are \<^verbatim>\<open>int\<close>s.\<close>

definition config_fits :: "leo_config \<Rightarrow> bool" where
  "config_fits c \<longleftrightarrow>
     length (agent_id c) < 37 \<and> length (tenant_id c) < 37 \<and> length (ws_endpoint c) < 512 \<and>
     length (hostname c) < 256 \<and> length (os_name c) < 32 \<and> length (os_version c) < 128 \<and>
     length (arch c) < 16 \<and> length (hardware_id c) < 37 \<and> length (ca_fingerprint c) < 65 \<and>
     int32_range (metrics_interval_sec c) \<and> int32_range (heartbeat_interval_sec c)"

section \<open>Snapshots\<close>

type_synonym u64 = "64 word"
type_synonym u32 = "32 word"

record leo_metrics =
  cpu_total_percent :: dbl
  cpu_per_core :: "dbl list" \<comment> \<open>the array; the first \<open>cpu_core_count\<close> entries are meaningful\<close>
  cpu_core_count :: int
  ram_total_bytes :: u64
  ram_used_bytes :: u64
  ram_available_bytes :: u64
  disk_total_bytes :: u64
  disk_used_bytes :: u64
  net_bytes_in :: u64
  net_bytes_out :: u64
  process_count :: u32
  timestamp_ms :: u64

record leo_hw_inventory =
  cpu_model :: cstring
  cpu_cores :: int
  cpu_threads :: int
  hw_ram_total_bytes :: u64
  disk_count :: int
  bios_version :: cstring
  bios_vendor :: cstring
  motherboard :: cstring
  serial_number :: cstring

record leo_sw_item =
  sw_name :: cstring
  sw_version :: cstring
  publisher :: cstring
  install_path :: cstring

datatype leo_patch_severity =
    LEO_PATCH_SEVERITY_OPTIONAL | LEO_PATCH_SEVERITY_IMPORTANT | LEO_PATCH_SEVERITY_CRITICAL

record leo_patch =
  patch_id :: cstring
  patch_title :: cstring
  patch_severity :: leo_patch_severity
  patch_size_bytes :: u64

datatype leo_file_transfer_status =
    LEO_FILE_TRANSFER_DOWNLOADING | LEO_FILE_TRANSFER_VERIFYING
  | LEO_FILE_TRANSFER_COMPLETED | LEO_FILE_TRANSFER_FAILED

text \<open>The severities are ordered as the header says: optional below important below critical.\<close>

fun severity_rank :: "leo_patch_severity \<Rightarrow> nat" where
  "severity_rank LEO_PATCH_SEVERITY_OPTIONAL = 0"
| "severity_rank LEO_PATCH_SEVERITY_IMPORTANT = 1"
| "severity_rank LEO_PATCH_SEVERITY_CRITICAL = 2"

instantiation leo_patch_severity :: linorder
begin

definition less_eq_leo_patch_severity :: "leo_patch_severity \<Rightarrow> leo_patch_severity \<Rightarrow> bool" where
  "less_eq_leo_patch_severity a b \<longleftrightarrow> severity_rank a \<le> severity_rank b"

definition less_leo_patch_severity :: "leo_patch_severity \<Rightarrow> leo_patch_severity \<Rightarrow> bool" where
  "less_leo_patch_severity a b \<longleftrightarrow> severity_rank a < severity_rank b"

instance
proof
  fix a b :: leo_patch_severity
  show "a \<le> b \<Longrightarrow> b \<le> a \<Longrightarrow> a = b"
    by (cases a; cases b) (simp_all add: less_eq_leo_patch_severity_def)
qed (auto simp: less_eq_leo_patch_severity_def less_leo_patch_severity_def)

end

section \<open>Lemmas\<close>

lemma msg_of_code_msg_code [simp]: "msg_of_code (msg_code t) = Some t"
  by (cases t) (simp_all add: msg_of_code_def all_msg_types_def)

lemma msg_of_code_SomeD: "msg_of_code i = Some t \<Longrightarrow> msg_code t = i"
  by (auto simp: msg_of_code_def find_Some_iff)

lemma msg_code_inject: "msg_code a = msg_code b \<longleftrightarrow> a = b"
  by (metis msg_of_code_msg_code option.inject)

lemma msg_code_range: "int32_range (msg_code t)"
  by (cases t) (simp_all add: int32_range_def)

end
