(* ===== verification/Interfaces.thy ===== *)
theory Interfaces
  imports Leo_Prelude
begin

text \<open>
  Two contracts the components share. \<open>bounded_fifo\<close> is what a client of a bounded queue relies on;
  \<open>invariant_system\<close> is a step relation with an invariant every step keeps, from which the
  invariant holds in every reachable state. The connection, the agent and the remote desktop
  interpret them on their own definitions. \<open>account\<close> balances the resources an operation takes and gives back.
\<close>

section \<open>Bounded queues\<close>

datatype 'a fifo_op = Fifo_Put 'a | Fifo_Get

text \<open>A sequence of operations: the final queue, the accepted inputs and the outputs, in order.\<close>

fun fifo_run ::
  "('a \<Rightarrow> 'q \<Rightarrow> 'q option) \<Rightarrow> ('q \<Rightarrow> ('a \<times> 'q) option) \<Rightarrow> 'a fifo_op list \<Rightarrow> 'q \<Rightarrow> 'q \<times> 'a list \<times> 'a list" where
  "fifo_run put get [] q = (q, [], [])"
| "fifo_run put get (Fifo_Put a # ops) q =
     (case put a q of
        None \<Rightarrow> fifo_run put get ops q
      | Some q' \<Rightarrow> let (r, ins, outs) = fifo_run put get ops q' in (r, a # ins, outs))"
| "fifo_run put get (Fifo_Get # ops) q =
     (case get q of
        None \<Rightarrow> fifo_run put get ops q
      | Some (a, q') \<Rightarrow> let (r, ins, outs) = fifo_run put get ops q' in (r, ins, a # outs))"

locale bounded_fifo =
  fixes put :: "'a \<Rightarrow> 'q \<Rightarrow> 'q option"
    and get :: "'q \<Rightarrow> ('a \<times> 'q) option"
    and content :: "'q \<Rightarrow> 'a list"
    and wf :: "'q \<Rightarrow> bool"
    and cap :: nat
  assumes cap_law: "wf q \<Longrightarrow> length (content q) \<le> cap"
    and put_law: "wf q \<Longrightarrow>
          (case put a q of
             None \<Rightarrow> length (content q) = cap
           | Some q' \<Rightarrow> length (content q) < cap \<and> wf q' \<and> content q' = content q @ [a])"
    and get_law: "wf q \<Longrightarrow>
          (case get q of
             None \<Rightarrow> content q = []
           | Some (a, q') \<Rightarrow> wf q' \<and> content q = a # content q')"
begin

lemma put_NoneD: "wf q \<Longrightarrow> put a q = None \<Longrightarrow> length (content q) = cap"
  using put_law [of q a] by simp

lemma put_SomeD:
  "wf q \<Longrightarrow> put a q = Some q' \<Longrightarrow> wf q' \<and> content q' = content q @ [a] \<and> length (content q) < cap"
  using put_law [of q a] by simp

lemma get_NoneD: "wf q \<Longrightarrow> get q = None \<Longrightarrow> content q = []"
  using get_law [of q] by simp

lemma get_SomeD: "wf q \<Longrightarrow> get q = Some (a, q') \<Longrightarrow> wf q' \<and> content q = a # content q'"
  using get_law [of q] by simp

text \<open>First in, first out, nothing lost and nothing made up, over any sequence of operations.\<close>

lemma run_fifo:
  assumes "wf q" "fifo_run put get ops q = (q', ins, outs)"
  shows "wf q' \<and> content q @ ins = outs @ content q'"
  using assms
proof (induction ops arbitrary: q q' ins outs)
  case (Cons opr ops)
  show ?case
  proof (cases opr)
    case (Fifo_Put a)
    show ?thesis
    proof (cases "put a q")
      case None
      with Fifo_Put Cons.prems show ?thesis by (intro Cons.IH) simp_all
    next
      case (Some p)
      with put_SomeD [OF Cons.prems(1) Some] Fifo_Put Cons.prems(2) Cons.IH [of p]
      show ?thesis by (auto split: prod.splits)
    qed
  next
    case Fifo_Get
    show ?thesis
    proof (cases "get q")
      case None
      with Fifo_Get Cons.prems show ?thesis by (intro Cons.IH) simp_all
    next
      case (Some ap)
      obtain a p where ap: "ap = (a, p)" by fastforce
      with get_SomeD [OF Cons.prems(1)] Some Fifo_Get Cons.prems(2) Cons.IH [of p]
      show ?thesis by (auto split: prod.splits)
    qed
  qed
qed simp

end

section \<open>Step systems with an invariant\<close>

inductive reach :: "('s \<Rightarrow> bool) \<Rightarrow> ('s \<Rightarrow> 's \<Rightarrow> bool) \<Rightarrow> 's \<Rightarrow> bool"
  for init :: "'s \<Rightarrow> bool" and step :: "'s \<Rightarrow> 's \<Rightarrow> bool" where
  start: "init s \<Longrightarrow> reach init step s"
| move: "reach init step s \<Longrightarrow> step s s' \<Longrightarrow> reach init step s'"

locale invariant_system =
  fixes init :: "'s \<Rightarrow> bool"
    and step :: "'s \<Rightarrow> 's \<Rightarrow> bool"
    and inv :: "'s \<Rightarrow> bool"
  assumes init_law: "init s \<Longrightarrow> inv s"
    and step_law: "inv s \<Longrightarrow> step s s' \<Longrightarrow> inv s'"
begin

lemma always: "reach init step s \<Longrightarrow> inv s"
  by (induction rule: reach.induct) (auto intro: init_law step_law)

lemma inv_steps: "inv s \<Longrightarrow> step\<^sup>*\<^sup>* s s' \<Longrightarrow> inv s'"
  by (rotate_tac, induction rule: rtranclp_induct) (auto intro: step_law)

end

lemma reach_steps: "reach init step s \<Longrightarrow> step\<^sup>*\<^sup>* s s' \<Longrightarrow> reach init step s'"
  by (rotate_tac, induction rule: rtranclp_induct) (auto intro: reach.move)

section \<open>Resources taken and given back\<close>

text \<open>Handles, buffers, COM references: \<open>account\<close> keeps the books of a sequence of effects, and fails when
  something is given back that is not held.\<close>

datatype 'r res_effect = Acquire 'r | Release 'r

fun account :: "'r list \<Rightarrow> 'r res_effect list \<Rightarrow> 'r list option" where
  "account held [] = Some held"
| "account held (Acquire r # es) = account (r # held) es"
| "account held (Release r # es) = (if r \<in> set held then account (remove1 r held) es else None)"

lemma account_append: "account held (xs @ ys) = Option.bind (account held xs) (\<lambda>h. account h ys)"
  by (induction held xs rule: account.induct) auto

text \<open>A resource taken for the time of some effects.\<close>

definition held_briefly :: "'r \<Rightarrow> 'r res_effect list \<Rightarrow> 'r res_effect list" where
  "held_briefly r es = Acquire r # es @ [Release r]"

text \<open>Effects that leave the books as they were.\<close>

definition balanced :: "'r res_effect list \<Rightarrow> bool" where
  "balanced es \<longleftrightarrow> (\<forall>held. account held es = Some held)"

lemma balanced_account: "balanced es \<Longrightarrow> account held (es @ rest) = account held rest"
  by (simp add: balanced_def account_append)

lemma balanced_Nil [simp]: "balanced []" by (simp add: balanced_def)

lemma balanced_append [intro]: "balanced xs \<Longrightarrow> balanced ys \<Longrightarrow> balanced (xs @ ys)"
  by (simp add: balanced_def account_append)

lemma balanced_held_briefly [intro]: "balanced es \<Longrightarrow> balanced (held_briefly r es)"
  by (simp add: balanced_def held_briefly_def account_append)

end
