(* ===== verification/Executor.thy ===== *)
theory Executor
  imports Leo_Types Interfaces
begin

text \<open>
  \<^verbatim>\<open>agent/platform/linux/executor_linux.c\<close>: running a script or an argument vector in a child
  process. What the operating system does is the record \<open>exec_env\<close>: whether pipes, fork and the
  temporary file are there, what the child writes to its two pipes, and one \<open>loop_event\<close> per turn of
  the \<^verbatim>\<open>select\<close> loop (the clock, the answer of \<^verbatim>\<open>select\<close>, how much the child has written by then, the
  answer of \<^verbatim>\<open>waitpid(WNOHANG)\<close>). The functions return \<open>None\<close> when the events run out before the loop
  ends; \<open>exec_effect\<close> lists what was done to the system.
\<close>

definition LEO_EXEC_STDOUT_MAX :: nat where "LEO_EXEC_STDOUT_MAX = 16384"
definition LEO_EXEC_STDERR_MAX :: nat where "LEO_EXEC_STDERR_MAX = 4096"

lemmas exec_sizes = LEO_EXEC_STDOUT_MAX_def LEO_EXEC_STDERR_MAX_def

record leo_exec_result =
  exit_code :: int
  stdout_buf :: string
  stderr_buf :: string

section \<open>The operating system's part\<close>

datatype wstatus = W_Exited nat | W_Signaled nat | W_Other

datatype select_result = Sel_Eintr | Sel_Error | Sel_Timeout | Sel_Ready bool bool

record loop_event =
  ev_now :: "int \<times> int"      \<comment> \<open>\<^verbatim>\<open>CLOCK_MONOTONIC\<close>, seconds and nanoseconds\<close>
  ev_select :: select_result  \<comment> \<open>readable: stdout, stderr\<close>
  ev_out :: nat               \<comment> \<open>bytes of stdout the child has written when it is read\<close>
  ev_err :: nat
  ev_wait :: "wstatus option" \<comment> \<open>\<open>None\<close>: still running\<close>
  ev_out_end :: nat           \<comment> \<open>at the last read, after the child has gone\<close>
  ev_err_end :: nat

record exec_env =
  pipes_ok :: bool
  fork_ok :: bool
  t_start :: "int \<times> int"
  child_out :: string
  child_err :: string
  exec_events :: "loop_event list"
  final_status :: wstatus     \<comment> \<open>of the blocking \<^verbatim>\<open>waitpid\<close>\<close>
  mkstemp_path :: "cstring option"
  script_written :: bool

datatype exec_effect =
    Make_Temp cstring cstring | Unlink cstring | Spawn "cstring list" "cstring list" | Sigkill | Reap

section \<open>Running a child\<close>

definition ALLOWED_INTERPRETERS :: "cstring list" where
  "ALLOWED_INTERPRETERS = [''bash'', ''sh'', ''python3'', ''python'', ''python2'']"

definition interpreter_allowed :: "cstring option \<Rightarrow> bool" where
  "interpreter_allowed interp = (case interp of None \<Rightarrow> False | Some s \<Rightarrow> list_ex ((=) s) ALLOWED_INTERPRETERS)"

text \<open>\<open>_drain_fd\<close>: the new \<^verbatim>\<open>*offset\<close> when \<open>avail\<close> bytes were written by the child so far, of which
  \<open>off\<close> were read.\<close>

definition drain_fd :: "nat \<Rightarrow> nat \<Rightarrow> nat \<Rightarrow> nat" where
  "drain_fd buf_max avail off =
     (if buf_max - 1 \<le> off then off else off + min (buf_max - 1 - off) (avail - off))"

text \<open>The milliseconds left until the deadline.\<close>

definition remain_ms :: "int \<times> int \<Rightarrow> int \<times> int \<Rightarrow> int" where
  "remain_ms dl now = (fst dl - fst now) * 1000 + cdiv (snd dl - snd now) 1000000"

definition exit_of :: "wstatus \<Rightarrow> int \<Rightarrow> int" where
  "exit_of st old = (case st of W_Exited n \<Rightarrow> int n | W_Signaled n \<Rightarrow> - int n | W_Other \<Rightarrow> old)"

record loop_end =
  le_ret :: leo_error
  le_out :: nat
  le_err :: nat
  le_status :: "wstatus option" \<comment> \<open>\<open>Some\<close> when \<^verbatim>\<open>child_done\<close>\<close>
  le_killed :: bool

fun run_loop :: "(int \<times> int) option \<Rightarrow> loop_event list \<Rightarrow> nat \<Rightarrow> nat \<Rightarrow> loop_end option" where
  "run_loop deadline [] so se = None"
| "run_loop deadline (ev # evs) so se =
     (if (case deadline of None \<Rightarrow> False | Some dl \<Rightarrow> remain_ms dl (ev_now ev) \<le> 0)
      then Some \<lparr>le_ret = LEO_ERR_TIMEOUT, le_out = so, le_err = se, le_status = None, le_killed = True\<rparr>
      else case ev_select ev of
        Sel_Eintr \<Rightarrow> run_loop deadline evs so se
      | Sel_Error \<Rightarrow> Some \<lparr>le_ret = LEO_ERR_SYSTEM, le_out = so, le_err = se, le_status = None, le_killed = False\<rparr>
      | Sel_Timeout \<Rightarrow> Some \<lparr>le_ret = LEO_ERR_TIMEOUT, le_out = so, le_err = se, le_status = None, le_killed = True\<rparr>
      | Sel_Ready ro re \<Rightarrow>
          let so = (if ro then drain_fd LEO_EXEC_STDOUT_MAX (ev_out ev) so else so);
              se = (if re then drain_fd LEO_EXEC_STDERR_MAX (ev_err ev) se else se)
          in case ev_wait ev of
               None \<Rightarrow> run_loop deadline evs so se
             | Some st \<Rightarrow>
                 Some \<lparr>le_ret = LEO_OK, le_out = drain_fd LEO_EXEC_STDOUT_MAX (ev_out_end ev) so,
                       le_err = drain_fd LEO_EXEC_STDERR_MAX (ev_err_end ev) se,
                       le_status = Some st, le_killed = False\<rparr>)"

definition run_child ::
  "exec_env \<Rightarrow> cstring list \<Rightarrow> cstring list \<Rightarrow> int \<Rightarrow> (leo_error \<times> leo_exec_result \<times> exec_effect list) option" where
  "run_child env argv extra_env timeout_secs =
     (let result = \<lparr>exit_code = - 1, stdout_buf = [], stderr_buf = []\<rparr> in
      if \<not> pipes_ok env then Some (LEO_ERR_SYSTEM, result, [])
      else if \<not> fork_ok env then Some (LEO_ERR_SYSTEM, result, [])
      else
        let deadline = (if 0 < timeout_secs then Some (fst (t_start env) + timeout_secs, snd (t_start env)) else None)
        in case run_loop deadline (exec_events env) 0 0 of
             None \<Rightarrow> None
           | Some le \<Rightarrow>
               let st = (case le_status le of Some st \<Rightarrow> st | None \<Rightarrow> final_status env) in
               Some (le_ret le,
                     \<lparr>exit_code = exit_of st (- 1), stdout_buf = take (le_out le) (child_out env),
                      stderr_buf = take (le_err le) (child_err env)\<rparr>,
                     Spawn argv extra_env # (if le_killed le then [Sigkill] else []) @ [Reap]))"

section \<open>The public functions\<close>

text \<open>\<open>result\<close> is the structure the caller passed; the early returns leave it as it was. The
  pointers are taken to be non-NULL except where \<open>None\<close> is written.\<close>

definition write_script_tmp :: "exec_env \<Rightarrow> cstring \<Rightarrow> cstring option \<times> exec_effect list" where
  "write_script_tmp env script =
     (case mkstemp_path env of
        None \<Rightarrow> (None, [])
      | Some path \<Rightarrow>
          if script_written env then (Some path, [Make_Temp path script])
          else (None, [Make_Temp path script, Unlink path]))"

definition leo_exec_script ::
  "exec_env \<Rightarrow> cstring option \<Rightarrow> cstring option \<Rightarrow> int \<Rightarrow> leo_exec_result \<Rightarrow>
   (leo_error \<times> leo_exec_result \<times> exec_effect list) option" where
  "leo_exec_script env interpreter script timeout_secs result =
     (case (interpreter, script) of
        (Some interp, Some text) \<Rightarrow>
          if \<not> interpreter_allowed interpreter then Some (LEO_ERR_PROTOCOL, result, [])
          else (case write_script_tmp env text of
                  (None, eff) \<Rightarrow> Some (LEO_ERR_SYSTEM, result, eff)
                | (Some path, eff) \<Rightarrow>
                    (case run_child env [interp, path] [] timeout_secs of
                       None \<Rightarrow> None
                     | Some (ret, r, eff') \<Rightarrow> Some (ret, r, eff @ eff' @ [Unlink path])))
      | _ \<Rightarrow> Some (LEO_ERR_SYSTEM, result, []))"

definition leo_exec_argv ::
  "exec_env \<Rightarrow> cstring list \<Rightarrow> cstring list \<Rightarrow> int \<Rightarrow> leo_exec_result \<Rightarrow>
   (leo_error \<times> leo_exec_result \<times> exec_effect list) option" where
  "leo_exec_argv env argv extra_env timeout_secs result =
     (if argv = [] then Some (LEO_ERR_SYSTEM, result, [])
      else run_child env argv extra_env timeout_secs)"

section \<open>The interface the agent relies on\<close>

definition result_fits :: "leo_exec_result \<Rightarrow> bool" where
  "result_fits r \<longleftrightarrow> length (stdout_buf r) < LEO_EXEC_STDOUT_MAX \<and> length (stderr_buf r) < LEO_EXEC_STDERR_MAX"

text \<open>A runner: whatever it is given to run, its result fits the buffers when the one it was
  handed did, and what it does to the system leaves no process and no temporary file behind.\<close>

definition tidy :: "exec_effect list \<Rightarrow> bool" where
  "tidy eff \<longleftrightarrow>
     length (filter (\<lambda>e. case e of Spawn _ _ \<Rightarrow> True | _ \<Rightarrow> False) eff) = count_list eff Reap \<and>
     (\<forall>p. length (filter (\<lambda>e. case e of Make_Temp q _ \<Rightarrow> q = p | _ \<Rightarrow> False) eff) = count_list eff (Unlink p))"

locale command_runner =
  fixes run :: "'cmd \<Rightarrow> int \<Rightarrow> leo_exec_result \<Rightarrow> (leo_error \<times> leo_exec_result \<times> exec_effect list) option"
  assumes fits_law: "run cmd t r = Some (e, r', eff) \<Longrightarrow> result_fits r \<Longrightarrow> result_fits r'"
    and tidy_law: "run cmd t r = Some (e, r', eff) \<Longrightarrow> tidy eff"
    and error_law: "run cmd t r = Some (e, r', eff) \<Longrightarrow>
          e \<in> {LEO_OK, LEO_ERR_PROTOCOL, LEO_ERR_SYSTEM, LEO_ERR_TIMEOUT}"
begin

text \<open>What the agent copies out of a result is a C string within the same bounds.\<close>

lemma copied_output:
  assumes "run cmd t r = Some (e, r', eff)" "result_fits r"
  shows "length (c_str (stdout_buf r')) < LEO_EXEC_STDOUT_MAX \<and> length (c_str (stderr_buf r')) < LEO_EXEC_STDERR_MAX"
  using fits_law [OF assms] le_less_trans [OF length_takeWhile_le]
  by (fastforce simp: result_fits_def c_str_def)

text \<open>Two commands in a row, the second only after the first.\<close>

lemma sequence_tidy:
  assumes "run a t r = Some (e, r1, eff1)" "run b t' r1' = Some (e', r2, eff2)"
  shows "tidy (eff1 @ eff2)"
  using tidy_law [OF assms(1)] tidy_law [OF assms(2)] by (simp add: tidy_def)

end

section \<open>Lemmas on the loop\<close>

lemma drain_fd_le: "0 < m \<Longrightarrow> off < m \<Longrightarrow> drain_fd m avail off < m"
  by (auto simp: drain_fd_def)

lemma drain_fd_all: "off \<le> min (m - 1) tot \<Longrightarrow> drain_fd m tot off = min (m - 1) tot"
  by (auto simp: drain_fd_def min_def split: if_splits)

lemma drain_fd_bound: "off \<le> min (m - 1) tot \<Longrightarrow> avail \<le> tot \<Longrightarrow> drain_fd m avail off \<le> min (m - 1) tot"
  by (auto simp: drain_fd_def)

lemma exec_max_pos [simp]: "0 < LEO_EXEC_STDOUT_MAX" "0 < LEO_EXEC_STDERR_MAX"
  by (simp_all add: exec_sizes)

lemma run_loop_offsets:
  assumes "run_loop dl evs so se = Some le" "so < LEO_EXEC_STDOUT_MAX" "se < LEO_EXEC_STDERR_MAX"
  shows "le_out le < LEO_EXEC_STDOUT_MAX \<and> le_err le < LEO_EXEC_STDERR_MAX"
  using assms
  by (induction dl evs so se rule: run_loop.induct)
     (auto simp: drain_fd_le Let_def split: if_splits select_result.splits option.splits)

lemma run_loop_result:
  assumes "run_loop dl evs so se = Some le"
  shows "(le_ret le = LEO_OK \<longleftrightarrow> le_status le \<noteq> None) \<and> (le_killed le \<longleftrightarrow> le_ret le = LEO_ERR_TIMEOUT) \<and>
         le_ret le \<in> {LEO_OK, LEO_ERR_SYSTEM, LEO_ERR_TIMEOUT}"
  using assms
  by (induction dl evs so se rule: run_loop.induct)
     (auto simp: Let_def split: if_splits select_result.splits option.splits)

text \<open>The event at which the loop ends when the child does.\<close>

lemma run_loop_ok_event:
  assumes "run_loop dl evs so se = Some le" "le_ret le = LEO_OK"
    and "\<forall>ev \<in> set evs. ev_out ev \<le> n \<and> ev_err ev \<le> k \<and> (ev_wait ev \<noteq> None \<longrightarrow> ev_out_end ev = n \<and> ev_err_end ev = k)"
    and "so \<le> min (LEO_EXEC_STDOUT_MAX - 1) n" "se \<le> min (LEO_EXEC_STDERR_MAX - 1) k"
  shows "le_out le = min (LEO_EXEC_STDOUT_MAX - 1) n \<and> le_err le = min (LEO_EXEC_STDERR_MAX - 1) k \<and>
         (\<exists>ev \<in> set evs. ev_wait ev = le_status le)"
  using assms
proof (induction dl evs so se rule: run_loop.induct)
  case (2 dl ev evs so se)
  show ?case
  proof (cases "ev_select ev")
    case (Sel_Ready ro re)
    let ?so = "if ro then drain_fd LEO_EXEC_STDOUT_MAX (ev_out ev) so else so"
    let ?se = "if re then drain_fd LEO_EXEC_STDERR_MAX (ev_err ev) se else se"
    have b: "?so \<le> min (LEO_EXEC_STDOUT_MAX - 1) n" "?se \<le> min (LEO_EXEC_STDERR_MAX - 1) k"
      using 2(5) drain_fd_bound [OF 2(6), of "ev_out ev"] drain_fd_bound [OF 2(7), of "ev_err ev"] 2(6,7)
      by simp_all
    show ?thesis
    proof (cases "ev_wait ev")
      case None
      with Sel_Ready 2(3,4) have "run_loop dl evs ?so ?se = Some le"
        by (auto simp: Let_def split: if_splits)
      moreover have "\<not> (case dl of None \<Rightarrow> False | Some d \<Rightarrow> remain_ms d (ev_now ev) \<le> 0)"
        using 2(3,4) by (auto split: if_splits option.splits)
      ultimately show ?thesis
        using 2(2) [OF _ Sel_Ready refl refl None] 2(4,5) b by auto
    next
      case (Some st)
      with Sel_Ready 2(3,4) have "le_out le = drain_fd LEO_EXEC_STDOUT_MAX (ev_out_end ev) ?so"
        "le_err le = drain_fd LEO_EXEC_STDERR_MAX (ev_err_end ev) ?se" "le_status le = Some st"
        by (auto simp: Let_def split: if_splits)
      with Some 2(5) b show ?thesis by (auto simp: drain_fd_all)
    qed
  qed (use 2 in \<open>auto split: if_splits\<close>)
qed simp

text \<open>The deadline ends the loop whatever the child does.\<close>

lemma run_loop_deadline:
  assumes "\<exists>ev \<in> set evs. remain_ms dl (ev_now ev) \<le> 0"
  shows "\<exists>le. run_loop (Some dl) evs so se = Some le"
  using assms
proof (induction evs arbitrary: so se)
  case (Cons ev evs)
  show ?case
  proof (cases "remain_ms dl (ev_now ev) \<le> 0")
    case False
    with Cons.prems have "\<exists>e \<in> set evs. remain_ms dl (ev_now e) \<le> 0" by auto
    with Cons.IH False show ?thesis by (auto simp: Let_def split: select_result.splits option.splits)
  qed simp
qed simp

lemma run_child_tidy: "run_child env argv ee t = Some (e, r, eff) \<Longrightarrow> tidy eff"
  by (auto simp: run_child_def tidy_def Let_def split: if_splits option.splits)

lemma run_child_fits: "run_child env argv ee t = Some (e, r, eff) \<Longrightarrow> result_fits r"
  by (auto simp: run_child_def result_fits_def Let_def dest!: run_loop_offsets split: if_splits option.splits)

lemma run_child_error: "run_child env argv ee t = Some (e, r, eff) \<Longrightarrow> e \<in> {LEO_OK, LEO_ERR_SYSTEM, LEO_ERR_TIMEOUT}"
  by (auto simp: run_child_def Let_def dest!: run_loop_result split: if_splits option.splits)

interpretation script_runner: command_runner "\<lambda>(i, s) t r. leo_exec_script env i s t r"
proof unfold_locales
  fix cmd t r e r' eff
  assume "(case cmd of (i, s) \<Rightarrow> \<lambda>t r. leo_exec_script env i s t r) t r = Some (e, r', eff)"
  then obtain i s where *: "leo_exec_script env i s t r = Some (e, r', eff)" by (cases cmd) auto
  then show "result_fits r \<Longrightarrow> result_fits r'"
    by (auto simp: leo_exec_script_def write_script_tmp_def dest: run_child_fits split: option.splits if_splits)
  from * show "tidy eff"
    by (auto simp: leo_exec_script_def write_script_tmp_def dest!: run_child_tidy split: option.splits if_splits) (auto simp: tidy_def)
  from * show "e \<in> {LEO_OK, LEO_ERR_PROTOCOL, LEO_ERR_SYSTEM, LEO_ERR_TIMEOUT}"
    by (auto simp: leo_exec_script_def write_script_tmp_def dest: run_child_error split: option.splits if_splits)
qed

interpretation argv_runner: command_runner "\<lambda>(argv, ee) t r. leo_exec_argv env argv ee t r"
proof unfold_locales
  fix cmd t r e r' eff
  assume "(case cmd of (argv, ee) \<Rightarrow> \<lambda>t r. leo_exec_argv env argv ee t r) t r = Some (e, r', eff)"
  then obtain argv ee where *: "leo_exec_argv env argv ee t r = Some (e, r', eff)" by (cases cmd) auto
  then show "result_fits r \<Longrightarrow> result_fits r'"
    by (auto simp: leo_exec_argv_def dest: run_child_fits split: if_splits)
  from * show "tidy eff"
    by (auto simp: leo_exec_argv_def dest!: run_child_tidy split: if_splits) (auto simp: tidy_def)
  from * show "e \<in> {LEO_OK, LEO_ERR_PROTOCOL, LEO_ERR_SYSTEM, LEO_ERR_TIMEOUT}"
    by (auto simp: leo_exec_argv_def dest: run_child_error split: if_splits)
qed

section \<open>What the agent may rely on\<close>

text \<open>C18: a script runs only through an allowed interpreter, with nothing but the temporary file as
  its argument and no change to the environment; any other interpreter is refused before anything is
  done; the child is killed exactly on a timeout; every child is reaped and every temporary file
  removed; the captured output fits its buffers.\<close>

theorem leo_exec_script_contained:
  assumes "leo_exec_script env i s t r = Some (e, r', eff)"
  shows "(\<forall>argv ee. Spawn argv ee \<in> set eff \<longrightarrow>
            (\<exists>interp path. i = Some interp \<and> interp \<in> set ALLOWED_INTERPRETERS \<and>
                           mkstemp_path env = Some path \<and> argv = [interp, path] \<and> ee = [])) \<and>
         (e = LEO_ERR_PROTOCOL \<longleftrightarrow> (\<exists>interp text. i = Some interp \<and> s = Some text \<and> interp \<notin> set ALLOWED_INTERPRETERS)) \<and>
         (e = LEO_ERR_PROTOCOL \<longrightarrow> eff = []) \<and>
         (e = LEO_ERR_TIMEOUT \<longleftrightarrow> Sigkill \<in> set eff) \<and>
         tidy eff \<and> (result_fits r \<longrightarrow> result_fits r')"
proof -
  have child: "e' \<in> {LEO_OK, LEO_ERR_SYSTEM, LEO_ERR_TIMEOUT} \<and> (e' = LEO_ERR_TIMEOUT \<longleftrightarrow> Sigkill \<in> set eff') \<and>
      (\<forall>a x. Spawn a x \<in> set eff' \<longrightarrow> a = argv \<and> x = ee) \<and> (\<forall>p x. Make_Temp p x \<notin> set eff')"
    if "run_child env argv ee t' = Some (e', r'', eff')" for argv ee t' e' r'' eff'
    using that by (auto simp: run_child_def Let_def dest!: run_loop_result split: if_splits option.splits)
  have "tidy eff" "result_fits r \<longrightarrow> result_fits r'"
    using script_runner.tidy_law [of env "(i, s)" t r e r' eff] script_runner.fits_law [of env "(i, s)" t r e r' eff] assms
    by simp_all
  moreover have "(\<forall>argv ee. Spawn argv ee \<in> set eff \<longrightarrow>
            (\<exists>interp path. i = Some interp \<and> interp \<in> set ALLOWED_INTERPRETERS \<and>
                           mkstemp_path env = Some path \<and> argv = [interp, path] \<and> ee = []))"
    using assms by (auto simp: leo_exec_script_def write_script_tmp_def interpreter_allowed_def list_ex_iff dest!: child
        split: option.splits if_splits)
  moreover have "e = LEO_ERR_PROTOCOL \<longleftrightarrow> (\<exists>interp text. i = Some interp \<and> s = Some text \<and> interp \<notin> set ALLOWED_INTERPRETERS)"
    using assms by (auto simp: leo_exec_script_def write_script_tmp_def interpreter_allowed_def list_ex_iff dest!: child
        split: option.splits if_splits)
  moreover have "e = LEO_ERR_PROTOCOL \<longrightarrow> eff = []"
    using assms by (auto simp: leo_exec_script_def write_script_tmp_def dest!: child split: option.splits if_splits)
  moreover have "e = LEO_ERR_TIMEOUT \<longleftrightarrow> Sigkill \<in> set eff"
    using assms by (auto simp: leo_exec_script_def write_script_tmp_def dest!: child split: option.splits if_splits)
  ultimately show ?thesis by blast
qed

definition nanos :: "int \<times> int \<Rightarrow> int" where
  "nanos t = fst t * 1000000000 + snd t"

definition valid_time :: "int \<times> int \<Rightarrow> bool" where
  "valid_time t \<longleftrightarrow> 0 \<le> snd t \<and> snd t < 1000000000"

lemma remain_ms_past:
  assumes "valid_time dl" "valid_time now" "nanos dl \<le> nanos now"
  shows "remain_ms dl now \<le> 0"
proof (cases "0 \<le> snd dl - snd now")
  case True
  have "(snd dl - snd now) div 1000000 \<le> 999" using assms by (auto simp: valid_time_def)
  moreover have "fst dl - fst now \<le> - 1 \<or> (fst dl - fst now \<le> 0 \<and> snd dl = snd now)"
    using assms True by (auto simp: valid_time_def nanos_def)
  ultimately show ?thesis using True by (auto simp: remain_ms_def cdiv_def)
next
  case False
  then have "fst dl - fst now \<le> 0" using assms by (auto simp: valid_time_def nanos_def)
  moreover have "0 \<le> (snd now - snd dl) div 1000000" using False by (simp add: pos_imp_zdiv_nonneg_iff)
  ultimately show ?thesis using False by (simp add: remain_ms_def cdiv_def)
qed

text \<open>C19: a positive timeout bounds the whole run. Once the clock, read at the head of a turn of the
  loop, has reached the deadline, the call returns, however often the child kept the loop busy with
  output before that.\<close>

theorem exec_ends_by_deadline:
  assumes "0 < t" "argv \<noteq> []" "valid_time (t_start env)"
    and "ev \<in> set (exec_events env)" "valid_time (ev_now ev)"
    and "nanos (t_start env) + t * 1000000000 \<le> nanos (ev_now ev)"
  shows "\<exists>e r' eff. leo_exec_argv env argv ee t r = Some (e, r', eff)"
proof -
  let ?dl = "(fst (t_start env) + t, snd (t_start env))"
  have "remain_ms ?dl (ev_now ev) \<le> 0"
    using assms by (intro remain_ms_past) (auto simp: valid_time_def nanos_def algebra_simps)
  with assms(4) obtain le where "run_loop (Some ?dl) (exec_events env) 0 0 = Some le"
    using run_loop_deadline by blast
  with assms(1,2) show ?thesis by (simp add: leo_exec_argv_def run_child_def Let_def)
qed

text \<open>a child that ends by itself, with everything it wrote in its pipes by then, is reported
  with its own exit status and the first 16383 bytes of its output and 4095 of its errors; nothing
  it wrote before that is lost or repeated, however the reads were cut.\<close>

theorem exec_captures_output:
  assumes "leo_exec_argv env argv ee t r = Some (LEO_OK, r', eff)" "argv \<noteq> []"
    and "\<forall>ev \<in> set (exec_events env).
           ev_out ev \<le> length (child_out env) \<and> ev_err ev \<le> length (child_err env) \<and>
           (ev_wait ev \<noteq> None \<longrightarrow> ev_out_end ev = length (child_out env) \<and> ev_err_end ev = length (child_err env))"
  shows "stdout_buf r' = take 16383 (child_out env) \<and> stderr_buf r' = take 4095 (child_err env) \<and>
         (\<exists>ev st. ev \<in> set (exec_events env) \<and> ev_wait ev = Some st \<and> exit_code r' = exit_of st (- 1))"
proof -
  obtain dl le where le: "run_loop dl (exec_events env) 0 0 = Some le" "le_ret le = LEO_OK"
    "r' = \<lparr>exit_code = exit_of (case le_status le of Some st \<Rightarrow> st | None \<Rightarrow> final_status env) (- 1),
           stdout_buf = take (le_out le) (child_out env), stderr_buf = take (le_err le) (child_err env)\<rparr>"
    using assms(1,2)
    by (auto simp: leo_exec_argv_def run_child_def Let_def split: if_splits option.splits)
  from run_loop_ok_event [OF le(1,2) assms(3)] run_loop_result [OF le(1)] le(2,3) show ?thesis
    by (auto simp: exec_sizes min_def)
qed

section \<open>Concrete instances\<close>

definition quiet_event :: loop_event where
  "quiet_event = \<lparr>ev_now = (1, 0), ev_select = Sel_Eintr, ev_out = 0, ev_err = 0, ev_wait = None,
                  ev_out_end = 0, ev_err_end = 0\<rparr>"

definition echo_env :: exec_env where
  "echo_env =
     \<lparr>pipes_ok = True, fork_ok = True, t_start = (0, 0), child_out = ''hello'', child_err = '''',
      exec_events = [quiet_event\<lparr>ev_select := Sel_Ready True False, ev_out := 3\<rparr>,
                     quiet_event\<lparr>ev_select := Sel_Ready True True, ev_out := 5, ev_wait := Some (W_Exited 0),
                                 ev_out_end := 5\<rparr>],
      final_status = W_Other, mkstemp_path = Some ''/tmp/leo_exec_a1b2c3'', script_written = True\<rparr>"

definition blank_result :: leo_exec_result where
  "blank_result = \<lparr>exit_code = 0, stdout_buf = [], stderr_buf = []\<rparr>"

lemma echo_env_temp: "mkstemp_path echo_env = Some ''/tmp/leo_exec_a1b2c3''" "script_written echo_env"
  by (simp_all add: echo_env_def)

lemma echo_run:
  "run_child echo_env argv ee 10 = Some (LEO_OK, \<lparr>exit_code = 0, stdout_buf = ''hello'', stderr_buf = ''''\<rparr>, [Spawn argv ee, Reap])"
  by (simp add: run_child_def echo_env_def quiet_event_def remain_ms_def cdiv_def drain_fd_def exec_sizes exit_of_def)

theorem leo_exec_script_contained_witness:
  "tidy [Make_Temp ''/tmp/leo_exec_a1b2c3'' ''echo hello'', Spawn [''sh'', ''/tmp/leo_exec_a1b2c3''] [], Reap,
         Unlink ''/tmp/leo_exec_a1b2c3'']"
proof -
  have "leo_exec_script echo_env (Some ''sh'') (Some ''echo hello'') 10 blank_result =
    Some (LEO_OK, \<lparr>exit_code = 0, stdout_buf = ''hello'', stderr_buf = ''''\<rparr>,
      [Make_Temp ''/tmp/leo_exec_a1b2c3'' ''echo hello'', Spawn [''sh'', ''/tmp/leo_exec_a1b2c3''] [], Reap,
         Unlink ''/tmp/leo_exec_a1b2c3''])"
    by (simp add: leo_exec_script_def write_script_tmp_def echo_run interpreter_allowed_def ALLOWED_INTERPRETERS_def echo_env_temp)
  from leo_exec_script_contained [OF this] show ?thesis by blast
qed

theorem exec_ends_by_deadline_witness:
  "\<exists>e r' eff. leo_exec_argv (echo_env\<lparr>exec_events := [quiet_event, quiet_event\<lparr>ev_now := (7, 5)\<rparr>]\<rparr>) [''yes''] [] 6 blank_result
     = Some (e, r', eff)"
  by (rule exec_ends_by_deadline [of _ _ _ "quiet_event\<lparr>ev_now := (7, 5)\<rparr>"])
     (simp_all add: echo_env_def valid_time_def nanos_def quiet_event_def)

theorem exec_captures_output_witness:
  "leo_exec_argv echo_env [''echo'', ''hello''] [] 10 blank_result
     = Some (LEO_OK, \<lparr>exit_code = 0, stdout_buf = ''hello'', stderr_buf = ''''\<rparr>, [Spawn [''echo'', ''hello''] [], Reap]) \<and>
   take 16383 ''hello'' = ''hello''"
proof -
  have run: "leo_exec_argv echo_env [''echo'', ''hello''] [] 10 blank_result
     = Some (LEO_OK, \<lparr>exit_code = 0, stdout_buf = ''hello'', stderr_buf = ''''\<rparr>, [Spawn [''echo'', ''hello''] [], Reap])"
    by (simp add: leo_exec_argv_def echo_run)
  from exec_captures_output [OF this] run show ?thesis
    by (simp add: echo_env_def quiet_event_def)
qed

end
