(* ===== verification/Scan.thy ===== *)
theory Scan
  imports Leo_Prelude
begin

text \<open>
  Text input shared by the components that read the system's files and listings: cutting the end of a
  line, and the part of \<^verbatim>\<open>sscanf\<close>/\<^verbatim>\<open>fscanf\<close> the code uses. A format is a list of directives; scanning
  returns the values of the conversions made before the first one that fails, so that their number is
  the function's return value (an end of input before the first conversion, \<^verbatim>\<open>EOF\<close> in C, is also
  the empty list: the code never tells them apart), and the input that is left.
\<close>

text \<open>The end of a line cut off: \<^verbatim>\<open>while (len > 0 && (line[len-1] == '\n' || line[len-1] == '\r'))\<close>.\<close>

definition chomp :: "cstring \<Rightarrow> cstring" where
  "chomp s = rev (dropWhile (\<lambda>c. c = NL \<or> c = CHR 0x0D) (rev s))"

text \<open>\<^verbatim>\<open>%ns\<close>: white space skipped, then at most \<open>n\<close> other characters, at least one.\<close>

definition scan_word :: "nat \<Rightarrow> cstring \<Rightarrow> (cstring \<times> cstring) option" where
  "scan_word n s =
     (let s = dropWhile isspace s; w = take n (takeWhile (\<lambda>c. \<not> isspace c) s) in
      if w = [] then None else Some (w, drop (length w) s))"

text \<open>\<^verbatim>\<open>%n[^c]\<close>: at most \<open>n\<close> characters other than \<open>c\<close>, at least one; white space is not skipped.\<close>

definition scan_until :: "nat \<Rightarrow> char \<Rightarrow> cstring \<Rightarrow> (cstring \<times> cstring) option" where
  "scan_until n c s =
     (let w = take n (takeWhile (\<lambda>x. x \<noteq> c) s) in
      if w = [] then None else Some (w, drop (length w) s))"

text \<open>An integer: white space skipped, an optional sign, at least one digit. The value before it is
  brought to the type of the conversion.\<close>

definition scan_sign :: "cstring \<Rightarrow> bool \<times> cstring" where
  "scan_sign s =
     (case s of c # cs \<Rightarrow> if c = CHR ''-'' then (True, cs) else if c = CHR ''+'' then (False, cs) else (False, s) | [] \<Rightarrow> (False, s))"

definition scan_int :: "cstring \<Rightarrow> (int \<times> cstring) option" where
  "scan_int s =
     (let (neg, s) = scan_sign (dropWhile isspace s); ds = takeWhile isdigit s in
      if ds = [] then None
      else Some (if neg then - int (digits_val 0 ds) else int (digits_val 0 ds), drop (length ds) s))"

text \<open>\<^verbatim>\<open>%llu\<close> and \<^verbatim>\<open>%u\<close> store what \<^verbatim>\<open>strtoull\<close> returns, the second in 32 bits: a value too large becomes
  the largest, a minus sign negates modulo \<open>2 ^ 64\<close>.\<close>

definition ull_of_int :: "int \<Rightarrow> nat" where
  "ull_of_int i = (if \<bar>i\<bar> < 2 ^ 64 then nat (i mod 2 ^ 64) else 2 ^ 64 - 1)"

text \<open>\<^verbatim>\<open>%f\<close>, in the decimal forms: a sign, digits with an optional point, an optional exponent. The code
  does not use the value. Hexadecimal forms, infinities and NaN count as a failure here.\<close>

definition scan_exponent :: "cstring \<Rightarrow> cstring option" where
  "scan_exponent s =
     (case s of
        c # cs \<Rightarrow>
          if c = CHR ''e'' \<or> c = CHR ''E''
          then let (_, t) = scan_sign cs; ds = takeWhile isdigit t in
               if ds = [] then None else Some (drop (length ds) t)
          else Some s
      | [] \<Rightarrow> Some [])"

definition scan_float :: "cstring \<Rightarrow> cstring option" where
  "scan_float s =
     (let (_, s) = scan_sign (dropWhile isspace s);
          whole = takeWhile isdigit s; s = drop (length whole) s;
          point = (case s of c # _ \<Rightarrow> c = CHR ''.'' | [] \<Rightarrow> False);
          frac = (if point then takeWhile isdigit (tl s) else []);
          s = (if point then drop (length frac) (tl s) else s)
      in if whole = [] \<and> frac = [] then None else scan_exponent s)"

datatype scan_dir = SD_Space | SD_Lit char | SD_Word nat | SD_Until nat char | SD_ULL | SD_Int | SD_Float
datatype scan_val = SV_Str cstring | SV_Num int | SV_Float

definition scan_dir :: "scan_dir \<Rightarrow> cstring \<Rightarrow> (scan_val list \<times> cstring) option" where
  "scan_dir d s =
     (case d of
        SD_Space \<Rightarrow> Some ([], dropWhile isspace s)
      | SD_Lit c \<Rightarrow> (case s of x # xs \<Rightarrow> if x = c then Some ([], xs) else None | [] \<Rightarrow> None)
      | SD_Word n \<Rightarrow> map_option (\<lambda>(w, r). ([SV_Str w], r)) (scan_word n s)
      | SD_Until n c \<Rightarrow> map_option (\<lambda>(w, r). ([SV_Str w], r)) (scan_until n c s)
      | SD_ULL \<Rightarrow> map_option (\<lambda>(i, r). ([SV_Num (int (ull_of_int i))], r)) (scan_int s)
      | SD_Int \<Rightarrow> map_option (\<lambda>(i, r). ([SV_Num i], r)) (scan_int s)
      | SD_Float \<Rightarrow> map_option (\<lambda>r. ([SV_Float], r)) (scan_float s))"

fun scanf :: "scan_dir list \<Rightarrow> cstring \<Rightarrow> scan_val list \<times> cstring" where
  "scanf [] s = ([], s)"
| "scanf (d # ds) s =
     (case scan_dir d s of
        None \<Rightarrow> ([], s)
      | Some (vs, r) \<Rightarrow> let (ws, r) = scanf ds r in (vs @ ws, r))"

text \<open>The directives of a literal text, where a blank stands for any white space.\<close>

definition lits :: "string \<Rightarrow> scan_dir list" where
  "lits = map (\<lambda>c. if isspace c then SD_Space else SD_Lit c)"

definition str_val :: "scan_val list \<Rightarrow> nat \<Rightarrow> cstring" where
  "str_val vs i = (case vs ! i of SV_Str s \<Rightarrow> s | _ \<Rightarrow> [])"

definition num_val :: "scan_val list \<Rightarrow> nat \<Rightarrow> int" where
  "num_val vs i = (case vs ! i of SV_Num n \<Rightarrow> n | _ \<Rightarrow> 0)"

section \<open>Lemmas\<close>

lemma chomp_length: "length (chomp s) \<le> length s"
  using length_dropWhile_le [of "\<lambda>c. c = NL \<or> c = CHR 0x0D" "rev s"] by (simp add: chomp_def)

lemma c_str_length: "length (c_str s) \<le> length s"
  by (simp add: c_str_def length_takeWhile_le)

lemma take_line_le: "length (fst (take_line n bs)) \<le> n"
  by (induction n bs rule: take_line.induct) (auto split: prod.splits)

lemma chomp_snoc: "chomp (s @ [NL]) = chomp s"
  by (simp add: chomp_def)

lemma chomp_id: "s = [] \<or> (last s \<noteq> NL \<and> last s \<noteq> CHR 0x0D) \<Longrightarrow> chomp s = s"
  by (cases s rule: rev_cases) (auto simp: chomp_def)

lemma scan_word_rest: "scan_word n s = Some (w, r) \<Longrightarrow> length r < length s \<and> length w \<le> n \<and> w \<noteq> []"
proof -
  assume *: "scan_word n s = Some (w, r)"
  let ?s = "dropWhile isspace s"
  from * have w: "w = take n (takeWhile (\<lambda>c. \<not> isspace c) ?s)" "w \<noteq> []" "r = drop (length w) ?s"
    by (auto simp: scan_word_def Let_def split: if_splits)
  have "length w \<le> length ?s" "length w \<le> n"
    using length_takeWhile_le [of "\<lambda>c. \<not> isspace c" ?s] by (simp_all add: w(1))
  moreover have "length ?s \<le> length s" by (rule length_dropWhile_le)
  moreover have "0 < length w" "length r = length ?s - length w" using w(2,3) by simp_all
  ultimately show ?thesis using w(2) by linarith
qed

lemma scan_sign_rest: "length (snd (scan_sign t)) \<le> length t"
  by (auto simp: scan_sign_def split: list.splits)

lemma skip_space_sign_rest: "length (snd (scan_sign (dropWhile isspace s))) \<le> length s"
  using scan_sign_rest [of "dropWhile isspace s"] length_dropWhile_le [of isspace s] by linarith

lemma scan_exponent_rest: "scan_exponent u = Some t \<Longrightarrow> length t \<le> length u"
  by (auto simp: scan_exponent_def scan_sign_def Let_def split: list.splits if_splits prod.splits)

lemma scan_float_rest:
  assumes "scan_float s = Some r"
  shows "length r \<le> length s"
proof -
  from assms obtain u where "scan_exponent u = Some r" "length u \<le> length (snd (scan_sign (dropWhile isspace s)))"
    by (auto simp: scan_float_def Let_def split: prod.splits if_splits list.splits)
  with skip_space_sign_rest [of s] show ?thesis by (auto dest!: scan_exponent_rest)
qed

lemma scan_int_rest:
  assumes "scan_int s = Some (i, r)"
  shows "length r \<le> length s"
  using assms skip_space_sign_rest [of s] by (auto simp: scan_int_def Let_def split: prod.splits if_splits)

lemma scan_dir_rest:
  assumes "scan_dir d s = Some (vs, r)"
  shows "length r \<le> length s"
  using assms
  by (cases d) (auto simp: scan_dir_def scan_until_def Let_def length_dropWhile_le
      dest!: scan_word_rest scan_float_rest scan_int_rest split: list.splits if_splits)

lemma scanf_rest: "length (snd (scanf ds s)) \<le> length s"
proof (induction ds s rule: scanf.induct)
  case (2 d ds s)
  show ?case
  proof (cases "scan_dir d s")
    case (Some vr)
    obtain vs r where vr: "vr = (vs, r)" by fastforce
    with 2 [OF Some vr [symmetric]] Some scan_dir_rest [of d s vs r] show ?thesis by (auto split: prod.splits)
  qed simp
qed simp

text \<open>A number printed in decimal is read back.\<close>

lemma scan_int_show_nat:
  assumes "rest = [] \<or> \<not> isdigit (hd rest)"
  shows "scan_int (show_nat n @ rest) = Some (int n, rest)"
proof -
  obtain c cs where c: "show_nat n = c # cs" by (cases "show_nat n") auto
  have dig: "isdigit c" using show_nat_digits [of n] c by simp
  have tw: "takeWhile isdigit (show_nat n @ rest) = show_nat n"
    using assms show_nat_digits [of n] by (cases rest) (auto simp: takeWhile_append list_all_iff)
  from isdigit_imp [OF dig] have "scan_sign (dropWhile isspace (show_nat n @ rest)) = (False, show_nat n @ rest)"
    by (simp add: c scan_sign_def)
  with tw show ?thesis by (simp add: scan_int_def Let_def digits_val_show_nat)
qed

lemma ull_of_nat: "n < 2 ^ 64 \<Longrightarrow> ull_of_int (int n) = n"
  by (simp add: ull_of_int_def)

end
