(* ===== verification/Patches.thy ===== *)
theory Patches
  imports Executor Scan
begin

text \<open>
  \<^verbatim>\<open>agent/platform/linux/patches_linux.c\<close>: listing and installing system updates through apt or dnf.
  The text the package manager prints and the answers of \<^verbatim>\<open>access\<close> are arguments; the commands go
  through \<open>leo_exec_argv\<close>, the \<open>k\<close>-th call of which meets the system state \<open>envs k\<close>.
\<close>

datatype pkgmgr = PKGMGR_NONE | PKGMGR_APT | PKGMGR_DNF

definition APT_ENV :: "cstring list" where "APT_ENV = [''DEBIAN_FRONTEND=noninteractive'']"

definition detect_pkgmgr :: "(cstring \<Rightarrow> bool) \<Rightarrow> pkgmgr" where
  "detect_pkgmgr executable =
     (if executable ''/usr/bin/apt-get'' then PKGMGR_APT
      else if executable ''/usr/bin/dnf'' then PKGMGR_DNF else PKGMGR_NONE)"

section \<open>Collection\<close>

definition looks_security :: "cstring \<Rightarrow> bool" where
  "looks_security word = strstr (map tolower (take (if 128 \<le> length word then 127 else length word) word)) ''security''"

definition severity_of :: "cstring \<Rightarrow> leo_patch_severity" where
  "severity_of word = (if looks_security word then LEO_PATCH_SEVERITY_CRITICAL else LEO_PATCH_SEVERITY_IMPORTANT)"

text \<open>The bytes of an arrow between spaces, in UTF-8.\<close>

definition ARROW :: cstring where
  "ARROW = [CHR '' '', CHR 0xE2, CHR 0x86, CHR 0x92, CHR '' '']"

text \<open>The buffer \<^verbatim>\<open>char buf[sz] = ""\<close> after copying a piece that may not fit: left empty then.\<close>

definition fit_or_empty :: "nat \<Rightarrow> cstring \<Rightarrow> cstring" where
  "fit_or_empty sz s = (if length s < sz then s else [])"

definition parse_apt_line :: "cstring \<Rightarrow> leo_patch option" where
  "parse_apt_line line =
     (case strchr (CHR ''/'') line of
        None \<Rightarrow> None
      | Some slash \<Rightarrow>
          if slash = 0 then None
          else let pocket = drop (Suc slash) line in
            (case strchr (CHR '' '') pocket of
               None \<Rightarrow> None
             | Some space1 \<Rightarrow>
                 let version = drop (Suc space1) pocket in
                 (case strchr (CHR '' '') version of
                    None \<Rightarrow> None
                  | Some space2 \<Rightarrow>
                      if LEO_PATCH_ID_MAX_LEN \<le> slash \<or> space2 = 0 then None
                      else let name = take slash line;
                               pocket_buf = fit_or_empty 128 (take space1 pocket);
                               ver_buf = fit_or_empty 64 (take space2 version)
                           in Some \<lparr>patch_id = name,
                                    patch_title = strncpy_buf LEO_PATCH_TITLE_MAX_LEN (name @ ARROW @ ver_buf),
                                    patch_severity = severity_of pocket_buf, patch_size_bytes = 0\<rparr>)))"

definition parse_dnf_line :: "cstring \<Rightarrow> leo_patch option" where
  "parse_dnf_line line =
     (case scan_word 159 line of
        None \<Rightarrow> None
      | Some (name_arch, r1) \<Rightarrow>
          (case scan_word 63 r1 of
             None \<Rightarrow> None
           | Some (version, r2) \<Rightarrow>
               (case scan_word 63 r2 of
                  None \<Rightarrow> None
                | Some (repo, _) \<Rightarrow>
                    if strchr (CHR ''.'') version = None \<and> strchr (CHR ''-'') version = None then None
                    else Some \<lparr>patch_id = strncpy_buf LEO_PATCH_ID_MAX_LEN name_arch,
                               patch_title = strncpy_buf LEO_PATCH_TITLE_MAX_LEN (name_arch @ ARROW @ version),
                               patch_severity = severity_of repo, patch_size_bytes = 0\<rparr>)))"

text \<open>The loop \<^verbatim>\<open>while (n < max_items && fgets(line, ...))\<close>, over the lines still to read.\<close>

fun collect_lines :: "(cstring \<Rightarrow> leo_patch option) \<Rightarrow> nat \<Rightarrow> string list \<Rightarrow> leo_patch list" where
  "collect_lines parse 0 ls = []"
| "collect_lines parse (Suc m) [] = []"
| "collect_lines parse (Suc m) (l # ls) =
     (case parse (chomp (c_str l)) of
        None \<Rightarrow> collect_lines parse (Suc m) ls
      | Some p \<Rightarrow> p # collect_lines parse m ls)"

text \<open>\<open>None\<close> output is a failed \<^verbatim>\<open>popen\<close>.\<close>

definition collect_apt :: "string option \<Rightarrow> nat \<Rightarrow> leo_patch list" where
  "collect_apt out max_items =
     (case out of None \<Rightarrow> [] | Some text \<Rightarrow> collect_lines parse_apt_line max_items (read_lines 512 text))"

definition collect_dnf :: "string option \<Rightarrow> nat \<Rightarrow> leo_patch list" where
  "collect_dnf out max_items =
     (case out of
        None \<Rightarrow> []
      | Some text \<Rightarrow>
          collect_lines (\<lambda>l. if l = [] then None else parse_dnf_line l) max_items (read_lines 512 text))"

text \<open>The list of the entries written; its length is the return value, and \<open>None\<close> is \<^verbatim>\<open>-1\<close>.\<close>

definition leo_patches_collect ::
  "(cstring \<Rightarrow> bool) \<Rightarrow> string option \<Rightarrow> string option \<Rightarrow> int \<Rightarrow> leo_patch list option" where
  "leo_patches_collect executable apt_out dnf_out max_items =
     (if max_items \<le> 0 then None
      else Some (case detect_pkgmgr executable of
                   PKGMGR_APT \<Rightarrow> collect_apt apt_out (nat max_items)
                 | PKGMGR_DNF \<Rightarrow> collect_dnf dnf_out (nat max_items)
                 | PKGMGR_NONE \<Rightarrow> []))"

section \<open>Installation\<close>

type_synonym exec_out = "(leo_error \<times> leo_exec_result \<times> exec_effect list) option"

definition UPDATE_ARGV :: "cstring list" where "UPDATE_ARGV = [''apt-get'', ''update'', ''-qq'']"
definition SHUTDOWN_ARGV :: "cstring list" where "SHUTDOWN_ARGV = [''shutdown'', ''-r'', ''+1'']"
definition SYSTEMCTL_ARGV :: "cstring list" where "SYSTEMCTL_ARGV = [''systemctl'', ''reboot'']"

lemmas fixed_argvs = UPDATE_ARGV_def SHUTDOWN_ARGV_def SYSTEMCTL_ARGV_def

text \<open>The loop \<^verbatim>\<open>for (i = 0; i < count && ac < limit; i++) argv[ac++] = ids[i]\<close>.\<close>

fun push_args :: "nat \<Rightarrow> cstring list \<Rightarrow> cstring list \<Rightarrow> cstring list" where
  "push_args limit argv [] = argv"
| "push_args limit argv (x # xs) = (if length argv < limit then push_args limit (argv @ [x]) xs else argv)"

definition schedule_reboot :: "(nat \<Rightarrow> exec_env) \<Rightarrow> nat \<Rightarrow> leo_exec_result \<Rightarrow> exec_effect list option" where
  "schedule_reboot envs k r =
     (case leo_exec_argv (envs k) SHUTDOWN_ARGV [] 15 r of
        None \<Rightarrow> None
      | Some (rc, r, eff) \<Rightarrow>
          if rc = LEO_OK \<and> exit_code r = 0 then Some eff
          else (case leo_exec_argv (envs (Suc k)) SYSTEMCTL_ARGV [] 15 r of
                  None \<Rightarrow> None
                | Some (rc', r', eff') \<Rightarrow> Some (eff @ eff')))"

definition apt_install_argv :: "cstring list \<Rightarrow> int \<Rightarrow> cstring list" where
  "apt_install_argv ids count =
     push_args (LEO_PATCH_INSTALL_MAX_COUNT + 5)
       [''apt-get'', ''install'', ''-y'', ''--only-upgrade'', ''--''] (take (nat count) ids)"

definition install_apt ::
  "(nat \<Rightarrow> exec_env) \<Rightarrow> cstring list \<Rightarrow> int \<Rightarrow> int \<Rightarrow> leo_exec_result \<Rightarrow> exec_out" where
  "install_apt envs ids count timeout_secs result =
     (case leo_exec_argv (envs 0) UPDATE_ARGV APT_ENV timeout_secs result of
        None \<Rightarrow> None
      | Some (rc, result, eff) \<Rightarrow>
          if rc \<noteq> LEO_OK \<or> exit_code result \<noteq> 0 then Some (rc, result, eff)
          else (case leo_exec_argv (envs 1) (apt_install_argv ids count) APT_ENV timeout_secs result of
                  None \<Rightarrow> None
                | Some (rc', result', eff') \<Rightarrow> Some (rc', result', eff @ eff')))"

definition dnf_install_argv :: "cstring list \<Rightarrow> int \<Rightarrow> cstring list" where
  "dnf_install_argv ids count =
     push_args (LEO_PATCH_INSTALL_MAX_COUNT + 3) [''dnf'', ''update'', ''-y''] (take (nat count) ids)"

definition install_dnf ::
  "(nat \<Rightarrow> exec_env) \<Rightarrow> cstring list \<Rightarrow> int \<Rightarrow> int \<Rightarrow> leo_exec_result \<Rightarrow> exec_out" where
  "install_dnf envs ids count timeout_secs result =
     leo_exec_argv (envs 0) (dnf_install_argv ids count) [] timeout_secs result"

definition NO_PKGMGR_MSG :: cstring where
  "NO_PKGMGR_MSG = ''Aucun gestionnaire de paquets support'' @ [CHR 0xC3, CHR 0xA9] @ '' d'' @ [CHR 0xC3, CHR 0xA9] @
     ''tect'' @ [CHR 0xC3, CHR 0xA9]"

definition leo_patches_install ::
  "(cstring \<Rightarrow> bool) \<Rightarrow> (nat \<Rightarrow> exec_env) \<Rightarrow> cstring list option \<Rightarrow> int \<Rightarrow> bool \<Rightarrow> int \<Rightarrow> leo_exec_result \<Rightarrow> exec_out" where
  "leo_patches_install executable envs ids count reboot_after timeout_secs result =
     (case ids of
        None \<Rightarrow> Some (LEO_ERR_SYSTEM, result, [])
      | Some xs \<Rightarrow>
          if count \<le> 0 then Some (LEO_ERR_SYSTEM, result, [])
          else
            let finish = (\<lambda>out. case out of
                None \<Rightarrow> None
              | Some (rc, result, eff) \<Rightarrow>
                  if rc = LEO_OK \<and> exit_code result = 0 \<and> reboot_after
                  then map_option (\<lambda>eff'. (rc, result, eff @ eff'))
                         (schedule_reboot envs 2 \<lparr>exit_code = 0, stdout_buf = [], stderr_buf = []\<rparr>)
                  else Some (rc, result, eff))
            in case detect_pkgmgr executable of
                 PKGMGR_APT \<Rightarrow> finish (install_apt envs xs count timeout_secs result)
               | PKGMGR_DNF \<Rightarrow> finish (install_dnf envs xs count timeout_secs result)
               | PKGMGR_NONE \<Rightarrow>
                   Some (LEO_OK, \<lparr>exit_code = - 1, stdout_buf = [],
                                  stderr_buf = strncpy_buf LEO_EXEC_STDERR_MAX NO_PKGMGR_MSG\<rparr>, []))"

section \<open>What is collected\<close>

lemma collect_lines_eq:
  "collect_lines parse m ls = take m (List.map_filter (\<lambda>l. parse (chomp (c_str l))) ls)"
  by (induction parse m ls rule: collect_lines.induct) (auto simp: map_filter_simps split: option.splits)

definition patch_fits :: "leo_patch \<Rightarrow> bool" where
  "patch_fits p \<longleftrightarrow> patch_id p \<noteq> [] \<and> length (patch_id p) < LEO_PATCH_ID_MAX_LEN \<and>
     length (patch_title p) < LEO_PATCH_TITLE_MAX_LEN \<and> LEO_PATCH_SEVERITY_IMPORTANT \<le> patch_severity p"

lemma severity_of_important: "LEO_PATCH_SEVERITY_IMPORTANT \<le> severity_of w"
  by (simp add: severity_of_def less_eq_leo_patch_severity_def)

lemma parse_apt_line_fits: "parse_apt_line l = Some p \<Longrightarrow> patch_fits p"
  by (auto simp: parse_apt_line_def patch_fits_def severity_of_important strncpy_buf_length leo_sizes Let_def
      split: option.splits if_splits dest: strchr_SomeD)

lemma parse_dnf_line_fits:
  assumes "parse_dnf_line l = Some p"
  shows "patch_fits p"
proof -
  from assms obtain w r v where w: "scan_word 159 l = Some (w, r)"
    and p: "patch_id p = strncpy_buf LEO_PATCH_ID_MAX_LEN w" "patch_title p = strncpy_buf LEO_PATCH_TITLE_MAX_LEN v"
      "LEO_PATCH_SEVERITY_IMPORTANT \<le> patch_severity p"
    by (auto simp: parse_dnf_line_def severity_of_important split: option.splits if_splits prod.splits)
  from w have "w \<noteq> []" "length w < 160" by (auto simp: scan_word_def Let_def split: if_splits)
  with p show ?thesis by (simp add: patch_fits_def strncpy_buf_id strncpy_buf_length leo_sizes)
qed

text \<open>collecting updates yields, in order, what the parser recognises in the lines printed, up
  to the requested number; every entry has a non-empty identifier that fits its field, a title
  that fits, and is at least important. A non-positive limit is an error.\<close>

theorem leo_patches_collect_bounds:
  "(case leo_patches_collect executable apt_out dnf_out max_items of
      None \<Rightarrow> max_items \<le> 0
    | Some ps \<Rightarrow> 0 < max_items \<and> int (length ps) \<le> max_items \<and> list_all patch_fits ps) \<and>
   collect_apt (Some txt) m = take m (List.map_filter (\<lambda>l. parse_apt_line (chomp (c_str l))) (read_lines 512 txt))"
proof
  have fits: "list_all patch_fits (collect_lines parse m ls)" if "\<And>l p. parse l = Some p \<Longrightarrow> patch_fits p" for parse m ls
    using that by (induction parse m ls rule: collect_lines.induct) (auto split: option.splits)
  have "length (collect_lines parse m ls) \<le> m" for parse m ls by (simp add: collect_lines_eq)
  then have apt: "list_all patch_fits (collect_apt out m) \<and> length (collect_apt out m) \<le> m" for out m
    by (auto simp: collect_apt_def split: option.splits intro: fits parse_apt_line_fits)
  moreover have dnf: "list_all patch_fits (collect_dnf out m) \<and> length (collect_dnf out m) \<le> m" for out m
    using \<open>\<And>parse m ls. length (collect_lines parse m ls) \<le> m\<close>
    by (auto simp: collect_dnf_def split: option.splits if_splits intro!: fits intro: parse_dnf_line_fits)
  moreover have "int (length xs) \<le> max_items" if "length xs \<le> nat max_items" "\<not> max_items \<le> 0" for xs :: "leo_patch list"
    using that by linarith
  ultimately show "case leo_patches_collect executable apt_out dnf_out max_items of
      None \<Rightarrow> max_items \<le> 0
    | Some ps \<Rightarrow> 0 < max_items \<and> int (length ps) \<le> max_items \<and> list_all patch_fits ps"
    by (auto simp: leo_patches_collect_def split: pkgmgr.splits)
qed (simp add: collect_apt_def collect_lines_eq)

text \<open>a line of \<^verbatim>\<open>apt list --upgradable\<close> is read as it was meant: name before the slash, suite
  after it, version, and the rest ignored; an update from a suite whose name mentions security, in
  any case, is critical.\<close>

theorem parse_apt_line_reads:
  assumes "CHR ''/'' \<notin> set name" "name \<noteq> []" "length name < LEO_PATCH_ID_MAX_LEN"
    and "CHR '' '' \<notin> set suite" "length suite < 128"
    and "CHR '' '' \<notin> set version" "version \<noteq> []" "length version < 64"
  shows "parse_apt_line (name @ ''/'' @ suite @ '' '' @ version @ '' '' @ rest) =
    Some \<lparr>patch_id = name, patch_title = name @ ARROW @ version,
          patch_severity = (if \<exists>a b. map tolower suite = a @ ''security'' @ b
                            then LEO_PATCH_SEVERITY_CRITICAL else LEO_PATCH_SEVERITY_IMPORTANT),
          patch_size_bytes = 0\<rparr>"
proof -
  have "looks_security suite \<longleftrightarrow> (\<exists>a b. map tolower suite = a @ ''security'' @ b)"
    using assms(5) by (simp add: looks_security_def strstr_iff)
  moreover have "strncpy_buf LEO_PATCH_TITLE_MAX_LEN (name @ ARROW @ version) = name @ ARROW @ version"
    using assms(3,8) by (intro strncpy_buf_id) (simp add: leo_sizes ARROW_def)
  ultimately show ?thesis
    using assms by (simp add: parse_apt_line_def Let_def strchr_append_hit fit_or_empty_def severity_of_def)
qed

section \<open>What is run\<close>

definition spawned :: "exec_effect list \<Rightarrow> cstring list list" where
  "spawned eff = List.map_filter (\<lambda>e. case e of Spawn argv _ \<Rightarrow> Some argv | _ \<Rightarrow> None) eff"

lemma spawned_append [simp]: "spawned (a @ b) = spawned a @ spawned b"
  by (simp add: spawned_def List.map_filter_def)

lemma run_child_spawned:
  "run_child env argv ee t = Some (rc, r, eff) \<Longrightarrow> spawned eff = [argv] \<or> (spawned eff = [] \<and> rc \<noteq> LEO_OK)"
  by (auto simp: run_child_def spawned_def map_filter_simps Let_def split: if_splits option.splits)

lemma leo_exec_argv_spawned:
  "leo_exec_argv env argv ee t r = Some (rc, r', eff) \<Longrightarrow> spawned eff = [argv] \<or> (spawned eff = [] \<and> rc \<noteq> LEO_OK)"
  by (auto simp: leo_exec_argv_def dest: run_child_spawned split: if_splits) (simp add: spawned_def map_filter_simps)

lemma push_args_eq: "length argv \<le> limit \<Longrightarrow> push_args limit argv xs = argv @ take (limit - length argv) xs"
proof (induction limit argv xs rule: push_args.induct)
  case (2 limit argv x xs)
  show ?case
  proof (cases "length argv < limit")
    case True
    then have "limit - length argv = Suc (limit - Suc (length argv))" by simp
    with True 2 show ?thesis by simp
  qed (use 2 in simp)
qed simp

lemma apt_install_argv_eq:
  "apt_install_argv ids count =
     [''apt-get'', ''install'', ''-y'', ''--only-upgrade'', ''--''] @ take (min 64 (nat count)) ids"
  by (simp add: apt_install_argv_def push_args_eq leo_sizes min.commute)

lemma dnf_install_argv_eq:
  "dnf_install_argv ids count = [''dnf'', ''update'', ''-y''] @ take (min 64 (nat count)) ids"
  by (simp add: dnf_install_argv_def push_args_eq leo_sizes min.commute)

lemma schedule_reboot_spawned:
  assumes "schedule_reboot envs k r = Some eff"
  shows "spawned eff \<in> {[], [SHUTDOWN_ARGV], [SYSTEMCTL_ARGV], [SHUTDOWN_ARGV, SYSTEMCTL_ARGV]}"
  using assms
  by (auto simp: schedule_reboot_def dest!: leo_exec_argv_spawned split: option.splits if_splits)

lemma install_apt_spawned:
  assumes "install_apt envs ids count t r = Some (rc, r', eff)"
  shows "spawned eff \<in> {[], [UPDATE_ARGV], [UPDATE_ARGV, apt_install_argv ids count]} \<and>
         (rc = LEO_OK \<longrightarrow> spawned eff \<noteq> [] \<and>
            (exit_code r' = 0 \<longrightarrow> spawned eff = [UPDATE_ARGV, apt_install_argv ids count]))"
  using assms
  by (auto simp: install_apt_def dest!: leo_exec_argv_spawned split: option.splits if_splits)

text \<open>the only commands an installation through apt starts are, in this order, the refresh of
  the package lists, the upgrade of at most 64 of the given packages, each of them after \<^verbatim>\<open>--\<close> so
  that none is read as an option and only if the refresh succeeded, and, only if that succeeded
  and a reboot was asked for, the commands that schedule it; success is reported only when the
  upgrade itself ran.\<close>

theorem leo_patches_install_apt_commands:
  assumes "leo_patches_install executable envs (Some ids) count reboot_after t r = Some (rc, r', eff)"
    and "executable ''/usr/bin/apt-get''" "0 < count"
  shows "\<exists>reboot. spawned eff \<in> {[], [UPDATE_ARGV]} \<and> (rc \<noteq> LEO_OK \<or> exit_code r' \<noteq> 0) \<or>
           spawned eff = [UPDATE_ARGV,
                          [''apt-get'', ''install'', ''-y'', ''--only-upgrade'', ''--''] @ take (min 64 (nat count)) ids]
                         @ reboot \<and>
           set reboot \<subseteq> {SHUTDOWN_ARGV, SYSTEMCTL_ARGV} \<and>
           (reboot \<noteq> [] \<longrightarrow> reboot_after \<and> rc = LEO_OK \<and> exit_code r' = 0)"
proof -
  from assms obtain eff1 eff2 where inst: "install_apt envs ids count t r = Some (rc, r', eff1)"
    and eff: "eff = eff1 @ eff2"
    and reboot: "eff2 = [] \<or> (rc = LEO_OK \<and> exit_code r' = 0 \<and> reboot_after \<and> (\<exists>x. schedule_reboot envs 2 x = Some eff2))"
    by (auto simp: leo_patches_install_def detect_pkgmgr_def Let_def split: option.splits if_splits) blast
  have "set (spawned eff2) \<subseteq> {SHUTDOWN_ARGV, SYSTEMCTL_ARGV}"
    using reboot by (auto dest!: schedule_reboot_spawned simp: spawned_def map_filter_simps)
  moreover have "spawned eff2 \<noteq> [] \<longrightarrow> rc = LEO_OK \<and> exit_code r' = 0 \<and> reboot_after"
    using reboot by (auto simp: spawned_def map_filter_simps)
  ultimately show ?thesis
    using install_apt_spawned [OF inst] unfolding apt_install_argv_eq eff spawned_append
    by (intro exI [of _ "spawned eff2"]) auto
qed

section \<open>Concrete instances\<close>

theorem parse_apt_line_reads_witness:
  "parse_apt_line ''curl/jammy-SECURITY 8.5 amd64'' =
     Some \<lparr>patch_id = ''curl'', patch_title = ''curl'' @ ARROW @ ''8.5'',
           patch_severity = LEO_PATCH_SEVERITY_CRITICAL, patch_size_bytes = 0\<rparr>"
proof -
  have "map tolower ''jammy-SECURITY'' = ''jammy-'' @ ''security'' @ []"
    by (simp add: tolower_def byte_of_def flip: byte_of_inject)
  then have "\<exists>a b. map tolower ''jammy-SECURITY'' = a @ ''security'' @ b" by blast
  with parse_apt_line_reads [of "''curl''" "''jammy-SECURITY''" "''8.5''" "''amd64''"] show ?thesis
    by (simp add: leo_sizes)
qed

theorem leo_patches_install_apt_commands_witness:
  "\<exists>rc r' eff. leo_patches_install (\<lambda>_. True) (\<lambda>_. echo_env) (Some [''curl'', ''--evil'']) 2 False 10 blank_result
       = Some (rc, r', eff) \<and>
     spawned eff = [UPDATE_ARGV, [''apt-get'', ''install'', ''-y'', ''--only-upgrade'', ''--'', ''curl'', ''--evil'']]"
proof -
  let ?argv = "[''apt-get'', ''install'', ''-y'', ''--only-upgrade'', ''--''] @ take (min 64 (nat 2)) [''curl'', ''--evil'']"
  have "leo_patches_install (\<lambda>_. True) (\<lambda>_. echo_env) (Some [''curl'', ''--evil'']) 2 False 10 blank_result =
    Some (LEO_OK, \<lparr>exit_code = 0, stdout_buf = ''hello'', stderr_buf = ''''\<rparr>,
          [Spawn UPDATE_ARGV APT_ENV, Reap, Spawn ?argv APT_ENV, Reap])"
    by (simp add: leo_patches_install_def install_apt_def detect_pkgmgr_def leo_exec_argv_def echo_run
        apt_install_argv_eq UPDATE_ARGV_def)
  from leo_patches_install_apt_commands [OF this] this show ?thesis
    by (simp add: spawned_def map_filter_simps)
qed

end
