(* ===== verification/Http_Url.thy ===== *)
theory Http_Url
  imports Leo_Types
begin

text \<open>
  \<^verbatim>\<open>agent/src/http_url.c\<close>: splitting \<^verbatim>\<open>http[s]://host[:port][/path]\<close>. The agent has two more
  parsers of the same shape, \<^verbatim>\<open>_parse_endpoint\<close> (\<^verbatim>\<open>connection.c\<close>) and \<^verbatim>\<open>_parse_ws_url\<close>
  (\<^verbatim>\<open>remote_desktop.c\<close>); the locale \<open>endpoint_parser\<close> is the contract their callers rely on
  when they hand the result to \<^verbatim>\<open>lws_client_connect_via_info\<close>, and each parser's theory
  interprets it.
\<close>

record endpoint =
  ep_host :: cstring
  ep_port :: int
  ep_path :: cstring

abbreviation SLASH :: char where "SLASH \<equiv> CHR ''/''"
abbreviation COLON :: char where "COLON \<equiv> CHR '':''"

text \<open>The test \<^verbatim>\<open>colon && (!slash || colon < slash)\<close>, with the offset of the colon.\<close>

fun colon_first :: "nat option \<Rightarrow> nat option \<Rightarrow> nat option" where
  "colon_first (Some c) None = Some c"
| "colon_first (Some c) (Some s) = (if c < s then Some c else None)"
| "colon_first None _ = None"

text \<open>The scheme: \<^verbatim>\<open>use_ssl\<close> and the rest of the URL.\<close>

definition http_scheme :: "cstring \<Rightarrow> bool \<times> cstring" where
  "http_scheme url =
     (if strprefix ''https://'' url then (True, drop 8 url)
      else if strprefix ''http://'' url then (False, drop 7 url)
      else (False, url))"

text \<open>After the scheme. \<open>path_sz\<close> is \<open>None\<close> for a NULL \<^verbatim>\<open>path_out\<close>; the path is then left empty.
  The result pairs \<^verbatim>\<open>use_ssl\<close> with the endpoint; \<open>None\<close> is the return value \<^verbatim>\<open>false\<close>.\<close>

definition http_path_out :: "nat option \<Rightarrow> nat option \<Rightarrow> cstring \<Rightarrow> cstring" where
  "http_path_out path_sz slash p =
     (case path_sz of
        None \<Rightarrow> []
      | Some n \<Rightarrow> if n = 0 then []
                  else strncpy_buf n (case slash of Some s \<Rightarrow> drop s p | None \<Rightarrow> ''/''))"

definition http_host_port ::
  "bool \<Rightarrow> cstring \<Rightarrow> nat \<Rightarrow> nat option \<Rightarrow> (bool \<times> endpoint) option" where
  "http_host_port use_ssl p host_sz path_sz =
     (let slash = strchr SLASH p; colon = strchr COLON p; path = http_path_out path_sz slash p in
      case colon_first colon slash of
        Some c \<Rightarrow>
          if c = 0 \<or> host_sz \<le> c then None
          else let port = atoi (drop (Suc c) p) in
               if port \<le> 0 \<or> 65535 < port then None
               else Some (use_ssl, \<lparr>ep_host = take c p, ep_port = port, ep_path = path\<rparr>)
      | None \<Rightarrow>
          let host_len = (case slash of Some s \<Rightarrow> s | None \<Rightarrow> length p) in
          if host_len = 0 \<or> host_sz \<le> host_len then None
          else Some (use_ssl, \<lparr>ep_host = take host_len p,
                               ep_port = (if use_ssl then 443 else 80), ep_path = path\<rparr>))"

definition leo_http_parse_url :: "cstring \<Rightarrow> nat \<Rightarrow> nat option \<Rightarrow> (bool \<times> endpoint) option" where
  "leo_http_parse_url url host_sz path_sz =
     (let (use_ssl, p) = http_scheme url in http_host_port use_ssl p host_sz path_sz)"

section \<open>The contract of an endpoint parser\<close>

definition host_ok :: "nat \<Rightarrow> cstring \<Rightarrow> bool" where
  "host_ok host_sz h \<longleftrightarrow> h \<noteq> [] \<and> length h < host_sz \<and> SLASH \<notin> set h \<and> COLON \<notin> set h"

locale endpoint_parser =
  fixes parse :: "cstring \<Rightarrow> endpoint option"
    and host_sz :: nat
    and path_sz :: nat
  assumes host_law: "parse s = Some e \<Longrightarrow> host_ok host_sz (ep_host e)"
    and port_law: "parse s = Some e \<Longrightarrow> 0 < ep_port e \<and> int32_range (ep_port e)"
    and path_law: "parse s = Some e \<Longrightarrow> length (ep_path e) < path_sz"
begin

text \<open>The address handed to the network library is a non-empty host name that cannot itself be
  split again, and the three buffers of the caller are never overrun.\<close>

lemma connect_args:
  assumes "parse s = Some e"
  shows "ep_host e \<noteq> [] \<and> length (ep_host e) < host_sz \<and> length (ep_path e) < path_sz \<and> 0 < ep_port e"
  using host_law [OF assms] port_law [OF assms] path_law [OF assms] by (simp add: host_ok_def)

lemma host_not_split_again:
  assumes "parse s = Some e"
  shows "strchr SLASH (ep_host e) = None \<and> strchr COLON (ep_host e) = None"
  using host_law [OF assms] by (simp add: host_ok_def strchr_None_iff)

end

section \<open>Splitting at the first colon or slash\<close>

lemma colon_first_SomeD:
  assumes "colon_first (strchr COLON p) (strchr SLASH p) = Some c"
  shows "c < length p \<and> COLON \<notin> set (take c p) \<and> SLASH \<notin> set (take c p)"
proof (cases "strchr SLASH p")
  case None
  with assms have "strchr COLON p = Some c" by (cases "strchr COLON p") auto
  with None show ?thesis by (auto simp: strchr_None_iff dest: strchr_SomeD in_set_takeD)
next
  case (Some s)
  with assms have c: "strchr COLON p = Some c" "c < s" by (cases "strchr COLON p"; auto split: if_splits)+
  from c(2) have "set (take c p) \<subseteq> set (take s p)" by (simp add: set_take_subset_set_take)
  with strchr_SomeD [OF Some] strchr_SomeD [OF c(1)] show ?thesis by auto
qed

lemma colon_first_NoneD:
  assumes "colon_first (strchr COLON p) (strchr SLASH p) = None"
  shows "COLON \<notin> set (take (case strchr SLASH p of Some s \<Rightarrow> s | None \<Rightarrow> length p) p) \<and>
         SLASH \<notin> set (take (case strchr SLASH p of Some s \<Rightarrow> s | None \<Rightarrow> length p) p)"
proof (cases "strchr SLASH p")
  case None
  with assms have "strchr COLON p = None" by (cases "strchr COLON p") auto
  with None have "COLON \<notin> set p" "SLASH \<notin> set p" by (simp_all add: strchr_None_iff)
  with None show ?thesis by simp
next
  case (Some s)
  have "COLON \<notin> set (take s p)"
  proof (cases "strchr COLON p")
    case None
    then show ?thesis by (auto simp: strchr_None_iff dest: in_set_takeD)
  next
    case c: (Some c)
    with assms Some have "s \<le> c" by (auto split: if_splits)
    then have "set (take s p) \<subseteq> set (take c p)" by (rule set_take_subset_set_take)
    with strchr_SomeD [OF c] show ?thesis by auto
  qed
  with strchr_SomeD [OF Some] Some show ?thesis by simp
qed

lemma host_len_le: "(case strchr SLASH p of Some s \<Rightarrow> s | None \<Rightarrow> length p) \<le> length p"
  by (auto split: option.splits dest!: strchr_SomeD)

lemma http_path_out_length: "0 < n \<Longrightarrow> length (http_path_out (Some n) sl p) < n"
  by (simp add: http_path_out_def strncpy_buf_length)

lemma http_host_port_laws:
  assumes "http_host_port ssl p hsz psz = Some (ssl', e)"
  shows "host_ok hsz (ep_host e) \<and> 0 < ep_port e \<and> ep_port e \<le> 65535 \<and>
         ep_path e = http_path_out psz (strchr SLASH p) p"
proof (cases "colon_first (strchr COLON p) (strchr SLASH p)")
  case (Some c)
  with assms colon_first_SomeD [OF Some] show ?thesis
    by (auto simp: http_host_port_def host_ok_def Let_def split: if_splits)
next
  case None
  with assms colon_first_NoneD [OF None] host_len_le [of p] show ?thesis
    by (auto simp: http_host_port_def host_ok_def Let_def split: if_splits)
qed

lemma http_parse_laws:
  assumes "leo_http_parse_url s hsz psz = Some (ssl, e)"
  shows "host_ok hsz (ep_host e)" "0 < ep_port e \<and> ep_port e \<le> 65535"
    "psz = Some n \<Longrightarrow> 0 < n \<Longrightarrow> length (ep_path e) < n"
proof -
  obtain s0 p where sp: "http_scheme s = (s0, p)" by fastforce
  with assms have "http_host_port s0 p hsz psz = Some (ssl, e)"
    by (simp add: leo_http_parse_url_def)
  from http_host_port_laws [OF this]
  show "host_ok hsz (ep_host e)" "0 < ep_port e \<and> ep_port e \<le> 65535"
    "psz = Some n \<Longrightarrow> 0 < n \<Longrightarrow> length (ep_path e) < n"
    by (simp_all add: http_path_out_length)
qed

text \<open>The parser as its client for file downloads uses it: a host buffer of 256 bytes, a path
  buffer of \<^const>\<open>LEO_FILE_URL_MAX_LEN\<close>.\<close>

definition http_endpoint :: "cstring \<Rightarrow> endpoint option" where
  "http_endpoint url = map_option snd (leo_http_parse_url url 256 (Some LEO_FILE_URL_MAX_LEN))"

interpretation http: endpoint_parser http_endpoint 256 LEO_FILE_URL_MAX_LEN
proof unfold_locales
  fix s e assume "http_endpoint s = Some e"
  then obtain ssl where "leo_http_parse_url s 256 (Some LEO_FILE_URL_MAX_LEN) = Some (ssl, e)"
    by (auto simp: http_endpoint_def)
  from http_parse_laws [OF this]
  show "host_ok 256 (ep_host e)" "0 < ep_port e \<and> int32_range (ep_port e)"
    "length (ep_path e) < LEO_FILE_URL_MAX_LEN"
    by (simp_all add: int32_range_def leo_sizes)
qed

text \<open>whatever URL the backend sends, a successful parse leaves a non-empty host without
  separators that fits the caller's buffer, a TCP port between 1 and 65535 and a path within its
  buffer.\<close>

theorem leo_http_parse_url_sound:
  assumes "leo_http_parse_url url host_sz (Some path_sz) = Some (use_ssl, e)" and "0 < path_sz"
  shows "host_ok host_sz (ep_host e) \<and> 1 \<le> ep_port e \<and> ep_port e \<le> 65535 \<and>
         length (ep_path e) < path_sz"
  using http_parse_laws [OF assms(1)] assms(2) by auto

section \<open>Parsing what is printed\<close>

lemma leo_http_parse_url_scheme:
  "leo_http_parse_url ((if ssl then ''https://'' else ''http://'') @ p) host_sz path_sz
     = http_host_port ssl p host_sz path_sz"
  by (simp add: leo_http_parse_url_def http_scheme_def strprefix_def)

lemma show_nat_no_sep: "SLASH \<notin> set (show_nat n) \<and> COLON \<notin> set (show_nat n)"
  using show_nat_digits [of n] by (auto simp: list_all_iff isdigit_def byte_of_def)

text \<open>Host, colon, port, path: the form every endpoint parser of the agent must split.\<close>

lemma split_host_port_path:
  assumes "SLASH \<notin> set h" "COLON \<notin> set h" "path = [] \<or> hd path = SLASH"
    and p: "p = h @ COLON # show_nat n @ path"
  shows "colon_first (strchr COLON p) (strchr SLASH p) = Some (length h)"
    and "strchr SLASH p = (if path = [] then None else Some (Suc (length h + length (show_nat n))))"
proof -
  show sl: "strchr SLASH p = (if path = [] then None else Some (Suc (length h + length (show_nat n))))"
    using assms show_nat_no_sep [of n] by (cases path) (auto simp: strchr_append_notin strchr_None_iff)
  have "strchr COLON p = Some (length h)"
    using assms(2) by (simp add: p strchr_append_hit)
  with sl show "colon_first (strchr COLON p) (strchr SLASH p) = Some (length h)" by simp
qed

text \<open>Host and path without a port.\<close>

lemma split_host_path:
  assumes "SLASH \<notin> set h" "COLON \<notin> set h" "path = [] \<or> hd path = SLASH"
  shows "colon_first (strchr COLON (h @ path)) (strchr SLASH (h @ path)) = None"
    and "strchr SLASH (h @ path) = (if path = [] then None else Some (length h))"
proof -
  show sl: "strchr SLASH (h @ path) = (if path = [] then None else Some (length h))"
    using assms by (cases path) (auto simp: strchr_append_notin strchr_None_iff)
  show "colon_first (strchr COLON (h @ path)) (strchr SLASH (h @ path)) = None"
  proof (cases path)
    case Nil
    with assms show ?thesis by (simp add: iffD2 [OF strchr_None_iff])
  next
    case (Cons a rest)
    with assms show ?thesis by (cases "strchr COLON rest") (simp_all add: strchr_append_notin)
  qed
qed

lemma atoi_port:
  assumes "1 \<le> n" "n \<le> 65535" "path = [] \<or> hd path = SLASH"
  shows "atoi (show_nat n @ path) = int n"
  using assms by (intro atoi_show_nat) (auto simp: int32_range_def isdigit_def byte_of_def)

text \<open>a URL printed from its parts is split back into them, with the port and path given or
  defaulted: \<^verbatim>\<open>https\<close> and \<^verbatim>\<open>http\<close> differ in \<^verbatim>\<open>use_ssl\<close> and in the default port only.\<close>

theorem leo_http_parse_url_roundtrip:
  assumes "host_ok host_sz h" "1 \<le> n" "n \<le> 65535" "path = [] \<or> hd path = SLASH"
    and "length path < path_sz" "1 < path_sz"
  shows "leo_http_parse_url ((if ssl then ''https://'' else ''http://'') @ h @ COLON # show_nat n @ path)
           host_sz (Some path_sz)
         = Some (ssl, \<lparr>ep_host = h, ep_port = int n, ep_path = (if path = [] then ''/'' else path)\<rparr>) \<and>
         leo_http_parse_url ((if ssl then ''https://'' else ''http://'') @ h @ path) host_sz (Some path_sz)
         = Some (ssl, \<lparr>ep_host = h, ep_port = (if ssl then 443 else 80),
                       ep_path = (if path = [] then ''/'' else path)\<rparr>)"
  (is "?port \<and> ?noport")
proof
  let ?p = "h @ COLON # show_nat n @ path"
  have h: "SLASH \<notin> set h" "COLON \<notin> set h" "h \<noteq> []" "length h < host_sz"
    using assms(1) by (simp_all add: host_ok_def)
  note split = split_host_port_path [OF h(1,2) assms(4) refl, of n]
  have path: "http_path_out (Some path_sz) (strchr SLASH ?p) ?p = (if path = [] then ''/'' else path)"
    using assms(5,6) by (simp add: split(2) http_path_out_def strncpy_buf_id)
  have "http_host_port ssl ?p host_sz (Some path_sz)
      = Some (ssl, \<lparr>ep_host = h, ep_port = int n, ep_path = (if path = [] then ''/'' else path)\<rparr>)"
    unfolding http_host_port_def Let_def split(1) path
    using h assms(2,3) atoi_port [OF assms(2-4)] by simp
  then show ?port unfolding leo_http_parse_url_scheme .
  note nosplit = split_host_path [OF h(1,2) assms(4)]
  have "http_host_port ssl (h @ path) host_sz (Some path_sz)
      = Some (ssl, \<lparr>ep_host = h, ep_port = (if ssl then 443 else 80),
                    ep_path = (if path = [] then ''/'' else path)\<rparr>)"
    unfolding http_host_port_def Let_def nosplit(1)
    unfolding nosplit(2)
    using h assms(5,6) by (simp add: http_path_out_def strncpy_buf_id)
  then show ?noport unfolding leo_http_parse_url_scheme .
qed

section \<open>Concrete instances\<close>

theorem leo_http_parse_url_sound_witness:
  "host_ok 256 ''files.example.com'' \<and> 1 \<le> (8443 :: int) \<and> (8443 :: int) \<le> 65535 \<and> length ''/d?t=1'' < 1024"
proof -
  have "leo_http_parse_url ''https://files.example.com:8443/d?t=1'' 256 (Some 1024)
      = Some (True, \<lparr>ep_host = ''files.example.com'', ep_port = 8443, ep_path = ''/d?t=1''\<rparr>)"
    by (simp add: leo_http_parse_url_def http_scheme_def strprefix_def http_host_port_def Let_def
        http_path_out_def strncpy_buf_def atoi_def strtol10_def wrap32_def isspace_def byte_of_def
        isdigit_def digit_val_def)
  from leo_http_parse_url_sound [OF this] show ?thesis by simp
qed

theorem leo_http_parse_url_roundtrip_witness:
  "leo_http_parse_url (''http://'' @ ''srv'' @ COLON # show_nat 8080 @ ''/f'') 256 (Some 1024)
     = Some (False, \<lparr>ep_host = ''srv'', ep_port = 8080, ep_path = ''/f''\<rparr>)"
  using leo_http_parse_url_roundtrip [of 256 "''srv''" 8080 "''/f''" 1024 False]
  by (simp add: host_ok_def)

end
