(* ===== verification/Json.thy ===== *)
theory Json
  imports Leo_Types
begin

text \<open>
  JSON trees as the agent handles them through cJSON: the constructors it builds with
  (\<^verbatim>\<open>cJSON_AddStringToObject\<close>, \<^verbatim>\<open>cJSON_AddItemToArray\<close>, ...) and the accessors it reads with
  (\<^verbatim>\<open>cJSON_GetObjectItemCaseSensitive\<close>, the type tests, \<^verbatim>\<open>cJSON_DetachItemFromObject...\<close>).
  Turning text into trees and back (\<^verbatim>\<open>cJSON_Parse\<close>, \<^verbatim>\<open>cJSON_PrintUnformatted\<close>) is a parameter
  of the functions that need it. Allocations inside cJSON are taken to succeed.
\<close>

datatype json =
    JNull | JBool bool | JNumber dbl | JString cstring
  | JArray "json list" | JObject "(cstring \<times> json) list"

text \<open>\<^verbatim>\<open>cJSON_GetObjectItemCaseSensitive\<close>: the first member with that name; \<open>None\<close> for NULL.
  The children of an array have no name, so nothing is found in it.\<close>

fun get_object_item :: "json \<Rightarrow> cstring \<Rightarrow> json option" where
  "get_object_item (JObject ms) k = map_of ms k"
| "get_object_item _ k = None"

text \<open>The type tests combined with the field they guard: \<^verbatim>\<open>cJSON_IsString(j) ? j->valuestring\<close>
  and its kin; all are false on NULL.\<close>

fun as_string :: "json option \<Rightarrow> cstring option" where
  "as_string (Some (JString s)) = Some s"
| "as_string _ = None"

fun as_number :: "json option \<Rightarrow> dbl option" where
  "as_number (Some (JNumber d)) = Some d"
| "as_number _ = None"

fun as_array :: "json option \<Rightarrow> json list option" where
  "as_array (Some (JArray js)) = Some js"
| "as_array _ = None"

fun as_bool :: "json option \<Rightarrow> bool option" where
  "as_bool (Some (JBool b)) = Some b"
| "as_bool _ = None"

fun is_object :: "json option \<Rightarrow> bool" where
  "is_object (Some (JObject ms)) = True"
| "is_object _ = False"

text \<open>\<^verbatim>\<open>cJSON_AddItemToObject\<close> appends a member; \<^verbatim>\<open>cJSON_AddItemToArray\<close> appends an element.
  Both refuse (and change nothing) when the parent is of the wrong kind for the model.\<close>

fun add_item :: "json \<Rightarrow> cstring \<Rightarrow> json \<Rightarrow> json" where
  "add_item (JObject ms) k v = JObject (ms @ [(k, v)])"
| "add_item j k v = j"

definition add_string :: "json \<Rightarrow> cstring \<Rightarrow> cstring \<Rightarrow> json" where
  "add_string j k s = add_item j k (JString s)"

definition add_number :: "json \<Rightarrow> cstring \<Rightarrow> dbl \<Rightarrow> json" where
  "add_number j k d = add_item j k (JNumber d)"

fun add_element :: "json \<Rightarrow> json \<Rightarrow> json" where
  "add_element (JArray js) v = JArray (js @ [v])"
| "add_element j v = j"

text \<open>\<^verbatim>\<open>cJSON_DetachItemFromObjectCaseSensitive\<close>: the first member with that name, taken out.\<close>

fun detach_item :: "json \<Rightarrow> cstring \<Rightarrow> json option \<times> json" where
  "detach_item (JObject ms) k =
     (case map_of ms k of
        None \<Rightarrow> (None, JObject ms)
      | Some v \<Rightarrow> (Some v, JObject (remove1 (k, v) ms)))"
| "detach_item j k = (None, j)"

lemmas json_build = add_string_def add_number_def

lemma as_string_SomeD: "as_string j = Some s \<Longrightarrow> j = Some (JString s)"
  by (induction j rule: as_string.induct) auto

lemma as_number_SomeD: "as_number j = Some d \<Longrightarrow> j = Some (JNumber d)"
  by (induction j rule: as_number.induct) auto

lemma get_add_item_new:
  "get_object_item (JObject ms) k = None \<Longrightarrow> get_object_item (add_item (JObject ms) k v) k = Some v"
  by (simp add: map_add_def)

lemma get_add_item_old:
  "get_object_item (JObject ms) k = Some w \<Longrightarrow> get_object_item (add_item (JObject ms) k' v) k = Some w"
  by (simp add: map_add_def)

lemma get_add_item_other:
  "k' \<noteq> k \<Longrightarrow> get_object_item (add_item (JObject ms) k' v) k = get_object_item (JObject ms) k"
  by (simp add: map_add_def split: option.splits)

lemma detach_item_fst: "fst (detach_item j k) = get_object_item j k"
  by (cases j) (auto split: option.splits)

end
