(* ===== verification/Protocol.thy ===== *)
theory Protocol
  imports Json
begin

text \<open>
  \<^verbatim>\<open>agent/src/protocol.c\<close>: the JSON envelope of the agent's messages. Every builder makes a body
  tree and hands it to \<open>serialize\<close>, which adds version, type, a fresh UUID and the time. What the
  code draws from its surroundings is the record \<open>proto_env\<close>: the sixteen bytes of
  \<^verbatim>\<open>/dev/urandom\<close> (or of the \<^verbatim>\<open>rand()\<close> fallback), the clock, and the text cJSON prints.
  A builder returns \<open>Some\<close> text of \<^verbatim>\<open>written\<close> bytes, or \<open>None\<close> for \<^verbatim>\<open>-1\<close>.
\<close>

unbundle bit_operations_syntax

record proto_env =
  rnd :: "nat \<Rightarrow> 8 word"
  now_ms :: u64
  print_json :: "json \<Rightarrow> cstring option"

section \<open>The envelope\<close>

text \<open>\<open>uuid_byte\<close> is the buffer \<^verbatim>\<open>rnd\<close> after the version and variant bits are forced.\<close>

definition uuid_byte :: "(nat \<Rightarrow> 8 word) \<Rightarrow> nat \<Rightarrow> 8 word" where
  "uuid_byte r i =
     (if i = 6 then (r 6 AND 0x0F) OR 0x40
      else if i = 8 then (r 8 AND 0x3F) OR 0x80
      else r i)"

text \<open>\<^verbatim>\<open>_gen_uuid\<close>: the \<^verbatim>\<open>snprintf\<close> of the sixteen bytes into a buffer of \<open>sz\<close>.\<close>

definition hex_run :: "(nat \<Rightarrow> 8 word) \<Rightarrow> nat \<Rightarrow> nat \<Rightarrow> string" where
  "hex_run r i j = concat (map (\<lambda>k. hex_byte (r k)) [i..<j])"

definition gen_uuid :: "(nat \<Rightarrow> 8 word) \<Rightarrow> nat \<Rightarrow> cstring" where
  "gen_uuid r sz =
     (let b = uuid_byte r in
      strncpy_buf sz
        (hex_run b 0 4 @ ''-'' @ hex_run b 4 6 @ ''-'' @ hex_run b 6 8 @ ''-'' @
         hex_run b 8 10 @ ''-'' @ hex_run b 10 16))"

definition u64_dbl :: "u64 \<Rightarrow> dbl" where
  "u64_dbl w = dbl_of_nat (unat w)"

text \<open>The root object \<open>_serialize\<close> builds; the body is \<open>None\<close> for NULL.\<close>

definition envelope :: "proto_env \<Rightarrow> leo_msg_type \<Rightarrow> json option \<Rightarrow> json" where
  "envelope env t body =
     (let msg_id = gen_uuid (rnd env) LEO_UUID_STR_LEN;
          jroot = JObject [];
          jroot = add_number jroot ''v'' (dbl_of_int LEO_PROTOCOL_VERSION);
          jroot = add_number jroot ''type'' (dbl_of_int (msg_code t));
          jroot = add_string jroot ''id'' msg_id;
          jroot = add_number jroot ''ts'' (u64_dbl (now_ms env)) in
      case body of
        Some b \<Rightarrow> add_item jroot ''body'' b
      | None \<Rightarrow> add_item jroot ''body'' (JObject []))"

definition serialize :: "proto_env \<Rightarrow> leo_msg_type \<Rightarrow> json option \<Rightarrow> nat \<Rightarrow> cstring option" where
  "serialize env t body bufsz =
     (case print_json env (envelope env t body) of
        None \<Rightarrow> None
      | Some json_str \<Rightarrow> if bufsz \<le> length json_str then None else Some json_str)"

section \<open>Builders\<close>

definition hello_body :: "leo_config \<Rightarrow> json" where
  "hello_body cfg =
     (let body = JObject [];
          body = add_string body ''agent_id'' (agent_id cfg);
          body = add_string body ''tenant_id'' (tenant_id cfg);
          body = add_string body ''hostname'' (hostname cfg);
          body = add_string body ''os'' (os_name cfg);
          body = add_string body ''os_version'' (os_version cfg);
          body = add_string body ''arch'' (arch cfg)
      in add_string body ''agent_version'' LEO_AGENT_VERSION)"

definition leo_proto_build_hello :: "proto_env \<Rightarrow> leo_config \<Rightarrow> nat \<Rightarrow> cstring option" where
  "leo_proto_build_hello env cfg bufsz = serialize env LEO_MSG_HELLO (Some (hello_body cfg)) bufsz"

definition heartbeat_body :: "u64 \<Rightarrow> json" where
  "heartbeat_body seq = add_number (JObject []) ''seq'' (u64_dbl seq)"

definition leo_proto_build_heartbeat :: "proto_env \<Rightarrow> u64 \<Rightarrow> nat \<Rightarrow> cstring option" where
  "leo_proto_build_heartbeat env seq bufsz =
     serialize env LEO_MSG_HEARTBEAT (Some (heartbeat_body seq)) bufsz"

text \<open>The array of cores: the loop over \<^verbatim>\<open>i < cpu_core_count && i < LEO_MAX_CPU_CORES\<close>.\<close>

definition cores_array :: "leo_metrics \<Rightarrow> json" where
  "cores_array m =
     fold (\<lambda>d a. add_element a (JNumber d))
       (take (min (nat (cpu_core_count m)) LEO_MAX_CPU_CORES) (cpu_per_core m)) (JArray [])"

definition metrics_body :: "leo_metrics \<Rightarrow> json" where
  "metrics_body m =
     (let body = JObject [];
          body = add_number body ''cpu_percent'' (cpu_total_percent m);
          body = add_number body ''ram_total_bytes'' (u64_dbl (ram_total_bytes m));
          body = add_number body ''ram_used_bytes'' (u64_dbl (ram_used_bytes m));
          body = add_number body ''ram_available_bytes'' (u64_dbl (ram_available_bytes m));
          body = add_number body ''disk_total_bytes'' (u64_dbl (disk_total_bytes m));
          body = add_number body ''disk_used_bytes'' (u64_dbl (disk_used_bytes m));
          body = add_number body ''net_bytes_in'' (u64_dbl (net_bytes_in m));
          body = add_number body ''net_bytes_out'' (u64_dbl (net_bytes_out m));
          body = add_number body ''process_count'' (dbl_of_nat (unat (process_count m)))
      in add_item body ''cpu_per_core'' (cores_array m))"

definition leo_proto_build_metrics :: "proto_env \<Rightarrow> leo_metrics \<Rightarrow> nat \<Rightarrow> cstring option" where
  "leo_proto_build_metrics env m bufsz = serialize env LEO_MSG_METRICS (Some (metrics_body m)) bufsz"

text \<open>\<^verbatim>\<open>p ? p : dflt\<close> on a string pointer.\<close>

definition str_or :: "cstring option \<Rightarrow> cstring \<Rightarrow> cstring" where
  "str_or p dflt = (case p of Some s \<Rightarrow> s | None \<Rightarrow> dflt)"

definition cmd_result_body :: "cstring option \<Rightarrow> int \<Rightarrow> cstring option \<Rightarrow> cstring option \<Rightarrow> json" where
  "cmd_result_body cmd_id exit_code stdout_s stderr_s =
     (let body = JObject [];
          body = add_string body ''command_id'' (str_or cmd_id []);
          body = add_number body ''exit_code'' (dbl_of_int exit_code);
          body = add_string body ''stdout'' (str_or stdout_s [])
      in add_string body ''stderr'' (str_or stderr_s []))"

definition leo_proto_build_cmd_result ::
  "proto_env \<Rightarrow> cstring option \<Rightarrow> int \<Rightarrow> cstring option \<Rightarrow> cstring option \<Rightarrow> nat \<Rightarrow> cstring option" where
  "leo_proto_build_cmd_result env cmd_id exit_code stdout_s stderr_s bufsz =
     serialize env LEO_MSG_CMD_RESULT (Some (cmd_result_body cmd_id exit_code stdout_s stderr_s)) bufsz"

definition pong_body :: "cstring option \<Rightarrow> json" where
  "pong_body ping_id = add_string (JObject []) ''ping_id'' (str_or ping_id [])"

definition leo_proto_build_pong :: "proto_env \<Rightarrow> cstring option \<Rightarrow> nat \<Rightarrow> cstring option" where
  "leo_proto_build_pong env ping_id bufsz = serialize env LEO_MSG_PONG (Some (pong_body ping_id)) bufsz"

definition hardware_json :: "leo_hw_inventory \<Rightarrow> json" where
  "hardware_json hw =
     (let jhw = JObject [];
          jhw = add_string jhw ''cpu_model'' (cpu_model hw);
          jhw = add_number jhw ''cpu_cores'' (dbl_of_int (cpu_cores hw));
          jhw = add_number jhw ''cpu_threads'' (dbl_of_int (cpu_threads hw));
          jhw = add_number jhw ''ram_total_bytes'' (u64_dbl (hw_ram_total_bytes hw));
          jhw = add_number jhw ''disk_count'' (dbl_of_int (disk_count hw));
          jhw = add_string jhw ''bios_version'' (bios_version hw);
          jhw = add_string jhw ''bios_vendor'' (bios_vendor hw);
          jhw = add_string jhw ''motherboard'' (motherboard hw)
      in add_string jhw ''serial_number'' (serial_number hw))"

definition software_json :: "leo_sw_item \<Rightarrow> json" where
  "software_json sw =
     (let item = JObject [];
          item = add_string item ''name'' (sw_name sw);
          item = add_string item ''version'' (sw_version sw);
          item = add_string item ''publisher'' (publisher sw)
      in add_string item ''install_path'' (install_path sw))"

text \<open>The entries a loop \<^verbatim>\<open>for (i = 0; i < count && arr; i++)\<close> visits.\<close>

definition counted :: "'a list option \<Rightarrow> int \<Rightarrow> 'a list" where
  "counted arr count = (case arr of None \<Rightarrow> [] | Some xs \<Rightarrow> take (nat count) xs)"

definition inventory_body :: "leo_hw_inventory \<Rightarrow> leo_sw_item list option \<Rightarrow> int \<Rightarrow> json" where
  "inventory_body hw sw sw_count =
     (let body = add_item (JObject []) ''hardware'' (hardware_json hw);
          jsw = fold (\<lambda>x a. add_element a (software_json x)) (counted sw sw_count) (JArray [])
      in add_item body ''software'' jsw)"

definition leo_proto_build_inventory ::
  "proto_env \<Rightarrow> leo_hw_inventory option \<Rightarrow> leo_sw_item list option \<Rightarrow> int \<Rightarrow> nat \<Rightarrow> cstring option" where
  "leo_proto_build_inventory env hw sw sw_count bufsz =
     (case hw of
        None \<Rightarrow> None
      | Some h \<Rightarrow> serialize env LEO_MSG_INVENTORY (Some (inventory_body h sw sw_count)) bufsz)"

fun patch_severity_str :: "leo_patch_severity \<Rightarrow> cstring" where
  "patch_severity_str LEO_PATCH_SEVERITY_CRITICAL = ''critical''"
| "patch_severity_str LEO_PATCH_SEVERITY_IMPORTANT = ''important''"
| "patch_severity_str LEO_PATCH_SEVERITY_OPTIONAL = ''optional''"

definition patch_json :: "leo_patch \<Rightarrow> json" where
  "patch_json p =
     (let item = JObject [];
          item = add_string item ''id'' (patch_id p);
          item = add_string item ''title'' (patch_title p);
          item = add_string item ''severity'' (patch_severity_str (patch_severity p))
      in add_number item ''size_bytes'' (u64_dbl (patch_size_bytes p)))"

definition patch_inventory_body :: "leo_patch list option \<Rightarrow> int \<Rightarrow> json" where
  "patch_inventory_body patches count =
     add_item (JObject []) ''patches''
       (fold (\<lambda>x a. add_element a (patch_json x)) (counted patches count) (JArray []))"

definition leo_proto_build_patch_inventory ::
  "proto_env \<Rightarrow> leo_patch list option \<Rightarrow> int \<Rightarrow> nat \<Rightarrow> cstring option" where
  "leo_proto_build_patch_inventory env patches count bufsz =
     serialize env LEO_MSG_PATCH_INVENTORY (Some (patch_inventory_body patches count)) bufsz"

fun file_transfer_status_str :: "leo_file_transfer_status \<Rightarrow> cstring" where
  "file_transfer_status_str LEO_FILE_TRANSFER_DOWNLOADING = ''downloading''"
| "file_transfer_status_str LEO_FILE_TRANSFER_VERIFYING = ''verifying''"
| "file_transfer_status_str LEO_FILE_TRANSFER_COMPLETED = ''completed''"
| "file_transfer_status_str LEO_FILE_TRANSFER_FAILED = ''failed''"

definition file_transfer_progress_body ::
  "cstring option \<Rightarrow> leo_file_transfer_status \<Rightarrow> int \<Rightarrow> u64 \<Rightarrow> u64 \<Rightarrow> cstring option \<Rightarrow> json" where
  "file_transfer_progress_body cmd_id status percent bytes_received bytes_total error_msg =
     (let body = JObject [];
          body = add_string body ''command_id'' (str_or cmd_id []);
          body = add_string body ''status'' (file_transfer_status_str status);
          body = add_number body ''percent'' (dbl_of_int percent);
          body = add_number body ''bytes_received'' (u64_dbl bytes_received);
          body = add_number body ''bytes_total'' (u64_dbl bytes_total)
      in case error_msg of None \<Rightarrow> body | Some e \<Rightarrow> add_string body ''error'' e)"

definition leo_proto_build_file_transfer_progress ::
  "proto_env \<Rightarrow> cstring option \<Rightarrow> leo_file_transfer_status \<Rightarrow> int \<Rightarrow> u64 \<Rightarrow> u64 \<Rightarrow> cstring option \<Rightarrow>
   nat \<Rightarrow> cstring option" where
  "leo_proto_build_file_transfer_progress env cmd_id status percent bytes_received bytes_total error_msg bufsz =
     serialize env LEO_MSG_FILE_TRANSFER_PROGRESS
       (Some (file_transfer_progress_body cmd_id status percent bytes_received bytes_total error_msg)) bufsz"

definition remote_desktop_status_body :: "cstring option \<Rightarrow> cstring option \<Rightarrow> cstring option \<Rightarrow> json" where
  "remote_desktop_status_body session_id status error_msg =
     (let body = JObject [];
          body = add_string body ''session_id'' (str_or session_id []);
          body = add_string body ''status'' (str_or status ''unknown'')
      in case error_msg of None \<Rightarrow> body | Some e \<Rightarrow> add_string body ''error'' e)"

definition leo_proto_build_remote_desktop_status ::
  "proto_env \<Rightarrow> cstring option \<Rightarrow> cstring option \<Rightarrow> cstring option \<Rightarrow> nat \<Rightarrow> cstring option" where
  "leo_proto_build_remote_desktop_status env session_id status error_msg bufsz =
     serialize env LEO_MSG_REMOTE_DESKTOP_STATUS
       (Some (remote_desktop_status_body session_id status error_msg)) bufsz"

section \<open>Parsing\<close>

text \<open>The type is stored as the \<^verbatim>\<open>int\<close> it was cast to; the body is \<open>None\<close> for NULL.\<close>

record leo_incoming_msg =
  msg_type :: int
  msg_id :: cstring
  msg_body :: "json option"

definition zero_msg :: leo_incoming_msg where
  "zero_msg = \<lparr>msg_type = 0, msg_id = [], msg_body = None\<rparr>"

text \<open>
  \<^verbatim>\<open>leo_proto_parse\<close> on a non-NULL \<^verbatim>\<open>out\<close>, with \<^verbatim>\<open>cJSON_Parse\<close> as the argument \<open>parse\<close>. \<open>None\<close> is
  the undefined behaviour of \<^verbatim>\<open>(int)jtype->valuedouble\<close> on a number an \<^verbatim>\<open>int\<close> cannot hold.
\<close>

definition leo_proto_parse ::
  "(cstring \<Rightarrow> json option) \<Rightarrow> cstring option \<Rightarrow> leo_incoming_msg \<Rightarrow> (leo_error \<times> leo_incoming_msg) option" where
  "leo_proto_parse parse json_str out =
     (case json_str of
        None \<Rightarrow> Some (LEO_ERR_PROTOCOL, out)
      | Some s \<Rightarrow>
          let out = zero_msg\<lparr>msg_type := msg_code LEO_MSG_UNKNOWN\<rparr> in
          case parse s of
            None \<Rightarrow> Some (LEO_ERR_PROTOCOL, out)
          | Some jroot \<Rightarrow>
              (case as_number (get_object_item jroot ''type'') of
                 None \<Rightarrow> Some (LEO_ERR_PROTOCOL, out)
               | Some d \<Rightarrow>
                   (case int_of_dbl d of
                      None \<Rightarrow> None
                    | Some i \<Rightarrow>
                        let out = out\<lparr>msg_type := i\<rparr>;
                            out = (case as_string (get_object_item jroot ''id'') of
                                     None \<Rightarrow> out
                                   | Some v \<Rightarrow> out\<lparr>msg_id := strncpy_buf LEO_UUID_STR_LEN v\<rparr>)
                        in Some (LEO_OK, out\<lparr>msg_body := fst (detach_item jroot ''body'')\<rparr>))))"

definition leo_proto_msg_free :: "leo_incoming_msg option \<Rightarrow> leo_incoming_msg option" where
  "leo_proto_msg_free msg = (case msg of None \<Rightarrow> None | Some m \<Rightarrow> Some zero_msg)"

section \<open>The identifiers are version 4 UUIDs\<close>

definition is_hex :: "char \<Rightarrow> bool" where
  "is_hex c \<longleftrightarrow> isdigit c \<or> (97 \<le> byte_of c \<and> byte_of c \<le> 102)"

text \<open>The textual form of RFC 4122: groups of 8, 4, 4, 4 and 12 hexadecimal digits, the version
  digit 4 and a variant digit among 8, 9, a and b.\<close>

definition is_uuid_v4 :: "cstring \<Rightarrow> bool" where
  "is_uuid_v4 s \<longleftrightarrow>
     length s = 36 \<and>
     list_all (\<lambda>i. if i \<in> {8, 13, 18, 23} then s ! i = CHR ''-'' else is_hex (s ! i)) [0..<36] \<and>
     s ! 14 = CHR ''4'' \<and> s ! 19 \<in> {CHR ''8'', CHR ''9'', CHR ''a'', CHR ''b''}"

lemma is_hex_hex_digit [simp]: "d < 16 \<Longrightarrow> is_hex (hex_digit d)"
  by (auto simp: is_hex_def hex_digit_def isdigit_def)

lemma hex_digit_literals:
  "hex_digit 4 = CHR ''4''" "hex_digit 8 = CHR ''8''" "hex_digit 9 = CHR ''9''"
  "hex_digit 10 = CHR ''a''" "hex_digit 11 = CHR ''b''"
  by (simp_all add: hex_digit_def flip: byte_of_inject) (simp_all add: byte_of_def)

lemma upt_16: "[0..<16] = [0, 1, 2, 3, 4, 5, 6, 7, 8, 9, 10, 11, 12, 13, 14, 15 :: nat]"
  by (simp add: upt_rec numeral_2_eq_2 numeral_3_eq_3)

lemma version_nibble: "unat ((w AND 0x0F) OR (0x40 :: 8 word)) div 16 = 4"
proof -
  have "drop_bit 4 ((w AND 0x0F) OR (0x40 :: 8 word)) = 4"
    by (rule bit_word_eqI) (auto simp: bit_simps numeral_eq_Suc less_Suc_eq)
  then have "unat (drop_bit 4 ((w AND 0x0F) OR (0x40 :: 8 word))) = 4" by simp
  then show ?thesis by (simp add: drop_bit_eq_div unat_div_distrib)
qed

lemma variant_nibble: "unat ((w AND 0x3F) OR (0x80 :: 8 word)) div 16 \<in> {8, 9, 10, 11}"
proof -
  have "drop_bit 6 ((w AND 0x3F) OR (0x80 :: 8 word)) = 2"
    by (rule bit_word_eqI) (auto simp: bit_simps numeral_eq_Suc less_Suc_eq)
  then have "unat (drop_bit 6 ((w AND 0x3F) OR (0x80 :: 8 word))) = 2" by simp
  then have "unat ((w AND 0x3F) OR (0x80 :: 8 word)) div 64 = 2"
    by (simp add: drop_bit_eq_div unat_div_distrib)
  then show ?thesis by auto
qed

lemma gen_uuid_chars:
  "gen_uuid r LEO_UUID_STR_LEN =
     (let h = (\<lambda>i. hex_digit (unat (uuid_byte r i) div 16)); l = (\<lambda>i. hex_digit (unat (uuid_byte r i) mod 16))
      in [h 0, l 0, h 1, l 1, h 2, l 2, h 3, l 3, CHR ''-'', h 4, l 4, h 5, l 5, CHR ''-'',
          h 6, l 6, h 7, l 7, CHR ''-'', h 8, l 8, h 9, l 9, CHR ''-'', h 10, l 10, h 11, l 11,
          h 12, l 12, h 13, l 13, h 14, l 14, h 15, l 15])"
  by (simp add: gen_uuid_def hex_run_def hex_byte_def Let_def strncpy_buf_def leo_sizes upt_rec
      numeral_2_eq_2 numeral_3_eq_3)

text \<open>every message identifier is a well-formed version 4 UUID whatever the random source
  returns, it fits its 37-byte buffer, and nothing but the six forced bits of the random bytes is
  lost: two identifiers are equal exactly when the sixteen bytes agree after the forcing.\<close>

theorem gen_uuid_v4:
  "is_uuid_v4 (gen_uuid r LEO_UUID_STR_LEN) \<and>
   (gen_uuid r LEO_UUID_STR_LEN = gen_uuid r' LEO_UUID_STR_LEN \<longleftrightarrow>
      map (uuid_byte r) [0..<16] = map (uuid_byte r') [0..<16])"
proof
  have "hex_digit (unat (uuid_byte r 6) div 16) = CHR ''4''"
    by (simp add: uuid_byte_def version_nibble hex_digit_literals)
  moreover have "hex_digit (unat (uuid_byte r 8) div 16) \<in> {CHR ''8'', CHR ''9'', CHR ''a'', CHR ''b''}"
    using variant_nibble [of "r 8"] by (auto simp: uuid_byte_def hex_digit_literals)
  moreover have "is_hex (CHR ''4'')" by (simp add: is_hex_def isdigit_def byte_of_def)
  ultimately show "is_uuid_v4 (gen_uuid r LEO_UUID_STR_LEN)"
    by (simp add: gen_uuid_chars is_uuid_v4_def Let_def upt_rec)
  show "gen_uuid r LEO_UUID_STR_LEN = gen_uuid r' LEO_UUID_STR_LEN \<longleftrightarrow>
      map (uuid_byte r) [0..<16] = map (uuid_byte r') [0..<16]"
    unfolding upt_16 by (simp add: gen_uuid_chars Let_def hex_digit_inject byte_nibbles byte_nibbles_conj)
qed

section \<open>Messages survive the wire\<close>

lemma length_gen_uuid: "length (gen_uuid r LEO_UUID_STR_LEN) = 36"
  by (simp add: gen_uuid_chars Let_def)

lemma strncpy_gen_uuid: "strncpy_buf LEO_UUID_STR_LEN (gen_uuid r LEO_UUID_STR_LEN) = gen_uuid r LEO_UUID_STR_LEN"
  by (rule strncpy_buf_id) (simp add: length_gen_uuid, simp add: leo_sizes)

lemma envelope_fields:
  "get_object_item (envelope env t body) ''v'' = Some (JNumber (dbl_of_int LEO_PROTOCOL_VERSION))"
  "get_object_item (envelope env t body) ''type'' = Some (JNumber (dbl_of_int (msg_code t)))"
  "get_object_item (envelope env t body) ''id'' = Some (JString (gen_uuid (rnd env) LEO_UUID_STR_LEN))"
  "get_object_item (envelope env t body) ''ts'' = Some (JNumber (u64_dbl (now_ms env)))"
  "get_object_item (envelope env t body) ''body'' =
     Some (case body of Some b \<Rightarrow> b | None \<Rightarrow> JObject [])"
  by (cases body; simp add: envelope_def json_build Let_def)+

lemma int_of_dbl_of_int [simp]: "int32_range i \<Longrightarrow> int_of_dbl (dbl_of_int i) = Some i"
  by (simp add: dbl_of_int_def trunc_rat_def)

lemma serialize_SomeD:
  "serialize env t body bufsz = Some s \<Longrightarrow> print_json env (envelope env t body) = Some s \<and> length s < bufsz"
  by (auto simp: serialize_def split: option.splits if_splits)

lemma leo_proto_parse_envelope:
  assumes "parse s = Some (envelope env t body)"
  shows "leo_proto_parse parse (Some s) out =
           Some (LEO_OK, \<lparr>msg_type = msg_code t, msg_id = gen_uuid (rnd env) LEO_UUID_STR_LEN,
                          msg_body = Some (case body of Some b \<Rightarrow> b | None \<Rightarrow> JObject [])\<rparr>)"
  using assms
  by (simp add: leo_proto_parse_def envelope_fields msg_code_range detach_item_fst zero_msg_def
      strncpy_gen_uuid Let_def)

text \<open>C40: what a builder writes is what the parser of the other side reads. Provided cJSON parses
  what it printed for this tree, a serialised message fits the buffer it was written to, and
  parsing it yields its type, its identifier and its body, and a type the \<^verbatim>\<open>switch\<close> recognises.\<close>

theorem serialize_parse_roundtrip:
  assumes cjson: "\<And>txt. print_json env (envelope env t body) = Some txt \<Longrightarrow>
                        parse txt = Some (envelope env t body)"
    and "serialize env t body bufsz = Some s"
  shows "length s < bufsz \<and>
         leo_proto_parse parse (Some s) out =
           Some (LEO_OK, \<lparr>msg_type = msg_code t, msg_id = gen_uuid (rnd env) LEO_UUID_STR_LEN,
                          msg_body = Some (case body of Some b \<Rightarrow> b | None \<Rightarrow> JObject [])\<rparr>) \<and>
         msg_of_code (msg_code t) = Some t"
  using serialize_SomeD [OF assms(2)] leo_proto_parse_envelope [OF cjson] by simp

text \<open>the parser accepts exactly the documents that are an object whose \<^verbatim>\<open>type\<close> is a number an
  \<^verbatim>\<open>int\<close> can hold; a number outside that range is undefined behaviour (the cast is not guarded), and
  every other input is reported as a protocol error with the type left unknown. The identifier
  always fits its buffer.\<close>

theorem leo_proto_parse_outcome:
  "(case leo_proto_parse parse (Some s) out of
      None \<Rightarrow> (\<exists>j d. parse s = Some j \<and> get_object_item j ''type'' = Some (JNumber d) \<and> int_of_dbl d = None)
    | Some (e, m) \<Rightarrow>
        length (msg_id m) < LEO_UUID_STR_LEN \<and>
        (if e = LEO_OK
         then \<exists>j d. parse s = Some j \<and> get_object_item j ''type'' = Some (JNumber d) \<and>
                    int_of_dbl d = Some (msg_type m) \<and> msg_body m = get_object_item j ''body''
         else e = LEO_ERR_PROTOCOL \<and> msg_type m = msg_code LEO_MSG_UNKNOWN \<and> msg_body m = None \<and>
              (parse s = None \<or> (\<exists>j. parse s = Some j \<and> as_number (get_object_item j ''type'') = None))))"
  by (auto simp: leo_proto_parse_def zero_msg_def Let_def detach_item_fst strncpy_buf_length leo_sizes
      split: option.splits dest!: as_number_SomeD)

section \<open>What the bodies carry\<close>

lemma fold_add_element:
  "fold (\<lambda>x a. add_element a (f x)) xs (JArray js) = JArray (js @ map f xs)"
  by (induction xs arbitrary: js) simp_all

lemma u64_of_dbl_of_nat: "n < 2 ^ 53 \<Longrightarrow> u64_of_dbl (dbl_of_nat n) = Some n"
  by (simp add: dbl_of_nat_exact dbl_of_int_def trunc_rat_def)

lemma u64_of_u64_dbl: "unat w < 2 ^ 53 \<Longrightarrow> u64_of_dbl (u64_dbl w) = Some (unat w)"
  unfolding u64_dbl_def by (rule u64_of_dbl_of_nat)

text \<open>the inventories list every entry in order, one object per entry, with the severity text
  of each patch determining its severity; and sizes below \<open>2 ^ 53\<close> bytes are transmitted exactly.\<close>

theorem patch_inventory_faithful:
  "as_array (get_object_item (patch_inventory_body (Some ps) (int (length ps))) ''patches'') =
     Some (map patch_json ps) \<and>
   (\<forall>p. get_object_item (patch_json p) ''id'' = Some (JString (patch_id p)) \<and>
        get_object_item (patch_json p) ''title'' = Some (JString (patch_title p)) \<and>
        as_string (get_object_item (patch_json p) ''severity'') =
          Some (patch_severity_str (patch_severity p)) \<and>
        (unat (patch_size_bytes p) < 2 ^ 53 \<longrightarrow>
          map_option u64_of_dbl (as_number (get_object_item (patch_json p) ''size_bytes'')) =
            Some (Some (unat (patch_size_bytes p))))) \<and>
   (\<forall>a b. patch_severity_str a = patch_severity_str b \<longleftrightarrow> a = b)"
proof (intro conjI allI)
  fix a b show "patch_severity_str a = patch_severity_str b \<longleftrightarrow> a = b"
    by (cases a; cases b) simp_all
qed (simp_all add: patch_inventory_body_def counted_def fold_add_element patch_json_def json_build
      Let_def u64_of_u64_dbl)

text \<open>a command result carries the command's identifier, exit code and outputs, with the
  empty string for a NULL pointer, and any \<^verbatim>\<open>int\<close> exit code reads back unchanged.\<close>

theorem cmd_result_faithful:
  assumes "int32_range exit_code"
  shows "as_string (get_object_item (cmd_result_body cid exit_code out err) ''command_id'') = Some (str_or cid []) \<and>
         map_option int_of_dbl (as_number (get_object_item (cmd_result_body cid exit_code out err) ''exit_code'')) =
           Some (Some exit_code) \<and>
         as_string (get_object_item (cmd_result_body cid exit_code out err) ''stdout'') = Some (str_or out []) \<and>
         as_string (get_object_item (cmd_result_body cid exit_code out err) ''stderr'') = Some (str_or err [])"
  using assms by (simp add: cmd_result_body_def json_build Let_def)

section \<open>Concrete instances\<close>

text \<open>A PONG as cJSON prints it, with the constant random bytes 0xAB.\<close>

definition sample_env :: proto_env where
  "sample_env = \<lparr>rnd = (\<lambda>_. 0xAB), now_ms = 1700000000000, print_json = (\<lambda>_. None)\<rparr>"

definition sample_text :: cstring where
  "sample_text = ''{\"v\":1,\"type\":7,\"id\":\"abababab-abab-4bab-abab-abababababab\",\"ts\":1700000000000,\"body\":{\"ping_id\":\"p1\"}}''"

definition sample_tree :: json where
  "sample_tree = envelope sample_env LEO_MSG_PONG (Some (pong_body (Some ''p1'')))"

definition sample_print :: "json \<Rightarrow> cstring option" where
  "sample_print j = (if j = sample_tree then Some sample_text else None)"

definition sample_parse :: "cstring \<Rightarrow> json option" where
  "sample_parse s = (if s = sample_text then Some sample_tree else None)"

lemma envelope_print_irrelevant [simp]: "envelope (env\<lparr>print_json := p\<rparr>) t b = envelope env t b"
  by (simp add: envelope_def)

theorem serialize_parse_roundtrip_witness:
  "length sample_text < LEO_MAX_MSG_SIZE \<and>
   leo_proto_parse sample_parse (Some sample_text) zero_msg =
     Some (LEO_OK, \<lparr>msg_type = 7, msg_id = gen_uuid (\<lambda>_. 0xAB) LEO_UUID_STR_LEN,
                    msg_body = Some (JObject [(''ping_id'', JString ''p1'')])\<rparr>)"
proof -
  let ?env = "sample_env\<lparr>print_json := sample_print\<rparr>"
  let ?b = "Some (pong_body (Some ''p1''))"
  have len: "length sample_text < LEO_MAX_MSG_SIZE" by (simp add: sample_text_def leo_sizes)
  have tree: "envelope ?env LEO_MSG_PONG ?b = sample_tree" by (simp add: sample_tree_def)
  have "serialize ?env LEO_MSG_PONG ?b LEO_MAX_MSG_SIZE = Some sample_text"
    using len unfolding serialize_def tree by (simp add: sample_print_def)
  from serialize_parse_roundtrip [OF _ this, of sample_parse zero_msg]
  show ?thesis
    unfolding tree using len by (simp add: sample_print_def sample_parse_def sample_env_def pong_body_def json_build str_or_def)
qed

theorem patch_inventory_faithful_witness:
  "map_option u64_of_dbl (as_number (get_object_item
       (patch_json \<lparr>patch_id = ''curl'', patch_title = ''curl 8.5'',
                    patch_severity = LEO_PATCH_SEVERITY_CRITICAL, patch_size_bytes = 204800\<rparr>)
       ''size_bytes'')) = Some (Some 204800)"
  using conjunct1 [OF conjunct2 [OF patch_inventory_faithful [of "[]"]],
      rule_format, of "\<lparr>patch_id = ''curl'', patch_title = ''curl 8.5'',
        patch_severity = LEO_PATCH_SEVERITY_CRITICAL, patch_size_bytes = 204800\<rparr>"]
  by simp

theorem cmd_result_faithful_witness:
  "map_option int_of_dbl (as_number (get_object_item
     (cmd_result_body (Some ''c1'') (- 15) None (Some ''killed'')) ''exit_code'')) = Some (Some (- 15))"
  using cmd_result_faithful [of "- 15" "Some ''c1''" None "Some ''killed''"]
  by (simp add: int32_range_def)

end
