(* ===== verification/Config.thy ===== *)
theory Config
  imports Leo_Types
begin

text \<open>
  \<^verbatim>\<open>agent/src/config.c\<close>: the INI reader and writer of \<^verbatim>\<open>agent.conf\<close>. The file store is a map
  from paths to contents; whether \<^verbatim>\<open>fopen(path, "w")\<close> succeeds is an argument. The locale
  \<open>ini_reader\<close> is the contract the two INI readers of the agent share (this one and the
  bootstrap reader of \<^verbatim>\<open>enroll.c\<close>): whatever a reader stores for a key, reading back
  well-formed \<open>key=value\<close> lines applies them in order.
\<close>

section \<open>Lines of an INI file\<close>

type_synonym fs = "cstring \<rightharpoonup> string"

text \<open>The end of \<open>_trim\<close>: the loop \<^verbatim>\<open>while (end > s && isspace(*end)) *end-- = 0\<close> never removes
  the first character.\<close>

definition trim_end :: "cstring \<Rightarrow> cstring" where
  "trim_end s = (case s of [] \<Rightarrow> [] | c # cs \<Rightarrow> c # rev (dropWhile isspace (rev cs)))"

definition trim :: "cstring \<Rightarrow> cstring" where
  "trim s = trim_end (dropWhile isspace s)"

text \<open>One line: \<open>None\<close> for a comment, an empty or a malformed line, else the key and the value.\<close>

definition ini_line :: "string \<Rightarrow> (cstring \<times> cstring) option" where
  "ini_line line =
     (let p = trim (c_str line) in
      if p = [] \<or> hd p = CHR ''#'' \<or> hd p = CHR '';'' then None
      else case strchr (CHR ''='') p of
             None \<Rightarrow> None
           | Some i \<Rightarrow> Some (trim (take i p), trim (drop (Suc i) p)))"

text \<open>The loop over the lines, for a reader that stores a key and a value with \<open>set_kv\<close> and
  reads into a buffer of \<open>n\<close> bytes.\<close>

definition ini_pairs :: "nat \<Rightarrow> string \<Rightarrow> (cstring \<times> cstring) list" where
  "ini_pairs n bs = List.map_filter ini_line (read_lines n bs)"

definition ini_load :: "(cstring \<Rightarrow> cstring \<Rightarrow> 'st \<Rightarrow> 'st) \<Rightarrow> nat \<Rightarrow> string \<Rightarrow> 'st \<Rightarrow> 'st" where
  "ini_load set_kv n bs st = fold (\<lambda>(k, v). set_kv k v) (ini_pairs n bs) st"

section \<open>The configuration file\<close>

definition INI_LINE_MAX :: nat where "INI_LINE_MAX = 1024"

definition set_field :: "cstring \<Rightarrow> cstring \<Rightarrow> cstring \<Rightarrow> nat \<Rightarrow> cstring \<Rightarrow> cstring" where
  "set_field key val target_key dst_sz dst = (if key = target_key then strncpy_buf dst_sz val else dst)"

definition config_set :: "cstring \<Rightarrow> cstring \<Rightarrow> leo_config \<Rightarrow> leo_config" where
  "config_set key val out = out
     \<lparr>agent_id := set_field key val ''agent_id'' 37 (agent_id out),
      tenant_id := set_field key val ''tenant_id'' 37 (tenant_id out),
      ws_endpoint := set_field key val ''ws_endpoint'' 512 (ws_endpoint out),
      hostname := set_field key val ''hostname'' 256 (hostname out),
      os_name := set_field key val ''os_name'' 32 (os_name out),
      os_version := set_field key val ''os_version'' 128 (os_version out),
      arch := set_field key val ''arch'' 16 (arch out),
      hardware_id := set_field key val ''hardware_id'' 37 (hardware_id out),
      ca_fingerprint := set_field key val ''ca_fingerprint'' 65 (ca_fingerprint out),
      metrics_interval_sec :=
        (if key = ''metrics_interval_sec'' then atoi val else metrics_interval_sec out),
      heartbeat_interval_sec :=
        (if key = ''heartbeat_interval_sec'' then atoi val else heartbeat_interval_sec out)\<rparr>"

definition leo_config_is_valid :: "leo_config \<Rightarrow> bool" where
  "leo_config_is_valid cfg \<longleftrightarrow>
     (if length (ca_fingerprint cfg) \<noteq> 64 then False
      else agent_id cfg \<noteq> [] \<and> tenant_id cfg \<noteq> [] \<and> ws_endpoint cfg \<noteq> [])"

definition default_config :: leo_config where
  "default_config = zero_config
     \<lparr>metrics_interval_sec := LEO_METRICS_INTERVAL_SEC,
      heartbeat_interval_sec := LEO_HEARTBEAT_INTERVAL_SEC\<rparr>"

definition leo_config_load :: "fs \<Rightarrow> cstring option \<Rightarrow> leo_config \<Rightarrow> leo_error \<times> leo_config" where
  "leo_config_load files path out =
     (case path of
        None \<Rightarrow> (LEO_ERR_CONFIG, out)
      | Some p \<Rightarrow>
          (case files p of
             None \<Rightarrow> (LEO_ERR_CONFIG, out)
           | Some bs \<Rightarrow>
               let out' = ini_load config_set INI_LINE_MAX bs default_config in
               if \<not> leo_config_is_valid out' then (LEO_ERR_CONFIG, out') else (LEO_OK, out')))"

text \<open>The text \<open>leo_config_save\<close> prints. The two comment lines are UTF-8.\<close>

definition kv_line :: "cstring \<times> cstring \<Rightarrow> string" where
  "kv_line kv = fst kv @ CHR ''='' # snd kv"

definition config_pairs :: "leo_config \<Rightarrow> (cstring \<times> cstring) list" where
  "config_pairs cfg =
     [(''agent_id'', agent_id cfg), (''tenant_id'', tenant_id cfg),
      (''ws_endpoint'', ws_endpoint cfg), (''hostname'', hostname cfg),
      (''os_name'', os_name cfg), (''os_version'', os_version cfg), (''arch'', arch cfg),
      (''hardware_id'', hardware_id cfg), (''ca_fingerprint'', ca_fingerprint cfg),
      (''metrics_interval_sec'', show_int (metrics_interval_sec cfg)),
      (''heartbeat_interval_sec'', show_int (heartbeat_interval_sec cfg))]"

definition config_banner :: "string list" where
  "config_banner =
     [''# Leo-One Agent '' @ [CHR 0xE2, CHR 0x80, CHR 0x94] @ '' configuration g''
        @ [CHR 0xC3, CHR 0xA9] @ ''n'' @ [CHR 0xC3, CHR 0xA9] @ ''r'' @ [CHR 0xC3, CHR 0xA9]
        @ ''e automatiquement'',
      ''# Ne pas modifier manuellement sauf agent_id et ws_endpoint'',
      []]"

definition config_text :: "leo_config \<Rightarrow> string" where
  "config_text cfg =
     concat (map (\<lambda>l. l @ [NL]) (config_banner @ map kv_line (config_pairs cfg)))"

definition leo_config_save ::
  "(cstring \<Rightarrow> bool) \<Rightarrow> fs \<Rightarrow> cstring option \<Rightarrow> leo_config \<Rightarrow> leo_error \<times> fs" where
  "leo_config_save can_write files path cfg =
     (case path of
        None \<Rightarrow> (LEO_ERR_CONFIG, files)
      | Some p \<Rightarrow>
          if \<not> can_write p then (LEO_ERR_CONFIG, files)
          else (LEO_OK, files(p \<mapsto> config_text cfg)))"

text \<open>The abstract meaning of a configuration file: a map from keys to values.\<close>

definition config_of_map :: "(cstring \<rightharpoonup> cstring) \<Rightarrow> leo_config" where
  "config_of_map m =
     (let str = (\<lambda>k n. case m k of None \<Rightarrow> [] | Some v \<Rightarrow> strncpy_buf n v);
          num = (\<lambda>k d. case m k of None \<Rightarrow> d | Some v \<Rightarrow> atoi v)
      in \<lparr>agent_id = str ''agent_id'' 37, tenant_id = str ''tenant_id'' 37,
          ws_endpoint = str ''ws_endpoint'' 512, hostname = str ''hostname'' 256,
          os_name = str ''os_name'' 32, os_version = str ''os_version'' 128,
          arch = str ''arch'' 16, hardware_id = str ''hardware_id'' 37,
          ca_fingerprint = str ''ca_fingerprint'' 65,
          metrics_interval_sec = num ''metrics_interval_sec'' LEO_METRICS_INTERVAL_SEC,
          heartbeat_interval_sec = num ''heartbeat_interval_sec'' LEO_HEARTBEAT_INTERVAL_SEC\<rparr>)"

text \<open>Values that survive a line of the file: no line break, no NUL, no surrounding space.\<close>

definition ini_safe :: "cstring \<Rightarrow> bool" where
  "ini_safe v \<longleftrightarrow> NL \<notin> set v \<and> NUL \<notin> set v \<and> trim v = v"

definition ini_key :: "cstring \<Rightarrow> bool" where
  "ini_key k \<longleftrightarrow> ini_safe k \<and> k \<noteq> [] \<and> CHR ''='' \<notin> set k \<and> hd k \<noteq> CHR ''#'' \<and> hd k \<noteq> CHR '';''"

definition config_ini_safe :: "leo_config \<Rightarrow> bool" where
  "config_ini_safe c \<longleftrightarrow> list_all (\<lambda>kv. ini_safe (snd kv)) (config_pairs c)"

section \<open>Trimming\<close>

lemma trim_Nil [simp]: "trim [] = []"
  by (simp add: trim_def trim_end_def)

lemma trim_end_id: "s = [] \<or> \<not> isspace (last s) \<Longrightarrow> trim_end s = s"
  by (cases s; cases "tl s" rule: rev_cases) (auto simp: trim_end_def)

lemma trim_end_snoc_space: "s \<noteq> [] \<Longrightarrow> isspace c \<Longrightarrow> trim_end (s @ [c]) = trim_end s"
  by (cases s) (auto simp: trim_end_def)

lemma trim_end_last: "s \<noteq> [] \<Longrightarrow> \<not> isspace (hd s) \<Longrightarrow> \<not> isspace (last (trim_end s))"
proof (cases s)
  case (Cons c cs)
  assume "\<not> isspace (hd s)"
  then show ?thesis
    using Cons hd_dropWhile [of isspace "rev cs"]
    by (auto simp: trim_end_def last_rev)
qed simp

lemma trim_fix_last:
  assumes "trim v = v" "v \<noteq> []" shows "\<not> isspace (last v) \<and> \<not> isspace (hd v)"
proof -
  let ?d = "dropWhile isspace v"
  have d: "?d \<noteq> []"
  proof
    assume "?d = []"
    then have "trim v = []" unfolding trim_def trim_end_def by (simp only: list.case)
    with assms show False by simp
  qed
  have hd: "\<not> isspace (hd ?d)" using d by (rule hd_dropWhile)
  have "hd (trim_end ?d) = hd ?d" using d by (cases ?d) (auto simp: trim_end_def)
  with hd assms have "\<not> isspace (hd v)" by (simp add: trim_def)
  moreover have "\<not> isspace (last (trim_end ?d))" by (rule trim_end_last [OF d hd])
  ultimately show ?thesis using assms by (simp add: trim_def)
qed

lemma trim_no_space: "\<forall>c \<in> set v. \<not> isspace c \<Longrightarrow> trim v = v"
  by (cases v) (auto simp: trim_def intro!: trim_end_id split: if_splits)

lemma ini_safe_show_int: "ini_safe (show_int i)"
  using show_int_no_ws [of _ i] by (auto simp: ini_safe_def trim_no_space)

lemma trim_kv_line:
  assumes "ini_key k" "ini_safe v" shows "trim (kv_line (k, v) @ [NL]) = kv_line (k, v)"
proof -
  have k: "trim k = k" "k \<noteq> []" and v: "trim v = v"
    using assms by (auto simp: ini_key_def ini_safe_def)
  have hd: "\<not> isspace (hd k)" using trim_fix_last [OF k] by simp
  have "\<not> isspace (last (kv_line (k, v)))"
    using trim_fix_last [OF v] by (cases v) (auto simp: kv_line_def isspace_def byte_of_def)
  then have "trim_end (kv_line (k, v)) = kv_line (k, v)" by (intro trim_end_id) simp
  moreover have "dropWhile isspace (kv_line (k, v) @ [NL]) = kv_line (k, v) @ [NL]"
    using hd k(2) by (cases k) (auto simp: kv_line_def)
  moreover have "isspace NL" by (simp add: isspace_def byte_of_def NL_def)
  moreover have "kv_line (k, v) \<noteq> []" by (simp add: kv_line_def)
  ultimately show ?thesis by (simp add: trim_def trim_end_snoc_space)
qed

lemma ini_line_kv:
  assumes "ini_key k" "ini_safe v" shows "ini_line (kv_line (k, v) @ [NL]) = Some (k, v)"
proof -
  have nul: "NUL \<notin> set (kv_line (k, v) @ [NL])"
    using assms by (auto simp: ini_key_def ini_safe_def kv_line_def NUL_def NL_def)
  have hd: "hd (kv_line (k, v)) = hd k" "kv_line (k, v) \<noteq> []"
    using assms by (auto simp: ini_key_def kv_line_def)
  have sep: "strchr (CHR ''='') (kv_line (k, v)) = Some (length k)"
    using assms by (simp add: ini_key_def kv_line_def strchr_append_hit)
  have kv: "take (length k) (kv_line (k, v)) = k" "drop (Suc (length k)) (kv_line (k, v)) = v"
    by (simp_all add: kv_line_def)
  show ?thesis
    using assms hd kv
    unfolding ini_line_def c_str_id [OF nul] trim_kv_line [OF assms] Let_def sep
    by (simp add: ini_key_def ini_safe_def)
qed

section \<open>The contract of an INI reader\<close>

locale ini_reader =
  fixes set_kv :: "cstring \<Rightarrow> cstring \<Rightarrow> 'st \<Rightarrow> 'st"
    and line_max :: nat
    and fits :: "'st \<Rightarrow> bool"
  assumes line_max: "2 \<le> line_max"
    and fits_set: "fits st \<Longrightarrow> fits (set_kv k v st)"
begin

lemma load_fits: "fits st \<Longrightarrow> fits (ini_load set_kv line_max bs st)"
proof -
  have "fits st \<Longrightarrow> fits (fold (\<lambda>(k, v). set_kv k v) kvs st)" for kvs
    by (induction kvs arbitrary: st) (auto intro: fits_set)
  then show "fits st \<Longrightarrow> fits (ini_load set_kv line_max bs st)" by (simp add: ini_load_def)
qed

lemma load_pairs:
  assumes skip: "\<forall>l \<in> set cs. NL \<notin> set l \<and> length l + 2 \<le> line_max \<and> ini_line (l @ [NL]) = None"
    and kvs: "\<forall>(k, v) \<in> set kvs. ini_key k \<and> ini_safe v \<and> length k + length v + 3 \<le> line_max"
  shows "ini_load set_kv line_max (concat (map (\<lambda>l. l @ [NL]) (cs @ map kv_line kvs))) st
       = fold (\<lambda>(k, v). set_kv k v) kvs st"
proof -
  have lines: "\<forall>l \<in> set (cs @ map kv_line kvs). NL \<notin> set l \<and> length l + 2 \<le> line_max"
    using skip kvs by (auto simp: kv_line_def ini_key_def ini_safe_def NL_def)
  have cs0: "List.map_filter ini_line (map (\<lambda>l. l @ [NL]) cs) = []"
    using skip by (induction cs) (auto simp: List.map_filter_simps)
  have kv0: "List.map_filter ini_line (map (\<lambda>l. l @ [NL]) (map kv_line kvs)) = kvs"
    using kvs by (induction kvs) (auto simp: List.map_filter_simps ini_line_kv)
  have app: "List.map_filter f (xs @ ys) = List.map_filter f xs @ List.map_filter f ys"
    for f :: "string \<Rightarrow> (cstring \<times> cstring) option" and xs ys
    by (simp add: List.map_filter_def)
  have "ini_pairs line_max (concat (map (\<lambda>l. l @ [NL]) (cs @ map kv_line kvs))) = kvs"
    unfolding ini_pairs_def read_lines_concat [OF lines] by (simp only: map_append app cs0 kv0 append_Nil)
  then show ?thesis by (simp only: ini_load_def)
qed

end

section \<open>The configuration reader meets it\<close>

lemma set_field_length: "length dst < n \<Longrightarrow> length (set_field k v t n dst) < n"
  by (auto simp: set_field_def intro: strncpy_buf_length)

interpretation cfg: ini_reader config_set INI_LINE_MAX config_fits
  by unfold_locales (auto simp: INI_LINE_MAX_def config_fits_def config_set_def set_field_length)

lemma default_config_fits: "config_fits default_config"
  by (simp add: config_fits_def default_config_def zero_config_def leo_intervals int32_range_def)

lemma leo_config_load_cases:
  "leo_config_load files (Some p) out =
     (case files p of None \<Rightarrow> (LEO_ERR_CONFIG, out)
      | Some bs \<Rightarrow> (let c = ini_load config_set INI_LINE_MAX bs default_config in
                    (if leo_config_is_valid c then LEO_OK else LEO_ERR_CONFIG, c)))"
  by (auto simp: leo_config_load_def Let_def split: option.splits)

text \<open>C37: a configuration the agent loads successfully fits its structure (every field within its
  buffer, both intervals C ints), names an agent, a tenant and an endpoint and pins a fingerprint of
  exactly 64 characters, whatever bytes the file holds; and the file exists.\<close>

theorem leo_config_load_sound:
  assumes "leo_config_load files path out = (LEO_OK, c)"
  shows "config_fits c \<and> agent_id c \<noteq> [] \<and> tenant_id c \<noteq> [] \<and> ws_endpoint c \<noteq> [] \<and> length (ca_fingerprint c) = 64 \<and>
         (\<exists>p. path = Some p \<and> files p \<noteq> None)"
proof -
  obtain p bs where p: "path = Some p" "files p = Some bs"
      and c: "c = ini_load config_set INI_LINE_MAX bs default_config" "leo_config_is_valid c"
    using assms by (auto simp: leo_config_load_def Let_def split: option.splits if_splits)
  with cfg.load_fits [OF default_config_fits, of bs] show ?thesis by (simp add: leo_config_is_valid_def split: if_splits)
qed

section \<open>The file as a map\<close>

lemma config_set_map:
  "config_set k v (config_of_map m) = config_of_map (m(k \<mapsto> v))"
  by (simp add: config_set_def config_of_map_def set_field_def)

lemma fold_config_set: "fold (\<lambda>(k, v). config_set k v) kvs (config_of_map m) = config_of_map (m ++ map_of (rev kvs))"
proof (induction kvs arbitrary: m)
  case (Cons kv kvs)
  obtain k v where kv: "kv = (k, v)" by fastforce
  have eq: "m ++ map_of (rev (kv # kvs)) = m(k \<mapsto> v) ++ map_of (rev kvs)"
    by (auto simp: kv map_add_def fun_eq_iff split: option.splits)
  show ?case unfolding eq by (simp only: kv fold_simps prod.case config_set_map Cons.IH)
qed simp

lemma default_config_map: "default_config = config_of_map Map.empty"
  by (simp add: default_config_def zero_config_def config_of_map_def)

text \<open>C38: loading implements the abstract meaning of the file, the map of its keys to the last value
  given for each: missing string keys are empty, missing intervals take their defaults, values are
  cut to the field's buffer.\<close>

theorem leo_config_load_refines_map:
  "snd (leo_config_load (files(p \<mapsto> bs)) (Some p) out)
     = config_of_map (map_of (rev (ini_pairs INI_LINE_MAX bs)))"
  by (simp add: leo_config_load_cases Let_def ini_load_def default_config_map fold_config_set)

section \<open>Saving and loading back\<close>

lemma config_keys_ok: "(k, v) \<in> set (config_pairs c) \<Longrightarrow> ini_key k"
  by (auto simp: config_pairs_def ini_key_def ini_safe_def trim_def trim_end_def isspace_def
      byte_of_def NL_def NUL_def)

lemma config_banner_skipped:
  "\<forall>l \<in> set config_banner. NL \<notin> set l \<and> length l + 2 \<le> INI_LINE_MAX \<and> ini_line (l @ [NL]) = None"
  by (simp add: config_banner_def INI_LINE_MAX_def ini_line_def c_str_def trim_def trim_end_def
      isspace_def byte_of_def NL_def NUL_def Let_def)

lemma config_pairs_fit:
  assumes "config_fits c" "config_ini_safe c"
  shows "\<forall>(k, v) \<in> set (config_pairs c). ini_key k \<and> ini_safe v \<and> length k + length v + 3 \<le> INI_LINE_MAX"
proof -
  have "ini_key k \<and> ini_safe v \<and> length k + length v + 3 \<le> INI_LINE_MAX"
    if "(k, v) \<in> set (config_pairs c)" for k v
  proof -
    have "ini_safe v" using that assms(2) by (force simp: config_ini_safe_def list_all_iff)
    moreover have "length k + length v + 3 \<le> INI_LINE_MAX"
      using that assms(1) show_int_length [of "metrics_interval_sec c"] show_int_length [of "heartbeat_interval_sec c"]
      by (auto simp: config_pairs_def config_fits_def INI_LINE_MAX_def)
    ultimately show ?thesis using config_keys_ok [OF that] by simp
  qed
  then show ?thesis by auto
qed

lemma config_of_pairs:
  assumes "config_fits c" shows "fold (\<lambda>(k, v). config_set k v) (config_pairs c) default_config = c"
  using assms
  by (simp add: config_pairs_def config_set_def set_field_def config_fits_def strncpy_buf_id atoi_show_int
      default_config_def zero_config_def)

lemma config_text_loads:
  assumes "config_fits c" "config_ini_safe c"
  shows "ini_load config_set INI_LINE_MAX (config_text c) default_config = c"
  unfolding config_text_def cfg.load_pairs [OF config_banner_skipped config_pairs_fit [OF assms]]
  by (rule config_of_pairs [OF assms(1)])

lemma config_save_load:
  assumes "config_fits c" "leo_config_is_valid c" "config_ini_safe c" "can_write p"
  shows "leo_config_save can_write files (Some p) c = (LEO_OK, files(p \<mapsto> config_text c))"
    and "leo_config_load (files(p \<mapsto> config_text c)) (Some p) out = (LEO_OK, c)"
proof -
  from config_text_loads [OF assms(1,3)] assms show "leo_config_load (files(p \<mapsto> config_text c)) (Some p) out = (LEO_OK, c)"
    by (simp add: leo_config_load_cases Let_def)
  show "leo_config_save can_write files (Some p) c = (LEO_OK, files(p \<mapsto> config_text c))"
    using assms(4) by (simp add: leo_config_save_def)
qed

text \<open>C39: what the agent saves it loads back: for a valid configuration that fits its structure and
  whose values survive a line (no line break, no NUL byte, no surrounding white space), writing
  \<^verbatim>\<open>agent.conf\<close> and loading it returns the same configuration.\<close>

theorem config_save_load_roundtrip:
  assumes "config_fits c" "leo_config_is_valid c" "config_ini_safe c" "can_write p"
  shows "fst (leo_config_save can_write files (Some p) c) = LEO_OK \<and>
         leo_config_load (snd (leo_config_save can_write files (Some p) c)) (Some p) out = (LEO_OK, c)"
  using config_save_load [OF assms(1-3), where can_write = can_write and p = p] assms(4) by simp

section \<open>Concrete instances\<close>

definition sample_config :: leo_config where
  "sample_config =
     \<lparr>agent_id = ''a1'', tenant_id = ''t1'', ws_endpoint = ''wss://rmm.example.com:8081/ws/agent'',
      hostname = ''srv-01'', os_name = ''linux'', os_version = ''Ubuntu 24.04.1 LTS'', arch = ''amd64'',
      hardware_id = ''0123456789abcdef'', ca_fingerprint = replicate 64 (CHR ''a''),
      metrics_interval_sec = 300, heartbeat_interval_sec = 10800\<rparr>"

lemma sample_config_ok:
  "config_fits sample_config" "leo_config_is_valid sample_config" "config_ini_safe sample_config"
proof -
  show "config_fits sample_config"
    by (simp add: config_fits_def sample_config_def int32_range_def)
  show "leo_config_is_valid sample_config"
    by (simp add: leo_config_is_valid_def sample_config_def)
  have "ini_safe (replicate 64 (CHR ''a''))"
    by (simp add: ini_safe_def trim_no_space NL_def NUL_def isspace_def byte_of_def)
  then show "config_ini_safe sample_config"
    by (simp add: config_ini_safe_def config_pairs_def sample_config_def ini_safe_show_int)
       (simp add: ini_safe_def trim_def trim_end_def isspace_def byte_of_def NL_def NUL_def)
qed

theorem config_save_load_roundtrip_witness:
  "leo_config_load (snd (leo_config_save (\<lambda>_. True) Map.empty (Some ''agent.conf'') sample_config))
     (Some ''agent.conf'') zero_config = (LEO_OK, sample_config)"
  using config_save_load_roundtrip [OF sample_config_ok, where p = "''agent.conf''" and can_write = "\<lambda>_. True"] by simp

theorem leo_config_load_sound_witness: "config_fits sample_config \<and> length (ca_fingerprint sample_config) = 64"
  using leo_config_load_sound [OF config_save_load(2) [OF sample_config_ok, where can_write = "\<lambda>_. True", OF TrueI]] by blast

end
