(* ===== verification/Crypto.thy ===== *)
theory Crypto
  imports Config
begin

text \<open>
  \<^verbatim>\<open>agent/platform/linux/crypto_linux.c\<close>: PEM files and certificate fingerprints. OpenSSL is a
  parameter (the record \<open>openssl\<close>): DER export, the SHA-256 digest and PEM parsing, each of which
  may fail. What the file system answers is the record \<open>disk\<close>. The contract of \<^verbatim>\<open>agent/src/crypto.h\<close> is the
  locale \<open>cert_store\<close>.
\<close>

record 'cert openssl =
  i2d_X509 :: "'cert \<Rightarrow> string option"
  EVP_sha256 :: "string \<Rightarrow> 8 word list option"
  PEM_read_X509 :: "cstring \<Rightarrow> 'cert option"

record disk =
  can_open_w :: "cstring \<Rightarrow> bool"   \<comment> \<open>\<^verbatim>\<open>fopen(path, "w")\<close> succeeds\<close>
  can_fill :: "cstring \<Rightarrow> nat \<Rightarrow> nat" \<comment> \<open>bytes \<^verbatim>\<open>fwrite\<close> of a given length stores\<close>
  read_error :: "cstring \<Rightarrow> bool"   \<comment> \<open>\<^verbatim>\<open>ferror\<close> after reading\<close>
  can_mkdir :: "cstring \<Rightarrow> bool"    \<comment> \<open>\<^verbatim>\<open>mkdir\<close> succeeds or reports \<^verbatim>\<open>EEXIST\<close>\<close>

section \<open>Files\<close>

text \<open>The \<^verbatim>\<open>fread\<close> loop of \<open>_read_file\<close>: \<open>rest\<close> is what is left of the file, \<open>acc\<close> what the buffer
  holds (\<^verbatim>\<open>total\<close> bytes).\<close>

function read_loop :: "nat \<Rightarrow> string \<Rightarrow> string \<Rightarrow> string" where
  "read_loop buf_max rest acc =
     (let n = min (buf_max - 1 - length acc) (length rest) in
      if n = 0 then acc
      else let acc' = acc @ take n rest in
           if buf_max - 1 \<le> length acc' then acc' else read_loop buf_max (drop n rest) acc')"
  by pat_completeness auto
termination by (relation "measure (\<lambda>(m, rest, acc). length rest)") auto

declare read_loop.simps [simp del]

definition read_file :: "disk \<Rightarrow> fs \<Rightarrow> cstring \<Rightarrow> nat \<Rightarrow> string option" where
  "read_file d files path buf_max =
     (case files path of
        None \<Rightarrow> None
      | Some bs \<Rightarrow>
          let buf = read_loop buf_max bs [] in
          if read_error d path then None else Some buf)"

text \<open>\<open>fopen(path, "w")\<close> truncates, then as much as fits is written; the flag is the return
  value 0.\<close>

definition write_file :: "disk \<Rightarrow> fs \<Rightarrow> cstring \<Rightarrow> cstring \<Rightarrow> bool \<times> fs" where
  "write_file d files path content =
     (if \<not> can_open_w d path then (False, files)
      else let len = length content; written = min len (can_fill d path len) in
           (written = len, files(path \<mapsto> take written content)))"

text \<open>\<open>_mkdir_p\<close>: the directories it asks for, in order, up to and including the first that
  fails; the flag is the return value 0. \<open>i\<close> is the loop counter.\<close>

function mkdir_loop :: "disk \<Rightarrow> cstring \<Rightarrow> nat \<Rightarrow> bool \<times> cstring list" where
  "mkdir_loop d tmp i =
     (if length tmp < i then (True, [])
      else if i = length tmp \<or> tmp ! i = CHR ''/'' then
        (if \<not> can_mkdir d (take i tmp) then (False, [take i tmp])
         else let (ok, made) = mkdir_loop d tmp (Suc i) in (ok, take i tmp # made))
      else mkdir_loop d tmp (Suc i))"
  by pat_completeness auto
termination by (relation "measure (\<lambda>(d, tmp, i). Suc (length tmp) - i)") auto

declare mkdir_loop.simps [simp del]

definition mkdir_p :: "disk \<Rightarrow> cstring \<Rightarrow> bool \<times> cstring list" where
  "mkdir_p d path =
     (let tmp = strncpy_buf 512 path;
          tmp = (if tmp \<noteq> [] \<and> last tmp = CHR ''/'' then butlast tmp else tmp)
      in mkdir_loop d tmp 1)"

section \<open>Fingerprints\<close>

fun bytes_to_hex :: "8 word list \<Rightarrow> cstring" where
  "bytes_to_hex [] = []"
| "bytes_to_hex (b # bs) = hex_byte b @ bytes_to_hex bs"

definition x509_sha256_hex :: "'cert openssl \<Rightarrow> 'cert \<Rightarrow> cstring option" where
  "x509_sha256_hex ossl cert =
     (case i2d_X509 ossl cert of
        None \<Rightarrow> None
      | Some der \<Rightarrow>
          if der = [] then None
          else (case EVP_sha256 ossl der of None \<Rightarrow> None | Some digest \<Rightarrow> Some (bytes_to_hex digest)))"

definition leo_crypto_x509_fingerprint_matches ::
  "'cert openssl \<Rightarrow> 'cert option \<Rightarrow> cstring option \<Rightarrow> bool" where
  "leo_crypto_x509_fingerprint_matches ossl cert expected_fp =
     (case (cert, expected_fp) of
        (Some c, Some fp) \<Rightarrow>
          if length fp \<noteq> 64 then False
          else (case x509_sha256_hex ossl c of
                  None \<Rightarrow> False
                | Some computed_fp \<Rightarrow> strcasecmp_eq computed_fp fp)
      | _ \<Rightarrow> False)"

definition leo_crypto_verify_ca_fingerprint ::
  "'cert openssl \<Rightarrow> cstring option \<Rightarrow> cstring option \<Rightarrow> leo_error" where
  "leo_crypto_verify_ca_fingerprint ossl ca_cert_pem expected_fp =
     (case (ca_cert_pem, expected_fp) of
        (Some pem, Some fp) \<Rightarrow>
          if length fp \<noteq> 64 then LEO_ERR_TLS
          else (case PEM_read_X509 ossl pem of
                  None \<Rightarrow> LEO_ERR_TLS
                | Some cert \<Rightarrow>
                    (case x509_sha256_hex ossl cert of
                       None \<Rightarrow> LEO_ERR_TLS
                     | Some computed_fp \<Rightarrow>
                         if \<not> strcasecmp_eq computed_fp fp then LEO_ERR_TLS else LEO_OK))
      | _ \<Rightarrow> LEO_ERR_TLS)"

section \<open>Client certificate and key\<close>

text \<open>The two buffers, as sizes; \<open>None\<close> for a NULL pointer. The result holds what was read.\<close>

definition leo_crypto_load_cert_key ::
  "disk \<Rightarrow> fs \<Rightarrow> nat option \<Rightarrow> nat option \<Rightarrow> leo_error \<times> (string \<times> string) option" where
  "leo_crypto_load_cert_key d files cert_sz key_sz =
     (case (cert_sz, key_sz) of
        (Some csz, Some ksz) \<Rightarrow>
          if csz = 0 \<or> ksz = 0 then (LEO_ERR_TLS, None)
          else (case read_file d files LEO_CLIENT_CERT_FILE csz of
                  None \<Rightarrow> (LEO_ERR_TLS, None)
                | Some cert \<Rightarrow>
                    (case read_file d files LEO_CLIENT_KEY_FILE ksz of
                       None \<Rightarrow> (LEO_ERR_TLS, None)
                     | Some key \<Rightarrow> (LEO_OK, Some (cert, key))))
      | _ \<Rightarrow> (LEO_ERR_TLS, None))"

definition leo_crypto_save_cert_key ::
  "disk \<Rightarrow> fs \<Rightarrow> cstring option \<Rightarrow> cstring option \<Rightarrow> leo_error \<times> fs" where
  "leo_crypto_save_cert_key d files cert_pem key_pem =
     (case (cert_pem, key_pem) of
        (Some cert, Some key) \<Rightarrow>
          if \<not> fst (mkdir_p d LEO_CERTS_DIR) then (LEO_ERR_TLS, files)
          else let (ok, files) = write_file d files LEO_CLIENT_CERT_FILE cert in
               if \<not> ok then (LEO_ERR_TLS, files)
               else let (ok, files) = write_file d files LEO_CLIENT_KEY_FILE key in
                    if \<not> ok then (LEO_ERR_TLS, files) else (LEO_OK, files)
      | _ \<Rightarrow> (LEO_ERR_TLS, files))"

section \<open>Lemmas\<close>

lemma read_loop_eq: "length acc < buf_max \<Longrightarrow> read_loop buf_max rest acc = take (buf_max - 1) (acc @ rest)"
proof (induction buf_max rest acc rule: read_loop.induct)
  case (1 buf_max rest acc)
  let ?n = "min (buf_max - 1 - length acc) (length rest)"
  show ?case
  proof (cases "?n = 0 \<or> buf_max - 1 \<le> length (acc @ take ?n rest)")
    case True
    with 1(2) show ?thesis
      by (subst read_loop.simps) (auto simp: Let_def min_def split: if_splits)
  next
    case False
    then have "buf_max - 1 - length acc > length rest" by (auto simp: min_def split: if_splits)
    with 1 False show ?thesis
      by (subst read_loop.simps) (auto simp: Let_def min_def)
  qed
qed

lemma read_file_eq:
  "0 < buf_max \<Longrightarrow> read_file d files path buf_max =
     (if read_error d path then None else map_option (take (buf_max - 1)) (files path))"
  by (auto simp: read_file_def read_loop_eq Let_def split: option.splits)

lemma write_file_ok:
  "write_file d files path content = (True, files') \<Longrightarrow> files' = files(path \<mapsto> content)"
  by (auto simp: write_file_def Let_def min_def split: if_splits)

text \<open>a certificate and key that were saved are loaded back unchanged, provided they fit the
  buffers and the reads do not fail; and a failed save never touches a file other than these two.\<close>

theorem save_load_cert_key:
  assumes "leo_crypto_save_cert_key d files (Some cert) (Some key) = (e, files')"
    and "\<not> read_error d' LEO_CLIENT_CERT_FILE" "\<not> read_error d' LEO_CLIENT_KEY_FILE"
    and "length cert < csz" "length key < ksz"
  shows "(e = LEO_OK \<longrightarrow>
            leo_crypto_load_cert_key d' files' (Some csz) (Some ksz) = (LEO_OK, Some (cert, key))) \<and>
         (e = LEO_OK \<or> e = LEO_ERR_TLS) \<and>
         (\<forall>path. path \<noteq> LEO_CLIENT_CERT_FILE \<and> path \<noteq> LEO_CLIENT_KEY_FILE \<longrightarrow> files' path = files path)"
proof -
  have ne: "LEO_CLIENT_CERT_FILE \<noteq> LEO_CLIENT_KEY_FILE"
    by (simp add: LEO_CLIENT_CERT_FILE_def LEO_CLIENT_KEY_FILE_def)
  have "e = LEO_OK \<Longrightarrow> files' LEO_CLIENT_CERT_FILE = Some cert \<and> files' LEO_CLIENT_KEY_FILE = Some key"
    using assms(1) ne
    by (auto simp: leo_crypto_save_cert_key_def dest!: write_file_ok split: if_splits prod.splits)
  then have "e = LEO_OK \<Longrightarrow>
      leo_crypto_load_cert_key d' files' (Some csz) (Some ksz) = (LEO_OK, Some (cert, key))"
    using assms(2-5) by (auto simp: leo_crypto_load_cert_key_def read_file_eq)
  moreover have "(e = LEO_OK \<or> e = LEO_ERR_TLS) \<and>
      (\<forall>path. path \<noteq> LEO_CLIENT_CERT_FILE \<and> path \<noteq> LEO_CLIENT_KEY_FILE \<longrightarrow> files' path = files path)"
    using assms(1)
    by (auto simp: leo_crypto_save_cert_key_def write_file_def Let_def split: if_splits prod.splits)
  ultimately show ?thesis by blast
qed

section \<open>The contract of a certificate store\<close>

text \<open>What the callers of \<^verbatim>\<open>src/crypto.h\<close> rely on, on either system.\<close>

locale cert_store =
  fixes save :: "disk \<Rightarrow> fs \<Rightarrow> cstring option \<Rightarrow> cstring option \<Rightarrow> leo_error \<times> fs"
    and load :: "disk \<Rightarrow> fs \<Rightarrow> nat option \<Rightarrow> nat option \<Rightarrow> leo_error \<times> (string \<times> string) option"
    and cert_file key_file :: cstring
  assumes save_law: "save d files (Some cert) (Some key) = (LEO_OK, files') \<Longrightarrow> files' = files(cert_file \<mapsto> cert, key_file \<mapsto> key)"
    and save_frame: "p \<notin> {cert_file, key_file} \<Longrightarrow> snd (save d files c k) p = files p"
    and load_law: "0 < csz \<Longrightarrow> 0 < ksz \<Longrightarrow> \<not> read_error d cert_file \<Longrightarrow> \<not> read_error d key_file \<Longrightarrow>
        files cert_file = Some cert \<Longrightarrow> files key_file = Some key \<Longrightarrow>
        load d files (Some csz) (Some ksz) = (LEO_OK, Some (take (csz - 1) cert, take (ksz - 1) key))"
    and files_differ: "cert_file \<noteq> key_file"
begin

text \<open>What was saved is loaded, whatever happened to other files in between.\<close>

lemma saved_loads:
  assumes "save d files (Some cert) (Some key) = (LEO_OK, files')"
    and "files'' cert_file = files' cert_file" "files'' key_file = files' key_file"
    and "\<not> read_error d' cert_file" "\<not> read_error d' key_file" "length cert < csz" "length key < ksz"
  shows "load d' files'' (Some csz) (Some ksz) = (LEO_OK, Some (cert, key))"
proof -
  have "files'' cert_file = Some cert" "files'' key_file = Some key"
    using save_law [OF assms(1)] assms(2,3) files_differ by auto
  from load_law [OF _ _ assms(4,5) this] assms(6,7) show ?thesis by simp
qed

text \<open>A later save wins.\<close>

lemma resaved_loads:
  assumes "save d files (Some cert) (Some key) = (LEO_OK, files1)" "save d1 files1 (Some cert1) (Some key1) = (LEO_OK, files2)"
    and "\<not> read_error d' cert_file" "\<not> read_error d' key_file" "length cert1 < csz" "length key1 < ksz"
  shows "load d' files2 (Some csz) (Some ksz) = (LEO_OK, Some (cert1, key1)) \<and>
         (\<forall>p. p \<notin> {cert_file, key_file} \<longrightarrow> files2 p = files p)"
proof
  show "load d' files2 (Some csz) (Some ksz) = (LEO_OK, Some (cert1, key1))" by (rule saved_loads [OF assms(2) refl refl assms(3-6)])
  show "\<forall>p. p \<notin> {cert_file, key_file} \<longrightarrow> files2 p = files p" using save_law [OF assms(1)] save_law [OF assms(2)] by simp
qed

end

interpretation linux_certs: cert_store leo_crypto_save_cert_key leo_crypto_load_cert_key LEO_CLIENT_CERT_FILE LEO_CLIENT_KEY_FILE
proof unfold_locales
  show "LEO_CLIENT_CERT_FILE \<noteq> LEO_CLIENT_KEY_FILE" by (simp add: LEO_CLIENT_CERT_FILE_def LEO_CLIENT_KEY_FILE_def)
qed (auto simp: leo_crypto_save_cert_key_def leo_crypto_load_cert_key_def write_file_def read_file_eq Let_def split: if_splits option.splits prod.splits)

section \<open>A fingerprint identifies a digest\<close>

lemma bytes_to_hex_inject: "bytes_to_hex a = bytes_to_hex b \<longleftrightarrow> a = b"
proof (induction a arbitrary: b)
  case Nil
  show ?case by (cases b) (simp_all add: hex_byte_def)
next
  case (Cons x xs)
  have "hex_byte x \<noteq> []" by (simp add: hex_byte_def)
  with Cons show ?case by (cases b) (simp_all add: hex_byte_inject)
qed

lemma map_tolower_bytes_to_hex: "map tolower (bytes_to_hex bs) = bytes_to_hex bs"
  by (induction bs) (simp_all add: map_tolower_hex_byte)

lemma length_bytes_to_hex: "length (bytes_to_hex bs) = 2 * length bs"
  by (induction bs) (simp_all add: hex_byte_def)

text \<open>The digest of a certificate, when OpenSSL can compute it.\<close>

definition cert_digest :: "'cert openssl \<Rightarrow> 'cert \<Rightarrow> 8 word list option" where
  "cert_digest ossl c =
     (case i2d_X509 ossl c of None \<Rightarrow> None | Some der \<Rightarrow> if der = [] then None else EVP_sha256 ossl der)"

lemma fingerprint_matches_iff:
  "leo_crypto_x509_fingerprint_matches ossl cert fp \<longleftrightarrow>
     (\<exists>c f dg. cert = Some c \<and> fp = Some f \<and> length f = 64 \<and> cert_digest ossl c = Some dg \<and>
               bytes_to_hex dg = map tolower f)"
  by (auto simp: leo_crypto_x509_fingerprint_matches_def x509_sha256_hex_def cert_digest_def
      strcasecmp_eq_def map_tolower_bytes_to_hex split: option.splits if_splits)

text \<open>the pin decides. A certificate matches a pinned fingerprint exactly when its SHA-256
  digest is the 32 bytes the 64 hexadecimal characters spell, in either case; so two certificates
  that match the same pin have the same digest. Verifying a PEM certificate is the same test.\<close>

theorem fingerprint_pins_digest:
  "(leo_crypto_x509_fingerprint_matches ossl (Some c) (Some fp) \<longleftrightarrow>
      (\<exists>dg. cert_digest ossl c = Some dg \<and> length dg = 32 \<and> map tolower fp = bytes_to_hex dg)) \<and>
   (leo_crypto_x509_fingerprint_matches ossl (Some c) (Some fp) \<and>
    leo_crypto_x509_fingerprint_matches ossl (Some c') (Some fp) \<longrightarrow>
      cert_digest ossl c = cert_digest ossl c') \<and>
   (leo_crypto_verify_ca_fingerprint ossl (Some pem) (Some fp) = LEO_OK \<longleftrightarrow>
      leo_crypto_x509_fingerprint_matches ossl (PEM_read_X509 ossl pem) (Some fp))"
proof (intro conjI)
  show "leo_crypto_x509_fingerprint_matches ossl (Some c) (Some fp) \<longleftrightarrow>
      (\<exists>dg. cert_digest ossl c = Some dg \<and> length dg = 32 \<and> map tolower fp = bytes_to_hex dg)"
  proof -
    have "length dg = 32 \<longleftrightarrow> length fp = 64" if "bytes_to_hex dg = map tolower fp" for dg
      using arg_cong [OF that, of length] by (simp add: length_bytes_to_hex) presburger
    then show ?thesis by (fastforce simp: fingerprint_matches_iff)
  qed
  show "leo_crypto_x509_fingerprint_matches ossl (Some c) (Some fp) \<and>
    leo_crypto_x509_fingerprint_matches ossl (Some c') (Some fp) \<longrightarrow>
      cert_digest ossl c = cert_digest ossl c'"
    by (metis bytes_to_hex_inject fingerprint_matches_iff option.sel)
  show "leo_crypto_verify_ca_fingerprint ossl (Some pem) (Some fp) = LEO_OK \<longleftrightarrow>
      leo_crypto_x509_fingerprint_matches ossl (PEM_read_X509 ossl pem) (Some fp)"
    by (simp add: leo_crypto_verify_ca_fingerprint_def leo_crypto_x509_fingerprint_matches_def
        split: option.splits)
qed

section \<open>Directories are created parents first\<close>

definition path_prefixes :: "cstring \<Rightarrow> nat \<Rightarrow> cstring list" where
  "path_prefixes tmp i =
     map (\<lambda>k. take k tmp) (filter (\<lambda>k. k = length tmp \<or> tmp ! k = CHR ''/'') [i..<Suc (length tmp)])"

lemma path_prefixes_rec:
  "path_prefixes tmp i =
     (if length tmp < i then []
      else if i = length tmp \<or> tmp ! i = CHR ''/'' then take i tmp # path_prefixes tmp (Suc i)
      else path_prefixes tmp (Suc i))"
  by (simp add: path_prefixes_def upt_rec [of i])

lemma mkdir_loop_eq:
  "mkdir_loop d tmp i =
     (list_all (can_mkdir d) (path_prefixes tmp i),
      takeWhile (can_mkdir d) (path_prefixes tmp i) @ take 1 (dropWhile (can_mkdir d) (path_prefixes tmp i)))"
proof (induction d tmp i rule: mkdir_loop.induct)
  case (1 d tmp i)
  show ?case
  proof (cases "i = length tmp \<or> tmp ! i = CHR ''/''")
    case True
    with 1(1) show ?thesis
      unfolding mkdir_loop.simps [of d tmp i] path_prefixes_rec [of tmp i]
      by (cases "can_mkdir d (take i tmp)") (simp_all add: True)
  next
    case False
    with 1(2) show ?thesis
      unfolding mkdir_loop.simps [of d tmp i] path_prefixes_rec [of tmp i] by simp
  qed
qed

text \<open>\<^verbatim>\<open>_mkdir_p\<close> asks for every ancestor of the directory, outermost first, and then for the
  directory itself; it stops at the first refusal, and succeeds exactly when none is refused.\<close>

theorem mkdir_p_parents_first:
  assumes "length path < 511" "path = [] \<or> last path \<noteq> CHR ''/''"
  shows "mkdir_p d (path @ ''/'') =
           (list_all (can_mkdir d) (path_prefixes path 1),
            takeWhile (can_mkdir d) (path_prefixes path 1) @
            take 1 (dropWhile (can_mkdir d) (path_prefixes path 1)))"
  using assms by (simp add: mkdir_p_def strncpy_buf_id mkdir_loop_eq)

section \<open>Concrete instances\<close>

definition good_disk :: disk where
  "good_disk = \<lparr>can_open_w = (\<lambda>_. True), can_fill = (\<lambda>_ n. n), read_error = (\<lambda>_. False),
                can_mkdir = (\<lambda>_. True)\<rparr>"

lemma good_disk_mkdir_p [simp]: "fst (mkdir_p good_disk path)"
  by (simp add: mkdir_p_def mkdir_loop_eq good_disk_def Let_def list_all_iff)

theorem save_load_cert_key_witness:
  "leo_crypto_load_cert_key good_disk
     (snd (leo_crypto_save_cert_key good_disk Map.empty (Some ''CERT'') (Some ''KEY'')))
     (Some 8192) (Some 8192) = (LEO_OK, Some (''CERT'', ''KEY''))"
proof -
  have "leo_crypto_save_cert_key good_disk Map.empty (Some ''CERT'') (Some ''KEY'') =
      (LEO_OK, [LEO_CLIENT_CERT_FILE \<mapsto> ''CERT'', LEO_CLIENT_KEY_FILE \<mapsto> ''KEY''])"
    by (simp add: leo_crypto_save_cert_key_def write_file_def Let_def) (simp add: good_disk_def)
  from save_load_cert_key [OF this, of good_disk 8192 8192] this
  show ?thesis by (simp add: good_disk_def)
qed

definition toy_openssl :: "string openssl" where
  "toy_openssl = \<lparr>i2d_X509 = Some, EVP_sha256 = (\<lambda>s. Some (replicate 32 (of_nat (length s)))),
                  PEM_read_X509 = Some\<rparr>"

theorem fingerprint_pins_digest_witness:
  "leo_crypto_x509_fingerprint_matches toy_openssl (Some ''0123456789'') (Some (concat (replicate 32 ''0A''))) \<and>
   cert_digest toy_openssl ''0123456789'' = cert_digest toy_openssl ''abcdefghij''"
proof -
  have "map tolower ''0A'' = hex_byte 10"
    by (simp add: hex_byte_def hex_digit_def tolower_def flip: byte_of_inject) (simp add: byte_of_def)
  then have "map tolower (concat (replicate n ''0A'')) = bytes_to_hex (replicate n 10)" for n
    by (induction n) simp_all
  then have m: "leo_crypto_x509_fingerprint_matches toy_openssl (Some s) (Some (concat (replicate 32 ''0A'')))"
    if "length s = 10" for s
    using that
    by (auto simp: fingerprint_matches_iff cert_digest_def toy_openssl_def length_concat sum_list_replicate)
  then show ?thesis
    using fingerprint_pins_digest [of toy_openssl "''0123456789''" "concat (replicate 32 ''0A'')" "''abcdefghij''"]
    by simp
qed

theorem mkdir_p_parents_first_witness:
  "mkdir_p good_disk ''/opt/leo/certs/'' = (True, [''/opt'', ''/opt/leo'', ''/opt/leo/certs''])"
  using mkdir_p_parents_first [of "''/opt/leo/certs''" good_disk]
  by (simp add: path_prefixes_def good_disk_def upt_rec numeral_2_eq_2 numeral_3_eq_3)

end
