(* ===== verification/Connection.thy ===== *)
theory Connection
  imports Http_Url Protocol Crypto Interfaces
begin

text \<open>
  \<^verbatim>\<open>agent/src/connection.c\<close>: the persistent WSS connection. \<open>leo_conn\<close> is \<^verbatim>\<open>struct leo_conn\<close>; the
  send queue is the ring buffer of the code (slots, head, tail, count). The callback
  \<open>lws_callback\<close> is a function from a reason to a return code, the new connection and the calls it
  makes (\<open>lws_effect\<close>). The thread of the event loop, the senders and \<^verbatim>\<open>leo_conn_destroy\<close>
  interleave in the step relation \<open>conn_step\<close>, whose atomic pieces are the sections the code
  delimits with \<^verbatim>\<open>queue_mutex\<close> and single accesses to the \<^verbatim>\<open>volatile\<close> flags.
\<close>

section \<open>State\<close>

record leo_conn =
  lws_ctx :: bool                 \<comment> \<open>\<^verbatim>\<open>lws_ctx != NULL\<close>\<close>
  conn_wsi :: "nat option"
  conn_ep :: endpoint             \<comment> \<open>\<^verbatim>\<open>host\<close>, \<^verbatim>\<open>port\<close>, \<^verbatim>\<open>path\<close>\<close>
  send_queue :: "string list"     \<comment> \<open>the slots: \<^verbatim>\<open>len\<close> bytes of \<^verbatim>\<open>data\<close> each\<close>
  queue_head :: nat
  queue_tail :: nat
  queue_count :: nat
  connected :: bool
  should_stop :: bool
  attempt_failed :: bool
  reconnect_delay_ms :: int
  thread_exited :: bool
  conn_config :: leo_config

text \<open>What a callback asks of its surroundings: arming \<^verbatim>\<open>WRITEABLE\<close>, \<^verbatim>\<open>lws_cancel_service\<close>,
  \<^verbatim>\<open>lws_write\<close>, and calling the message handler.\<close>

datatype lws_effect =
    On_Writable nat | Cancel_Service | Lws_Write nat string | Handle string

section \<open>The send queue\<close>

text \<open>The section of \<^verbatim>\<open>leo_conn_send\<close> under \<^verbatim>\<open>queue_mutex\<close>; \<open>None\<close> when the queue is full.\<close>

definition conn_put :: "string \<Rightarrow> leo_conn \<Rightarrow> leo_conn option" where
  "conn_put data conn =
     (if LEO_SEND_QUEUE_DEPTH \<le> queue_count conn then None
      else Some (conn\<lparr>send_queue := (send_queue conn)[queue_tail conn := data],
                      queue_tail := (queue_tail conn + 1) mod LEO_SEND_QUEUE_DEPTH,
                      queue_count := queue_count conn + 1\<rparr>))"

text \<open>The section of \<^verbatim>\<open>LWS_CALLBACK_CLIENT_WRITEABLE\<close> under \<^verbatim>\<open>queue_mutex\<close>: the message and the
  queue after it; \<open>None\<close> when the queue is empty.\<close>

definition conn_get :: "leo_conn \<Rightarrow> (string \<times> leo_conn) option" where
  "conn_get conn =
     (if 0 < queue_count conn then
        Some (send_queue conn ! queue_head conn,
              conn\<lparr>queue_head := (queue_head conn + 1) mod LEO_SEND_QUEUE_DEPTH,
                   queue_count := queue_count conn - 1\<rparr>)
      else None)"

text \<open>\<^verbatim>\<open>leo_conn_send\<close>: the tests before the lock (\<open>None\<close> data or connection for NULL), the
  insertion, and waking the event loop.\<close>

definition send_check :: "leo_conn option \<Rightarrow> string option \<Rightarrow> nat \<Rightarrow> string option" where
  "send_check conn data len =
     (case (conn, data) of
        (Some c, Some d) \<Rightarrow>
          if len = 0 then None
          else if \<not> connected c then None
          else Some (take (if LEO_MAX_MSG_SIZE < len then LEO_MAX_MSG_SIZE else len) d)
      | _ \<Rightarrow> None)"

definition leo_conn_send ::
  "leo_conn option \<Rightarrow> string option \<Rightarrow> nat \<Rightarrow> leo_error \<times> leo_conn option \<times> lws_effect list" where
  "leo_conn_send conn data len =
     (case (conn, send_check conn data len) of
        (Some c, Some d) \<Rightarrow>
          (case conn_put d c of
             None \<Rightarrow> (LEO_ERR_QUEUE_FULL, conn, [])
           | Some c' \<Rightarrow> (LEO_OK, Some c', if lws_ctx c' then [Cancel_Service] else []))
      | _ \<Rightarrow> (LEO_ERR_NETWORK, conn, []))"

definition leo_conn_is_connected :: "leo_conn option \<Rightarrow> bool" where
  "leo_conn_is_connected conn = (case conn of None \<Rightarrow> False | Some c \<Rightarrow> connected c)"

section \<open>Callbacks\<close>

text \<open>The verification context OpenSSL hands over: the depth and the certificate under
  examination (\<open>None\<close> for NULL) and the error it recorded.\<close>

record 'cert store_ctx =
  error_depth :: int
  current_cert :: "'cert option"
  store_error :: int

datatype 'cert lws_reason =
    CLIENT_ESTABLISHED
  | CLIENT_RECEIVE "string option"
  | CLIENT_WRITEABLE
  | EVENT_WAIT_CANCELLED
  | CLIENT_CLOSED
  | CLIENT_CONNECTION_ERROR
  | PERFORM_SERVER_CERT_VERIFICATION "'cert store_ctx option"
  | LWS_OTHER

text \<open>The verification branch: the return code and the store context after it.\<close>

definition verify_server_cert ::
  "'cert openssl \<Rightarrow> leo_conn \<Rightarrow> 'cert store_ctx option \<Rightarrow> int \<times> 'cert store_ctx option" where
  "verify_server_cert ossl conn store =
     (case store of
        None \<Rightarrow> (1, None)
      | Some ctx \<Rightarrow>
          if error_depth ctx \<noteq> 0 then (0, Some ctx)
          else let expected_fp = ca_fingerprint (conn_config conn) in
               if current_cert ctx \<noteq> None \<and>
                  leo_crypto_x509_fingerprint_matches ossl (current_cert ctx) (Some expected_fp)
               then (0, Some (ctx\<lparr>store_error := 0\<rparr>))
               else (1, Some ctx))"

text \<open>The flags \<^verbatim>\<open>CLIENT_ESTABLISHED\<close> sets before it sends HELLO.\<close>

definition mark_established :: "nat \<Rightarrow> leo_conn \<Rightarrow> leo_conn" where
  "mark_established wsi conn =
     conn\<lparr>conn_wsi := Some wsi, connected := True, reconnect_delay_ms := LEO_RECONNECT_INIT_MS\<rparr>"

definition mark_failed :: "leo_conn \<Rightarrow> leo_conn" where
  "mark_failed conn = conn\<lparr>connected := False, conn_wsi := None, attempt_failed := True\<rparr>"

definition lws_callback ::
  "proto_env \<Rightarrow> 'cert openssl \<Rightarrow> leo_conn \<Rightarrow> nat \<Rightarrow> 'cert lws_reason \<Rightarrow> int \<times> leo_conn \<times> lws_effect list" where
  "lws_callback env ossl conn wsi reason =
     (case reason of
        CLIENT_ESTABLISHED \<Rightarrow>
          let conn = mark_established wsi conn;
              (conn, eff) =
                (case leo_proto_build_hello env (conn_config conn) LEO_MAX_MSG_SIZE of
                   None \<Rightarrow> (conn, [])
                 | Some hello \<Rightarrow>
                     if hello = [] then (conn, [])
                     else (case leo_conn_send (Some conn) (Some hello) (length hello) of
                             (e, Some c, eff) \<Rightarrow> (c, eff)
                           | (e, None, eff) \<Rightarrow> (conn, eff)))
          in (0, conn, eff @ [On_Writable wsi])
      | CLIENT_RECEIVE inp \<Rightarrow>
          (0, conn,
           (case inp of
              None \<Rightarrow> []
            | Some bs \<Rightarrow>
                if 0 < length bs
                then [Handle (take (if length bs < LEO_MAX_MSG_SIZE then length bs else LEO_MAX_MSG_SIZE) bs)]
                else []))
      | CLIENT_WRITEABLE \<Rightarrow>
          (case conn_get conn of
             None \<Rightarrow> (0, conn, [])
           | Some (msg, conn) \<Rightarrow>
               (0, conn,
                Lws_Write wsi (take (if length msg < LEO_MAX_MSG_SIZE then length msg else LEO_MAX_MSG_SIZE) msg)
                # (if 0 < queue_count conn then [On_Writable wsi] else [])))
      | EVENT_WAIT_CANCELLED \<Rightarrow>
          let has_pending = 0 < queue_count conn in
          (0, conn,
           (case conn_wsi conn of
              Some w \<Rightarrow> if has_pending then [On_Writable w] else []
            | None \<Rightarrow> []))
      | CLIENT_CLOSED \<Rightarrow> (0, mark_failed conn, [])
      | CLIENT_CONNECTION_ERROR \<Rightarrow> (0, mark_failed conn, [])
      | PERFORM_SERVER_CERT_VERIFICATION store \<Rightarrow> (fst (verify_server_cert ossl conn store), conn, [])
      | LWS_OTHER \<Rightarrow> (0, conn, []))"

section \<open>Endpoint, creation, destruction\<close>

text \<open>\<^verbatim>\<open>_parse_endpoint\<close> over the zeroed buffers of the new connection.\<close>

definition ws_rest :: "cstring \<Rightarrow> cstring" where
  "ws_rest s = (if strprefix ''wss://'' s then drop 6 s else if strprefix ''ws://'' s then drop 5 s else s)"

definition parse_endpoint :: "cstring \<Rightarrow> nat \<Rightarrow> nat \<Rightarrow> endpoint option" where
  "parse_endpoint ep hsz psz =
     (let p = ws_rest ep; slash = strchr SLASH p; colon = strchr COLON p;
          path = strncpy_buf psz (case slash of Some s \<Rightarrow> drop s p | None \<Rightarrow> ''/ws/agent'');
          finish = (\<lambda>host port.
             if host \<noteq> [] \<and> 0 < port then Some \<lparr>ep_host = host, ep_port = port, ep_path = path\<rparr> else None)
      in case colon_first colon slash of
           Some c \<Rightarrow> if hsz \<le> c then None else finish (take c p) (atoi (drop (Suc c) p))
         | None \<Rightarrow>
             (case slash of
                Some s \<Rightarrow> if hsz \<le> s then None else finish (take s p) 443
              | None \<Rightarrow> finish (strncpy_buf hsz p) 443))"

text \<open>\<^verbatim>\<open>leo_conn_create\<close> with non-NULL arguments; whether \<^verbatim>\<open>calloc\<close> and \<^verbatim>\<open>pthread_create\<close> succeed are
  arguments. \<open>None\<close> is NULL.\<close>

definition new_conn :: "leo_config \<Rightarrow> endpoint \<Rightarrow> leo_conn" where
  "new_conn cfg e =
     \<lparr>lws_ctx = False, conn_wsi = None, conn_ep = e, send_queue = replicate LEO_SEND_QUEUE_DEPTH [],
      queue_head = 0, queue_tail = 0, queue_count = 0, connected = False, should_stop = False,
      attempt_failed = False, reconnect_delay_ms = LEO_RECONNECT_INIT_MS, thread_exited = False,
      conn_config = cfg\<rparr>"

definition leo_conn_create :: "leo_config option \<Rightarrow> bool \<Rightarrow> bool \<Rightarrow> leo_conn option" where
  "leo_conn_create cfg calloc_ok thread_ok =
     (case cfg of
        None \<Rightarrow> None
      | Some c \<Rightarrow>
          if \<not> calloc_ok then None
          else (case parse_endpoint (ws_endpoint c) 256 256 of
                  None \<Rightarrow> None
                | Some e \<Rightarrow> if thread_ok then Some (new_conn c e) else None))"

text \<open>\<^verbatim>\<open>leo_conn_destroy\<close>, in two parts around the bounded wait: asking the thread to stop, and the
  decision on the flag \<^verbatim>\<open>thread_exited\<close> read once the wait is over. The second returns the
  value of the function and what is left of the connection: \<open>None\<close> when it was freed.\<close>

definition destroy_request :: "leo_conn \<Rightarrow> leo_conn \<times> lws_effect list" where
  "destroy_request conn = (conn\<lparr>should_stop := True\<rparr>, if lws_ctx conn then [Cancel_Service] else [])"

definition destroy_decide :: "leo_conn option \<Rightarrow> bool \<times> leo_conn option" where
  "destroy_decide conn =
     (case conn of
        None \<Rightarrow> (True, None)
      | Some c \<Rightarrow> if \<not> thread_exited c then (False, Some c) else (True, None))"

section \<open>Reconnection delay\<close>

definition backoff_grow :: "int \<Rightarrow> int" where
  "backoff_grow d =
     (let d = d + LEO_RECONNECT_STEP_MS in if LEO_RECONNECT_MAX_MS < d then LEO_RECONNECT_MAX_MS else d)"

text \<open>The sleeping loop: \<open>stop k\<close> is \<^verbatim>\<open>should_stop\<close> as read before the \<open>k\<close>-th sleep; the result is
  the number of 100 ms sleeps made.\<close>

function backoff_sleeps :: "(nat \<Rightarrow> bool) \<Rightarrow> int \<Rightarrow> nat \<Rightarrow> nat" where
  "backoff_sleeps stop d k =
     (if \<not> stop k \<and> 100 * int k < d then backoff_sleeps stop d (Suc k) else k)"
  by pat_completeness auto
termination by (relation "measure (\<lambda>(stop, d, k). nat (d - 100 * int k))") auto

declare backoff_sleeps.simps [simp del]

section \<open>The threads\<close>

text \<open>Where the event-loop thread is in \<^verbatim>\<open>_lws_thread\<close>: before the outer test, between creating the
  context and connecting, in the service loop, inside \<^verbatim>\<open>CLIENT_ESTABLISHED\<close> before HELLO is queued,
  about to destroy the context, past it but before \<^verbatim>\<open>connected\<close> is reset, sleeping, leaving, gone.\<close>

datatype lws_pc =
    P_top | P_connect | P_service | P_hello | P_destroy | P_cleared | P_backoff nat | P_exit | P_done

text \<open>Where a sender is in \<^verbatim>\<open>leo_conn_send\<close>: outside, past the tests with the bytes to queue, past
  the unlock but before waking the loop.\<close>

datatype send_pc = S_idle | S_checked string | S_wake

text \<open>\<open>sys_armed\<close> and \<open>sys_cancel\<close> are the requests libwebsockets remembers (\<^verbatim>\<open>lws_callback_on_writable\<close>,
  \<^verbatim>\<open>lws_cancel_service\<close>); \<open>sys_in\<close> and \<open>sys_out\<close> record what was queued and what was written.\<close>

record conn_sys =
  sys_conn :: leo_conn
  sys_pc :: lws_pc
  sys_send :: "nat \<Rightarrow> send_pc"
  sys_armed :: bool
  sys_cancel :: bool
  sys_in :: "string list"
  sys_out :: "string list"
  sys_freed :: bool

definition conn_init :: "leo_config \<Rightarrow> endpoint \<Rightarrow> conn_sys" where
  "conn_init cfg e =
     \<lparr>sys_conn = new_conn cfg e, sys_pc = P_top, sys_send = (\<lambda>_. S_idle), sys_armed = False,
      sys_cancel = False, sys_in = [], sys_out = [], sys_freed = False\<rparr>"

definition is_conn_init :: "conn_sys \<Rightarrow> bool" where
  "is_conn_init s \<longleftrightarrow> (\<exists>cfg e. s = conn_init cfg e)"

text \<open>HELLO, as the thread queues it: the tests of \<^verbatim>\<open>leo_conn_send\<close> and the insertion.\<close>

definition queue_hello :: "string option \<Rightarrow> conn_sys \<Rightarrow> conn_sys" where
  "queue_hello hello s =
     (case send_check (Some (sys_conn s)) hello (case hello of Some h \<Rightarrow> length h | None \<Rightarrow> 0) of
        None \<Rightarrow> s
      | Some d \<Rightarrow>
          (case conn_put d (sys_conn s) of
             None \<Rightarrow> s
           | Some c \<Rightarrow> s\<lparr>sys_conn := c, sys_in := sys_in s @ [d], sys_cancel := sys_cancel s \<or> lws_ctx c\<rparr>))"

inductive conn_step :: "conn_sys \<Rightarrow> conn_sys \<Rightarrow> bool" where
  stop_seen: "sys_pc s = P_top \<Longrightarrow> should_stop (sys_conn s) \<Longrightarrow> conn_step s (s\<lparr>sys_pc := P_exit\<rparr>)"
| context_fails: "sys_pc s = P_top \<Longrightarrow> \<not> should_stop (sys_conn s) \<Longrightarrow> conn_step s (s\<lparr>sys_pc := P_backoff 0\<rparr>)"
| context_made: "sys_pc s = P_top \<Longrightarrow> \<not> should_stop (sys_conn s) \<Longrightarrow>
    conn_step s (s\<lparr>sys_pc := P_connect, sys_conn := (sys_conn s)\<lparr>lws_ctx := True, attempt_failed := False\<rparr>\<rparr>)"
| connect_fails: "sys_pc s = P_connect \<Longrightarrow>
    conn_step s (s\<lparr>sys_pc := P_backoff 0, sys_cancel := False, sys_armed := False,
                   sys_conn := (sys_conn s)\<lparr>lws_ctx := False\<rparr>\<rparr>)"
| connecting: "sys_pc s = P_connect \<Longrightarrow> conn_step s (s\<lparr>sys_pc := P_service\<rparr>)"
| closed: "sys_pc s \<in> {P_connect, P_service, P_destroy} \<Longrightarrow>
    conn_step s (s\<lparr>sys_conn := mark_failed (sys_conn s), sys_armed := False\<rparr>)"
| established: "sys_pc s = P_service \<Longrightarrow> \<not> connected (sys_conn s) \<Longrightarrow>
    conn_step s (s\<lparr>sys_pc := P_hello, sys_conn := mark_established w (sys_conn s), sys_armed := False\<rparr>)"
| hello: "sys_pc s = P_hello \<Longrightarrow>
    hello = leo_proto_build_hello env (conn_config (sys_conn s)) LEO_MAX_MSG_SIZE \<Longrightarrow>
    conn_step s ((queue_hello hello s)\<lparr>sys_pc := P_service, sys_armed := True\<rparr>)"
| writeable: "sys_pc s = P_service \<Longrightarrow> sys_armed s \<Longrightarrow> conn_get (sys_conn s) = Some (m, c) \<Longrightarrow>
    conn_step s (s\<lparr>sys_conn := c, sys_out := sys_out s @ [m], sys_armed := 0 < queue_count c\<rparr>)"
| writeable_idle: "sys_pc s = P_service \<Longrightarrow> sys_armed s \<Longrightarrow> conn_get (sys_conn s) = None \<Longrightarrow>
    conn_step s (s\<lparr>sys_armed := False\<rparr>)"
| cancelled: "sys_pc s = P_service \<Longrightarrow> sys_cancel s \<Longrightarrow>
    conn_step s (s\<lparr>sys_cancel := False,
                   sys_armed := sys_armed s \<or> (conn_wsi (sys_conn s) \<noteq> None \<and> 0 < queue_count (sys_conn s))\<rparr>)"
| leave: "sys_pc s = P_service \<Longrightarrow> conn_step s (s\<lparr>sys_pc := P_destroy\<rparr>)"
| context_destroyed: "sys_pc s = P_destroy \<Longrightarrow>
    conn_step s (s\<lparr>sys_pc := P_cleared, sys_cancel := False, sys_armed := False,
                   sys_conn := (sys_conn s)\<lparr>lws_ctx := False\<rparr>\<rparr>)"
| disconnected: "sys_pc s = P_cleared \<Longrightarrow>
    conn_step s (s\<lparr>sys_pc := (if should_stop (sys_conn s) then P_exit else P_backoff 0),
                   sys_conn := (sys_conn s)\<lparr>connected := False\<rparr>\<rparr>)"
| sleeping: "sys_pc s = P_backoff k \<Longrightarrow> \<not> should_stop (sys_conn s) \<Longrightarrow>
    100 * int k < reconnect_delay_ms (sys_conn s) \<Longrightarrow> conn_step s (s\<lparr>sys_pc := P_backoff (Suc k)\<rparr>)"
| woken: "sys_pc s = P_backoff k \<Longrightarrow>
    should_stop (sys_conn s) \<or> reconnect_delay_ms (sys_conn s) \<le> 100 * int k \<Longrightarrow>
    conn_step s (s\<lparr>sys_pc := P_top,
                   sys_conn := (sys_conn s)\<lparr>reconnect_delay_ms := backoff_grow (reconnect_delay_ms (sys_conn s))\<rparr>\<rparr>)"
| exiting: "sys_pc s = P_exit \<Longrightarrow>
    conn_step s (s\<lparr>sys_pc := P_done, sys_conn := (sys_conn s)\<lparr>thread_exited := True\<rparr>\<rparr>)"
| send_checked: "sys_send s i = S_idle \<Longrightarrow> send_check (Some (sys_conn s)) (Some data) (length data) = Some d \<Longrightarrow>
    conn_step s (s\<lparr>sys_send := (sys_send s)(i := S_checked d)\<rparr>)"
| send_queued: "sys_send s i = S_checked d \<Longrightarrow> conn_put d (sys_conn s) = Some c \<Longrightarrow>
    conn_step s (s\<lparr>sys_conn := c, sys_in := sys_in s @ [d], sys_send := (sys_send s)(i := S_wake)\<rparr>)"
| send_full: "sys_send s i = S_checked d \<Longrightarrow> conn_put d (sys_conn s) = None \<Longrightarrow>
    conn_step s (s\<lparr>sys_send := (sys_send s)(i := S_idle)\<rparr>)"
| send_woken: "sys_send s i = S_wake \<Longrightarrow>
    conn_step s (s\<lparr>sys_cancel := sys_cancel s \<or> lws_ctx (sys_conn s), sys_send := (sys_send s)(i := S_idle)\<rparr>)"
| stop_requested: "conn_step s (s\<lparr>sys_conn := (sys_conn s)\<lparr>should_stop := True\<rparr>,
                                  sys_cancel := sys_cancel s \<or> lws_ctx (sys_conn s)\<rparr>)"
| freed: "destroy_decide (Some (sys_conn s)) = (True, None) \<Longrightarrow> conn_step s (s\<lparr>sys_freed := True\<rparr>)"

inductive_cases conn_stepE: "conn_step s s'"

section \<open>The ring buffer is a bounded queue\<close>

definition conn_queue :: "leo_conn \<Rightarrow> string list" where
  "conn_queue c =
     map (\<lambda>i. send_queue c ! ((queue_head c + i) mod LEO_SEND_QUEUE_DEPTH)) [0..<queue_count c]"

definition ring_wf :: "leo_conn \<Rightarrow> bool" where
  "ring_wf c \<longleftrightarrow>
     length (send_queue c) = LEO_SEND_QUEUE_DEPTH \<and> queue_head c < LEO_SEND_QUEUE_DEPTH \<and>
     queue_count c \<le> LEO_SEND_QUEUE_DEPTH \<and>
     queue_tail c = (queue_head c + queue_count c) mod LEO_SEND_QUEUE_DEPTH"

lemma length_conn_queue [simp]: "length (conn_queue c) = queue_count c"
  by (simp add: conn_queue_def)

lemma conn_queue_empty_iff: "conn_queue c = [] \<longleftrightarrow> queue_count c = 0"
  by (simp add: conn_queue_def)

lemma depth_pos [simp]: "0 < LEO_SEND_QUEUE_DEPTH"
  by (simp add: leo_sizes)

lemma ring_slot_fresh:
  fixes h n k N :: nat
  assumes "h < N" "n < N" "k < n"
  shows "(h + k) mod N \<noteq> (h + n) mod N"
  by (rule ccontr) (use assms in \<open>auto simp: mod_if split: if_splits\<close>)

lemma conn_put_queue:
  assumes "ring_wf c" "conn_put d c = Some c'"
  shows "ring_wf c' \<and> conn_queue c' = conn_queue c @ [d]"
proof -
  have cnt: "queue_count c < LEO_SEND_QUEUE_DEPTH" using assms(2) by (auto simp: conn_put_def split: if_splits)
  have c': "c' = c\<lparr>send_queue := (send_queue c)[queue_tail c := d],
                    queue_tail := (queue_tail c + 1) mod LEO_SEND_QUEUE_DEPTH, queue_count := queue_count c + 1\<rparr>"
    using assms(2) cnt by (simp add: conn_put_def)
  have "ring_wf c'" using assms(1) cnt by (auto simp: c' ring_wf_def mod_Suc_eq)
  moreover have "(queue_head c + queue_count c) mod LEO_SEND_QUEUE_DEPTH \<noteq> (queue_head c + k) mod LEO_SEND_QUEUE_DEPTH"
    if "k < queue_count c" for k
    using ring_slot_fresh [OF _ cnt that, of "queue_head c"] assms(1) by (simp add: ring_wf_def)
  then have "conn_queue c' = conn_queue c @ [d]"
    using assms(1) cnt by (simp add: c' ring_wf_def conn_queue_def)
  ultimately show ?thesis ..
qed

lemma conn_get_queue:
  assumes "ring_wf c" "conn_get c = Some (m, c')"
  shows "ring_wf c' \<and> conn_queue c = m # conn_queue c'"
proof -
  have cnt: "0 < queue_count c" using assms(2) by (auto simp: conn_get_def split: if_splits)
  then obtain n where n: "queue_count c = Suc n" by (cases "queue_count c") auto
  have c': "m = send_queue c ! queue_head c" "c' = c\<lparr>queue_head := (queue_head c + 1) mod LEO_SEND_QUEUE_DEPTH,
                    queue_count := queue_count c - 1\<rparr>"
    using assms(2) cnt by (simp_all add: conn_get_def)
  have "ring_wf c'" using assms(1) n by (auto simp: c' ring_wf_def mod_simps)
  moreover have "[0..<queue_count c] = 0 # map Suc [0..<queue_count c - 1]"
    using cnt by (simp add: map_Suc_upt upt_conv_Cons)
  then have "conn_queue c = m # conn_queue c'"
    using assms(1) by (simp add: c' conn_queue_def ring_wf_def comp_def mod_simps)
  ultimately show ?thesis ..
qed

interpretation sendq: bounded_fifo conn_put conn_get conn_queue ring_wf LEO_SEND_QUEUE_DEPTH
proof unfold_locales
  fix c d
  assume wf: "ring_wf c"
  then show "length (conn_queue c) \<le> LEO_SEND_QUEUE_DEPTH" by (simp add: ring_wf_def)
  show "case conn_put d c of
          None \<Rightarrow> length (conn_queue c) = LEO_SEND_QUEUE_DEPTH
        | Some c' \<Rightarrow> length (conn_queue c) < LEO_SEND_QUEUE_DEPTH \<and> ring_wf c' \<and> conn_queue c' = conn_queue c @ [d]"
  proof (cases "conn_put d c")
    case None
    with wf show ?thesis by (auto simp: conn_put_def ring_wf_def split: if_splits)
  next
    case (Some c')
    with conn_put_queue [OF wf Some] show ?thesis by (auto simp: conn_put_def split: if_splits)
  qed
  show "case conn_get c of None \<Rightarrow> conn_queue c = []
        | Some (a, q') \<Rightarrow> ring_wf q' \<and> conn_queue c = a # conn_queue q'"
  proof (cases "conn_get c")
    case None
    then show ?thesis by (simp add: conn_get_def conn_queue_def split: if_splits)
  next
    case (Some mc)
    with conn_get_queue [OF wf, of "fst mc" "snd mc"] show ?thesis by (cases mc) simp
  qed
qed

lemma ring_wf_new [simp]: "ring_wf (new_conn cfg e)" "conn_queue (new_conn cfg e) = []"
  by (simp_all add: ring_wf_def new_conn_def conn_queue_def)

text \<open>the send queue is a first-in first-out queue of at most 32 messages. From any
  well-formed queue, over any sequence of insertions and removals, what was there followed by what
  was accepted is what was taken out followed by what is left; an insertion is refused exactly
  when 32 messages wait.\<close>

theorem send_queue_fifo:
  assumes "ring_wf c" "fifo_run conn_put conn_get ops c = (c', ins, outs)"
  shows "ring_wf c' \<and> conn_queue c @ ins = outs @ conn_queue c' \<and>
         (conn_put d c' = None \<longleftrightarrow> length (conn_queue c') = 32)"
proof -
  have r: "ring_wf c' \<and> conn_queue c @ ins = outs @ conn_queue c'" by (rule sendq.run_fifo [OF assms])
  moreover have "conn_put d c' = None \<longleftrightarrow> length (conn_queue c') = 32"
    using r by (auto simp: conn_put_def ring_wf_def leo_sizes)
  ultimately show ?thesis by blast
qed

section \<open>Invariants of all interleavings\<close>

definition msg_sized :: "string \<Rightarrow> bool" where
  "msg_sized m \<longleftrightarrow> m \<noteq> [] \<and> length m \<le> LEO_MAX_MSG_SIZE"

text \<open>The queue: well-formed, in order, every message between 1 and \<^const>\<open>LEO_MAX_MSG_SIZE\<close> bytes.\<close>

definition queue_inv :: "conn_sys \<Rightarrow> bool" where
  "queue_inv s \<longleftrightarrow>
     ring_wf (sys_conn s) \<and> sys_in s = sys_out s @ conn_queue (sys_conn s) \<and>
     list_all msg_sized (sys_in s) \<and> (\<forall>i d. sys_send s i = S_checked d \<longrightarrow> msg_sized d)"

text \<open>The flags, as functions of where the thread is.\<close>

definition flag_inv :: "conn_sys \<Rightarrow> bool" where
  "flag_inv s \<longleftrightarrow>
     (lws_ctx (sys_conn s) \<longleftrightarrow> sys_pc s \<in> {P_connect, P_service, P_hello, P_destroy}) \<and>
     (connected (sys_conn s) \<longrightarrow>
        sys_pc s \<in> {P_service, P_hello, P_destroy, P_cleared} \<and> conn_wsi (sys_conn s) \<noteq> None) \<and>
     (sys_pc s = P_hello \<longrightarrow> connected (sys_conn s)) \<and>
     (thread_exited (sys_conn s) \<longleftrightarrow> sys_pc s = P_done) \<and>
     (sys_freed s \<longrightarrow> sys_pc s = P_done)"

definition delay_inv :: "conn_sys \<Rightarrow> bool" where
  "delay_inv s \<longleftrightarrow>
     (let d = reconnect_delay_ms (sys_conn s) in
      LEO_RECONNECT_INIT_MS \<le> d \<and> d \<le> LEO_RECONNECT_MAX_MS \<and> LEO_RECONNECT_STEP_MS dvd d)"

text \<open>No lost wake-up: while connected and serving, waiting messages imply that \<^verbatim>\<open>WRITEABLE\<close> is armed,
  or a cancel is pending, or some sender is about to request one.\<close>

definition wake_inv :: "conn_sys \<Rightarrow> bool" where
  "wake_inv s \<longleftrightarrow>
     (sys_pc s = P_service \<and> connected (sys_conn s) \<and> conn_queue (sys_conn s) \<noteq> [] \<longrightarrow>
        sys_armed s \<or> sys_cancel s \<or> (\<exists>i. sys_send s i = S_wake))"

definition conn_inv :: "conn_sys \<Rightarrow> bool" where
  "conn_inv s \<longleftrightarrow> queue_inv s \<and> flag_inv s \<and> delay_inv s \<and> wake_inv s"

lemma conn_queue_cong:
  "send_queue c' = send_queue c \<Longrightarrow> queue_head c' = queue_head c \<Longrightarrow> queue_count c' = queue_count c \<Longrightarrow>
   conn_queue c' = conn_queue c"
  by (simp add: conn_queue_def)

lemma ring_wf_cong:
  "send_queue c' = send_queue c \<Longrightarrow> queue_head c' = queue_head c \<Longrightarrow> queue_tail c' = queue_tail c \<Longrightarrow>
   queue_count c' = queue_count c \<Longrightarrow> ring_wf c' = ring_wf c"
  by (simp add: ring_wf_def)

lemma flag_updates_queue [simp]:
  "conn_queue (c\<lparr>lws_ctx := a, attempt_failed := b\<rparr>) = conn_queue c"
  "conn_queue (c\<lparr>lws_ctx := a\<rparr>) = conn_queue c"
  "conn_queue (c\<lparr>connected := a\<rparr>) = conn_queue c"
  "conn_queue (c\<lparr>should_stop := a\<rparr>) = conn_queue c"
  "conn_queue (c\<lparr>thread_exited := a\<rparr>) = conn_queue c"
  "conn_queue (c\<lparr>reconnect_delay_ms := d\<rparr>) = conn_queue c"
  "conn_queue (mark_failed c) = conn_queue c"
  "conn_queue (mark_established w c) = conn_queue c"
  by (rule conn_queue_cong; simp add: mark_failed_def mark_established_def)+

lemma flag_updates_ring [simp]:
  "ring_wf (c\<lparr>lws_ctx := a, attempt_failed := b\<rparr>) = ring_wf c"
  "ring_wf (c\<lparr>lws_ctx := a\<rparr>) = ring_wf c"
  "ring_wf (c\<lparr>connected := a\<rparr>) = ring_wf c"
  "ring_wf (c\<lparr>should_stop := a\<rparr>) = ring_wf c"
  "ring_wf (c\<lparr>thread_exited := a\<rparr>) = ring_wf c"
  "ring_wf (c\<lparr>reconnect_delay_ms := d\<rparr>) = ring_wf c"
  "ring_wf (mark_failed c) = ring_wf c"
  "ring_wf (mark_established w c) = ring_wf c"
  by (rule ring_wf_cong; simp add: mark_failed_def mark_established_def)+

text \<open>A queue operation changes none of the flags.\<close>

lemma conn_put_flags:
  assumes "conn_put d c = Some c'"
  shows "lws_ctx c' = lws_ctx c" "conn_wsi c' = conn_wsi c" "connected c' = connected c"
    "thread_exited c' = thread_exited c" "reconnect_delay_ms c' = reconnect_delay_ms c"
    "conn_config c' = conn_config c"
  using assms by (auto simp: conn_put_def split: if_splits)

lemma conn_get_flags:
  assumes "conn_get c = Some (m, c')"
  shows "lws_ctx c' = lws_ctx c" "conn_wsi c' = conn_wsi c" "connected c' = connected c"
    "thread_exited c' = thread_exited c" "reconnect_delay_ms c' = reconnect_delay_ms c"
    "conn_config c' = conn_config c"
  using assms by (auto simp: conn_get_def split: if_splits)

lemma send_check_sized: "send_check c d n = Some m \<Longrightarrow> (\<exists>x. d = Some x \<and> (x \<noteq> [] \<longrightarrow> msg_sized m))"
  by (auto simp: send_check_def msg_sized_def leo_sizes split: option.splits if_splits)

text \<open>What queueing HELLO does to a state: nothing, or one message more.\<close>

lemma queue_hello_cases:
  obtains (dropped) "queue_hello hello s = s"
  | (queued) d c where "conn_put d (sys_conn s) = Some c" "msg_sized d"
      "queue_hello hello s = s\<lparr>sys_conn := c, sys_in := sys_in s @ [d], sys_cancel := sys_cancel s \<or> lws_ctx c\<rparr>"
proof (cases hello)
  case None
  then show thesis by (intro dropped) (simp add: queue_hello_def send_check_def)
next
  case (Some h)
  show thesis
  proof (cases "send_check (Some (sys_conn s)) (Some h) (length h)")
    case None
    with Some show thesis by (intro dropped) (simp add: queue_hello_def)
  next
    case (Some d)
    then have "msg_sized d"
      using send_check_sized [OF Some] by (auto simp: send_check_def split: if_splits)
    with Some \<open>hello = Some h\<close> show thesis
      by (cases "conn_put d (sys_conn s)") (auto simp: queue_hello_def intro: dropped queued)
  qed
qed

lemma queue_inv_ring: "queue_inv s \<Longrightarrow> ring_wf (sys_conn s)"
  by (simp add: queue_inv_def)

lemma queue_inv_step:
  assumes "conn_step s s'" "queue_inv s"
  shows "queue_inv s'"
  using assms
proof cases
  case (hello h env)
  then show ?thesis
    using assms(2)
    by (cases h s rule: queue_hello_cases) (auto simp: queue_inv_def dest: conn_put_queue)
next
  case (writeable m c)
  with assms(2) conn_get_queue [of "sys_conn s" m c] show ?thesis by (auto simp: queue_inv_def)
next
  case (send_checked i data d)
  then have "msg_sized d" using send_check_sized by (fastforce simp: send_check_def split: if_splits)
  with send_checked assms(2) show ?thesis by (auto simp: queue_inv_def)
next
  case (send_queued i d c)
  with assms(2) conn_put_queue [of "sys_conn s" d c] show ?thesis by (auto simp: queue_inv_def)
qed (auto simp: queue_inv_def)

lemma flag_inv_step:
  assumes "conn_step s s'" "flag_inv s"
  shows "flag_inv s'"
  using assms
proof cases
  case (hello h env)
  then show ?thesis
    using assms(2)
    by (cases h s rule: queue_hello_cases) (auto simp: flag_inv_def conn_put_flags)
next
  case (writeable m c)
  with assms(2) show ?thesis by (auto simp: flag_inv_def conn_get_flags)
next
  case (send_queued i d c)
  with assms(2) show ?thesis by (auto simp: flag_inv_def conn_put_flags)
qed (auto simp: flag_inv_def mark_failed_def mark_established_def destroy_decide_def split: if_splits)

lemma backoff_grow_bounds:
  assumes "LEO_RECONNECT_INIT_MS \<le> d" "d \<le> LEO_RECONNECT_MAX_MS" "LEO_RECONNECT_STEP_MS dvd d"
  shows "LEO_RECONNECT_INIT_MS \<le> backoff_grow d \<and> backoff_grow d \<le> LEO_RECONNECT_MAX_MS \<and>
         LEO_RECONNECT_STEP_MS dvd backoff_grow d"
  using assms by (auto simp: backoff_grow_def leo_intervals Let_def)

lemma delay_inv_step:
  assumes "conn_step s s'" "delay_inv s"
  shows "delay_inv s'"
  using assms
proof cases
  case (hello h env)
  then show ?thesis
    using assms(2)
    by (cases h s rule: queue_hello_cases) (auto simp: delay_inv_def conn_put_flags)
next
  case (writeable m c)
  with assms(2) show ?thesis by (simp add: delay_inv_def conn_get_flags)
next
  case (send_queued i d c)
  with assms(2) show ?thesis by (simp add: delay_inv_def conn_put_flags)
next
  case (woken k)
  with assms(2) backoff_grow_bounds [of "reconnect_delay_ms (sys_conn s)"] show ?thesis
    by (simp add: delay_inv_def Let_def)
next
  case (established w)
  then show ?thesis by (simp add: delay_inv_def mark_established_def leo_intervals)
qed (simp_all add: delay_inv_def mark_failed_def)

lemma wake_inv_step:
  assumes "conn_step s s'" "wake_inv s" "flag_inv s" "ring_wf (sys_conn s)"
  shows "wake_inv s'"
  using assms(1)
proof cases
  case (writeable m c)
  then show ?thesis by (simp add: wake_inv_def flip: length_greater_0_conv)
next
  case writeable_idle
  then have "conn_queue (sys_conn s) = []" using sendq.get_NoneD assms(4) by blast
  with writeable_idle show ?thesis by (simp add: wake_inv_def)
next
  case (send_queued i d c)
  then show ?thesis by (auto simp: wake_inv_def)
next
  case (send_woken i)
  with assms(2,3) show ?thesis by (auto simp: wake_inv_def flag_inv_def)
next
  case cancelled
  with assms(2,3) show ?thesis by (simp add: wake_inv_def flag_inv_def flip: length_greater_0_conv)
next
  case (closed)
  then show ?thesis by (simp add: wake_inv_def mark_failed_def)
next
  case (connecting)
  with assms(3) show ?thesis by (auto simp: wake_inv_def flag_inv_def)
next
  case (send_checked i data d)
  with assms(2) show ?thesis unfolding wake_inv_def by (auto, metis fun_upd_other send_pc.distinct(3) send_pc.distinct(5))
next
  case (send_full i d)
  with assms(2) show ?thesis unfolding wake_inv_def by (auto, metis send_pc.distinct(5))
qed (use assms(2) in \<open>auto simp: wake_inv_def\<close>)

interpretation connsys: invariant_system is_conn_init conn_step conn_inv
proof unfold_locales
  fix s assume "is_conn_init s"
  then show "conn_inv s"
    by (auto simp: is_conn_init_def conn_init_def conn_inv_def queue_inv_def flag_inv_def delay_inv_def
        wake_inv_def) (simp_all add: new_conn_def leo_intervals)
next
  fix s s' assume "conn_inv s" "conn_step s s'"
  then show "conn_inv s'"
    unfolding conn_inv_def
    by (blast intro: queue_inv_step flag_inv_step delay_inv_step wake_inv_step dest: queue_inv_ring)
qed


text \<open>From an armed connection the queue drains: one \<^verbatim>\<open>WRITEABLE\<close> per message, each re-arming.\<close>

lemma drain_armed:
  assumes "sys_pc s = P_service" "ring_wf (sys_conn s)" "sys_armed s \<or> conn_queue (sys_conn s) = []"
  shows "\<exists>s'. conn_step\<^sup>*\<^sup>* s s' \<and> sys_out s' = sys_out s @ conn_queue (sys_conn s) \<and> conn_queue (sys_conn s') = []"
  using assms
proof (induction "conn_queue (sys_conn s)" arbitrary: s)
  case Nil
  then show ?case by auto
next
  case (Cons m q)
  then have "conn_get (sys_conn s) \<noteq> None" using sendq.get_NoneD [OF Cons.prems(2)] by force
  then obtain m' c where get: "conn_get (sys_conn s) = Some (m', c)" by auto
  from sendq.get_SomeD [OF Cons.prems(2) get] Cons.hyps(2) have c: "ring_wf c" "m' = m" "q = conn_queue c" by auto
  let ?s = "s\<lparr>sys_conn := c, sys_out := sys_out s @ [m], sys_armed := 0 < queue_count c\<rparr>"
  have step: "conn_step s ?s" using Cons.prems Cons.hyps(2) get c(2) by (auto intro: conn_step.writeable)
  have "sys_armed ?s \<or> conn_queue (sys_conn ?s) = []" by (auto simp: conn_queue_empty_iff)
  with Cons.hyps(1) [of ?s] Cons.prems(1) c obtain s' where
    "conn_step\<^sup>*\<^sup>* ?s s'" "sys_out s' = sys_out ?s @ conn_queue (sys_conn ?s)" "conn_queue (sys_conn s') = []"
    by auto
  with step c Cons.hyps(2) show ?case by (intro exI [of _ s']) (auto intro: converse_rtranclp_into_rtranclp)
qed

text \<open>A pending cancel, or a sender about to ask for one, arms the connection in at most two steps.\<close>

lemma arm_reachable:
  assumes "conn_inv s" "sys_pc s = P_service" "connected (sys_conn s)" "conn_queue (sys_conn s) \<noteq> []"
  shows "\<exists>s'. conn_step\<^sup>*\<^sup>* s s' \<and> sys_pc s' = P_service \<and> sys_armed s' \<and> sys_conn s' = sys_conn s \<and> sys_out s' = sys_out s"
proof -
  have wsi: "conn_wsi (sys_conn s) \<noteq> None" "0 < queue_count (sys_conn s)" "lws_ctx (sys_conn s)"
    using assms by (auto simp: conn_inv_def flag_inv_def simp flip: length_greater_0_conv)
  have cancel: "\<exists>s'. conn_step t s' \<and> sys_pc s' = P_service \<and> sys_armed s' \<and> sys_conn s' = sys_conn t \<and> sys_out s' = sys_out t"
    if "sys_cancel t" "sys_pc t = P_service" "sys_conn t = sys_conn s" for t
    using conn_step.cancelled [of t] that wsi by fastforce
  consider "sys_armed s" | "sys_cancel s" | i where "sys_send s i = S_wake"
    using assms by (auto simp: conn_inv_def wake_inv_def)
  then show ?thesis
  proof cases
    case 2
    with cancel [of s] assms(2) show ?thesis by blast
  next
    case 3
    let ?t = "s\<lparr>sys_cancel := sys_cancel s \<or> lws_ctx (sys_conn s), sys_send := (sys_send s)(i := S_idle)\<rparr>"
    have "conn_step s ?t" using 3 by (rule conn_step.send_woken)
    moreover from cancel [of ?t] wsi assms(2) obtain s' where
      "conn_step ?t s'" "sys_pc s' = P_service" "sys_armed s'" "sys_conn s' = sys_conn s" "sys_out s' = sys_out s"
      by auto
    ultimately show ?thesis by (blast intro: rtranclp.rtrancl_into_rtrancl r_into_rtranclp)
  qed (use assms in blast)
qed


text \<open>C13: \<^verbatim>\<open>leo_conn_destroy\<close> frees the connection only once the event-loop thread has left for good:
  in every reachable state in which it was freed the thread has returned, and a thread that has
  returned takes no further step.\<close>

theorem conn_freed_after_exit:
  assumes "reach is_conn_init conn_step s"
  shows "(sys_freed s \<longrightarrow> sys_pc s = P_done) \<and>
         (fst (destroy_decide (Some (sys_conn s))) \<longleftrightarrow> sys_pc s = P_done) \<and>
         (\<forall>s'. sys_pc s = P_done \<and> conn_step\<^sup>*\<^sup>* s s' \<longrightarrow> sys_pc s' = P_done)"
proof -
  have "flag_inv s" using connsys.always [OF assms] by (simp add: conn_inv_def)
  moreover have "sys_pc s' = P_done" if "conn_step\<^sup>*\<^sup>* s s'" "sys_pc s = P_done" for s'
    using that by (induction rule: rtranclp_induct) (auto elim: conn_step.cases)
  ultimately show ?thesis by (auto simp: flag_inv_def destroy_decide_def)
qed

section \<open>Reconnection delay\<close>

lemma backoff_grow_iterate:
  "(backoff_grow ^^ n) LEO_RECONNECT_INIT_MS = min LEO_RECONNECT_MAX_MS (LEO_RECONNECT_INIT_MS + int n * LEO_RECONNECT_STEP_MS)"
  by (induction n) (auto simp: backoff_grow_def leo_intervals Let_def min_def)

lemma backoff_sleeps_eq:
  assumes "\<And>j. k \<le> j \<Longrightarrow> j < k + n \<Longrightarrow> \<not> stop j" "d = 100 * int (k + n)"
  shows "backoff_sleeps stop d k = k + n"
  using assms
proof (induction n arbitrary: k)
  case 0
  then show ?case by (subst backoff_sleeps.simps) simp
next
  case (Suc n)
  then have "backoff_sleeps stop d (Suc k) = Suc k + n" by (intro Suc.IH) auto
  moreover have "\<not> stop k" using Suc.prems(1) by simp
  ultimately show ?case using Suc.prems(2) by (subst backoff_sleeps.simps) simp
qed

lemma backoff_sleeps_stop: "stop m \<Longrightarrow> k \<le> m \<Longrightarrow> backoff_sleeps stop d k \<le> m"
proof (induction stop d k rule: backoff_sleeps.induct)
  case (1 stop d k)
  then show ?case by (cases "k = m") (auto simp: backoff_sleeps.simps [of stop d k] backoff_sleeps.simps [of stop d m])
qed

text \<open>the delay before the next attempt. After \<open>n\<close> failed attempts since the last established
  connection the delay is \<open>5 + 5 n\<close> seconds, at most 60; the wait lasts exactly that delay in slices
  of 100 ms, and ends at the first slice before which a stop is seen. In every reachable state the
  delay is one of 5, 10, ..., 60 seconds.\<close>

theorem reconnect_delay:
  "(backoff_grow ^^ n) LEO_RECONNECT_INIT_MS = min 60000 (5000 + 5000 * int n) \<and>
   backoff_sleeps (\<lambda>_. False) ((backoff_grow ^^ n) LEO_RECONNECT_INIT_MS) 0 = min 600 (50 + 50 * n) \<and>
   (stop m \<longrightarrow> backoff_sleeps stop d 0 \<le> m) \<and>
   (reach is_conn_init conn_step s \<longrightarrow>
      reconnect_delay_ms (sys_conn s) \<in> set (map (\<lambda>k. 5000 * int k) [1..<13]))"
proof (intro conjI impI)
  show delay: "(backoff_grow ^^ n) LEO_RECONNECT_INIT_MS = min 60000 (5000 + 5000 * int n)"
    unfolding backoff_grow_iterate by (simp add: leo_intervals)
  have "min 60000 (5000 + 5000 * int n) = 100 * int (0 + min 600 (50 + 50 * n))" by (simp add: min_def)
  then show "backoff_sleeps (\<lambda>_. False) ((backoff_grow ^^ n) LEO_RECONNECT_INIT_MS) 0 = min 600 (50 + 50 * n)"
    unfolding delay using backoff_sleeps_eq [of 0 "min 600 (50 + 50 * n)" "\<lambda>_. False"] by simp
  show "stop m \<Longrightarrow> backoff_sleeps stop d 0 \<le> m" by (rule backoff_sleeps_stop) simp_all
  assume "reach is_conn_init conn_step s"
  then have inv: "delay_inv s" using connsys.always by (simp add: conn_inv_def)
  then obtain k where k: "reconnect_delay_ms (sys_conn s) = 5000 * k" "1 \<le> k" "k \<le> 12"
    by (auto simp: delay_inv_def leo_intervals Let_def elim!: dvdE)
  then have "reconnect_delay_ms (sys_conn s) = 5000 * int (nat k)" "nat k \<in> {1..<13}" by auto
  then show "reconnect_delay_ms (sys_conn s) \<in> set (map (\<lambda>k. 5000 * int k) [1..<13])"
    by (auto simp: image_iff intro!: bexI [of _ "nat k"])
qed

section \<open>Certificate pinning\<close>

text \<open>A handshake as OpenSSL runs it: the callback is asked once per certificate of the chain, and
  the handshake goes on only if every answer is 0.\<close>

definition handshake_accepts :: "proto_env \<Rightarrow> 'cert openssl \<Rightarrow> leo_conn \<Rightarrow> nat \<Rightarrow> 'cert store_ctx list \<Rightarrow> bool" where
  "handshake_accepts env ossl conn wsi chain \<longleftrightarrow>
     list_all (\<lambda>ctx. fst (lws_callback env ossl conn wsi (PERFORM_SERVER_CERT_VERIFICATION (Some ctx))) = 0) chain"


section \<open>HELLO\<close>

text \<open>what establishing the connection puts in the queue. HELLO is appended when the queue
  is not full, so it is the first message of the session exactly when nothing waited from the
  previous session; with 32 messages waiting it is dropped. In every case the connection is marked
  connected, the delay is reset and \<^verbatim>\<open>WRITEABLE\<close> is armed.\<close>

theorem established_queues_hello:
  assumes "ring_wf conn" "leo_proto_build_hello env (conn_config conn) LEO_MAX_MSG_SIZE = Some h" "h \<noteq> []"
    and "lws_callback env ossl conn wsi CLIENT_ESTABLISHED = (rc, conn', eff)"
  shows "rc = 0 \<and> connected conn' \<and> conn_wsi conn' = Some wsi \<and> reconnect_delay_ms conn' = 5000 \<and>
         On_Writable wsi \<in> set eff \<and>
         conn_queue conn' = (if length (conn_queue conn) = 32 then conn_queue conn else conn_queue conn @ [h])"
proof -
  have h: "length h < LEO_MAX_MSG_SIZE"
    using assms(2) by (auto simp: leo_proto_build_hello_def dest: serialize_SomeD)
  let ?c = "mark_established wsi conn"
  have flags: "connected ?c" "conn_config ?c = conn_config conn" "conn_wsi ?c = Some wsi"
    "reconnect_delay_ms ?c = 5000" "queue_count ?c = queue_count conn"
    by (simp_all add: mark_established_def leo_intervals)
  then have chk: "send_check (Some ?c) (Some h) (length h) = Some h" using h assms(3) by (simp add: send_check_def)
  show ?thesis
  proof (cases "conn_put h ?c")
    case None
    moreover then have "queue_count conn = 32"
      using assms(1) flags(5) by (auto simp: conn_put_def ring_wf_def leo_sizes split: if_splits)
    ultimately show ?thesis
      using assms(2-4) flags chk by (auto simp: lws_callback_def leo_conn_send_def Let_def)
  next
    case (Some c)
    moreover from this have "queue_count conn \<noteq> 32"
      using flags(5) by (auto simp: conn_put_def leo_sizes split: if_splits)
    ultimately show ?thesis
      using assms(2-4) flags chk conn_put_flags [OF Some] conn_put_queue [of ?c h c] assms(1)
      by (auto simp: lws_callback_def leo_conn_send_def Let_def)
  qed
qed

section \<open>The endpoint\<close>

lemma parse_endpoint_laws:
  assumes "parse_endpoint ep hsz psz = Some e" "0 < hsz" "0 < psz"
  shows "host_ok hsz (ep_host e) \<and> 0 < ep_port e \<and> int32_range (ep_port e) \<and> length (ep_path e) < psz"
proof -
  let ?p = "ws_rest ep"
  have path: "length (strncpy_buf psz x) < psz" for x using assms(3) by (rule strncpy_buf_length)
  show ?thesis
  proof (cases "colon_first (strchr COLON ?p) (strchr SLASH ?p)")
    case (Some c)
    with assms(1) colon_first_SomeD [OF Some] path show ?thesis
      by (auto simp: parse_endpoint_def host_ok_def Let_def atoi_def split: if_splits)
  next
    case None
    note n = colon_first_NoneD [OF None] host_len_le [of ?p]
    show ?thesis
    proof (cases "strchr SLASH ?p")
      case sl: (Some sl)
      with assms(1) None n path show ?thesis
        by (auto simp: parse_endpoint_def host_ok_def Let_def int32_range_def split: if_splits)
    next
      case sl: None
      with n have "COLON \<notin> set ?p" "SLASH \<notin> set ?p" by simp_all
      then have "COLON \<notin> set (strncpy_buf hsz ?p)" "SLASH \<notin> set (strncpy_buf hsz ?p)"
        using strncpy_buf_set [of hsz ?p] by auto
      with sl assms(1,2) None path show ?thesis
        by (auto simp: parse_endpoint_def host_ok_def Let_def int32_range_def strncpy_buf_length
            split: if_splits)
    qed
  qed
qed

interpretation wss: endpoint_parser "\<lambda>s. parse_endpoint s 256 256" 256 256
  by unfold_locales (auto dest: parse_endpoint_laws)

text \<open>a connection is created exactly for an endpoint that parses, once memory and thread are
  there; its host is non-empty, free of separators and within 255 bytes, its port is positive, its
  path within 255 bytes; the queue is empty and well-formed and nothing is connected yet.\<close>

theorem leo_conn_create_sound:
  "(case leo_conn_create (Some cfg) True True of
      None \<Rightarrow> parse_endpoint (ws_endpoint cfg) 256 256 = None
    | Some c \<Rightarrow> parse_endpoint (ws_endpoint cfg) 256 256 = Some (conn_ep c) \<and>
               host_ok 256 (ep_host (conn_ep c)) \<and> 0 < ep_port (conn_ep c) \<and> length (ep_path (conn_ep c)) < 256 \<and>
               ring_wf c \<and> conn_queue c = [] \<and> conn_config c = cfg \<and>
               \<not> connected c \<and> \<not> should_stop c \<and> \<not> thread_exited c)"
  by (auto simp: leo_conn_create_def wss.connect_args wss.host_law split: option.splits)
     (simp_all add: new_conn_def wss.connect_args wss.host_law)

text \<open>an endpoint \<^verbatim>\<open>wss://host:port/path\<close> is split into its parts; without a port the port is
  443, without a path the path is \<^verbatim>\<open>/ws/agent\<close>.\<close>

theorem parse_endpoint_roundtrip:
  assumes "host_ok 256 h" "1 \<le> n" "n \<le> 65535" "path = [] \<or> hd path = SLASH" "length path < 256"
  shows "parse_endpoint (''wss://'' @ h @ COLON # show_nat n @ path) 256 256 =
           Some \<lparr>ep_host = h, ep_port = int n, ep_path = (if path = [] then ''/ws/agent'' else path)\<rparr> \<and>
         parse_endpoint (''wss://'' @ h @ path) 256 256 =
           Some \<lparr>ep_host = h, ep_port = 443, ep_path = (if path = [] then ''/ws/agent'' else path)\<rparr>"
proof
  let ?p = "h @ COLON # show_nat n @ path"
  have h: "SLASH \<notin> set h" "COLON \<notin> set h" "h \<noteq> []" "length h < 256"
    using assms(1) by (simp_all add: host_ok_def)
  have rest: "ws_rest (''wss://'' @ x) = x" for x by (simp add: ws_rest_def strprefix_def)
  note split = split_host_port_path [OF h(1,2) assms(4) refl, of n]
  show "parse_endpoint (''wss://'' @ ?p) 256 256 =
           Some \<lparr>ep_host = h, ep_port = int n, ep_path = (if path = [] then ''/ws/agent'' else path)\<rparr>"
    unfolding parse_endpoint_def rest Let_def split(1)
    unfolding split(2)
    using h assms(2,3,5) atoi_port [OF assms(2-4)] by (simp add: strncpy_buf_id)
  note nosplit = split_host_path [OF h(1,2) assms(4)]
  show "parse_endpoint (''wss://'' @ h @ path) 256 256 =
           Some \<lparr>ep_host = h, ep_port = 443, ep_path = (if path = [] then ''/ws/agent'' else path)\<rparr>"
    unfolding parse_endpoint_def rest Let_def nosplit(1)
    unfolding nosplit(2)
    using h assms(5) by (simp add: strncpy_buf_id)
qed

section \<open>Concrete instances\<close>

definition demo_config :: leo_config where
  "demo_config = zero_config\<lparr>ca_fingerprint := concat (replicate 32 ''0A'')\<rparr>"

definition demo_conn :: leo_conn where
  "demo_conn = new_conn demo_config \<lparr>ep_host = ''srv'', ep_port = 443, ep_path = ''/ws/agent''\<rparr>"

definition mute_env :: proto_env where
  "mute_env = \<lparr>rnd = (\<lambda>_. 0), now_ms = 0, print_json = (\<lambda>_. None)\<rparr>"

text \<open>A run: connect, HELLO not built, the armed \<^verbatim>\<open>WRITEABLE\<close> finds nothing, then sender 0 queues a
  message and has not yet woken the loop.\<close>

definition demo0 :: conn_sys where
  "demo0 = conn_init demo_config \<lparr>ep_host = ''srv'', ep_port = 443, ep_path = ''/ws/agent''\<rparr>"

definition demo1 :: conn_sys where
  "demo1 = demo0\<lparr>sys_pc := P_service,
     sys_conn := mark_established 7 (demo_conn\<lparr>lws_ctx := True, attempt_failed := False\<rparr>)\<rparr>"

definition demo2 :: conn_sys where
  "demo2 = demo1\<lparr>sys_conn := the (conn_put ''hi'' (sys_conn demo1)), sys_in := [''hi''],
                 sys_send := (\<lambda>i. if i = 0 then S_wake else S_idle)\<rparr>"

lemma demo1_reach: "reach is_conn_init conn_step demo1"
proof -
  let ?c1 = "demo_conn\<lparr>lws_ctx := True, attempt_failed := False\<rparr>"
  let ?s1 = "demo0\<lparr>sys_pc := P_connect, sys_conn := ?c1\<rparr>"
  have demo0: "sys_pc demo0 = P_top" "sys_conn demo0 = demo_conn" "\<not> sys_armed demo0" "\<not> sys_cancel demo0"
    "\<not> should_stop demo_conn"
    by (simp_all add: demo0_def conn_init_def demo_conn_def new_conn_def)
  have "reach is_conn_init conn_step demo0"
    by (rule reach.start) (auto simp: is_conn_init_def demo0_def)
  moreover have "conn_step demo0 ?s1" using conn_step.context_made [of demo0] demo0 by simp
  moreover have "conn_step ?s1 (?s1\<lparr>sys_pc := P_service\<rparr>)" by (rule conn_step.connecting) simp
  moreover have "conn_step (?s1\<lparr>sys_pc := P_service\<rparr>) (demo1\<lparr>sys_pc := P_hello\<rparr>)"
    using conn_step.established [of "?s1\<lparr>sys_pc := P_service\<rparr>" 7] demo0
    by (simp add: demo1_def demo_conn_def new_conn_def demo0_def conn_init_def)
  moreover have "conn_step (demo1\<lparr>sys_pc := P_hello\<rparr>) (demo1\<lparr>sys_armed := True\<rparr>)"
  proof -
    have "leo_proto_build_hello mute_env c n = None" for c n
      by (simp add: leo_proto_build_hello_def serialize_def mute_env_def)
    then show ?thesis
      using conn_step.hello [of "demo1\<lparr>sys_pc := P_hello\<rparr>" None mute_env]
      by (simp add: queue_hello_def send_check_def demo1_def demo0_def conn_init_def)
  qed
  moreover have "conn_step (demo1\<lparr>sys_armed := True\<rparr>) demo1"
    using conn_step.writeable_idle [of "demo1\<lparr>sys_armed := True\<rparr>"] demo0
    by (simp add: conn_get_def demo1_def demo_conn_def new_conn_def mark_established_def)
       (simp add: demo0_def conn_init_def)
  ultimately show ?thesis by (meson reach.move)
qed

lemma demo2_reach: "reach is_conn_init conn_step demo2"
proof -
  let ?s = "demo1\<lparr>sys_send := (sys_send demo1)(0 := S_checked ''hi'')\<rparr>"
  have "conn_step demo1 ?s"
    by (rule conn_step.send_checked [of _ _ "''hi''"])
       (simp_all add: demo1_def demo0_def conn_init_def send_check_def mark_established_def leo_sizes)
  moreover have "conn_step ?s demo2"
  proof -
    obtain c where "conn_put ''hi'' (sys_conn demo1) = Some c"
      by (simp add: conn_put_def demo1_def demo_conn_def new_conn_def mark_established_def)
    then show ?thesis
      using conn_step.send_queued [of ?s 0 "''hi''" c]
      by (simp add: demo2_def demo1_def demo0_def conn_init_def fun_upd_def cong: if_cong)
  qed
  ultimately show ?thesis using demo1_reach by (meson reach.move)
qed

lemma demo2_queue: "conn_queue (sys_conn demo2) = [''hi'']" "sys_in demo2 = [''hi'']" "sys_out demo2 = []"
  "sys_pc demo2 = P_service" "connected (sys_conn demo2)" "\<not> sys_armed demo2"
  by (simp_all add: demo2_def demo1_def demo_conn_def new_conn_def mark_established_def conn_put_def
      conn_queue_def demo0_def conn_init_def leo_sizes)

theorem send_queue_fifo_witness:
  "ring_wf demo_conn \<and>
   (\<exists>c. fifo_run conn_put conn_get [Fifo_Put ''a'', Fifo_Put ''b'', Fifo_Get] demo_conn = (c, [''a'', ''b''], [''a'']) \<and>
        conn_queue c = [''b''])"
proof -
  have wf: "ring_wf demo_conn" "conn_queue demo_conn = []" by (simp_all add: demo_conn_def)
  have "\<exists>c. fifo_run conn_put conn_get [Fifo_Put ''a'', Fifo_Put ''b'', Fifo_Get] demo_conn = (c, [''a'', ''b''], [''a''])"
    by (simp add: demo_conn_def new_conn_def conn_put_def conn_get_def leo_sizes)
  with wf send_queue_fifo [OF wf(1)] show ?thesis by fastforce
qed



theorem conn_freed_after_exit_witness:
  "\<exists>s. reach is_conn_init conn_step s \<and> sys_freed s \<and> sys_pc s = P_done"
proof -
  let ?s1 = "demo0\<lparr>sys_conn := (sys_conn demo0)\<lparr>should_stop := True\<rparr>, sys_cancel := sys_cancel demo0 \<or> lws_ctx (sys_conn demo0)\<rparr>"
  let ?s2 = "?s1\<lparr>sys_pc := P_exit\<rparr>"
  let ?s3 = "?s2\<lparr>sys_pc := P_done, sys_conn := (sys_conn ?s2)\<lparr>thread_exited := True\<rparr>\<rparr>"
  let ?s4 = "?s3\<lparr>sys_freed := True\<rparr>"
  have "reach is_conn_init conn_step demo0" by (rule reach.start) (auto simp: is_conn_init_def demo0_def)
  moreover have "conn_step demo0 ?s1" by (rule conn_step.stop_requested)
  moreover have "conn_step ?s1 ?s2" by (rule conn_step.stop_seen) (simp_all add: demo0_def conn_init_def)
  moreover have "conn_step ?s2 ?s3" by (rule conn_step.exiting) simp
  moreover have "conn_step ?s3 ?s4" by (rule conn_step.freed) (simp add: destroy_decide_def)
  ultimately have r: "reach is_conn_init conn_step ?s4" by (meson reach.move)
  with conn_freed_after_exit [OF r] show ?thesis by (intro exI [of _ ?s4]) simp
qed

theorem reconnect_delay_witness:
  "backoff_sleeps (\<lambda>k. k = 3) 60000 0 \<le> 3 \<and>
   reconnect_delay_ms (sys_conn demo2) \<in> set (map (\<lambda>k. 5000 * int k) [1..<13])"
  using reconnect_delay [of 0 "\<lambda>k. k = 3" 3 60000 demo2] demo2_reach by blast


theorem established_queues_hello_witness:
  "conn_queue (fst (snd (lws_callback (mute_env\<lparr>print_json := (\<lambda>_. Some ''{}'')\<rparr>) toy_openssl (sys_conn demo2) 9
     CLIENT_ESTABLISHED))) = [''hi'', ''{}'']"
proof -
  let ?env = "mute_env\<lparr>print_json := (\<lambda>_. Some ''{}'')\<rparr>"
  have b: "leo_proto_build_hello ?env cfg LEO_MAX_MSG_SIZE = Some ''{}''" for cfg
    by (simp add: leo_proto_build_hello_def serialize_def leo_sizes)
  have wf: "ring_wf (sys_conn demo2)"
    using connsys.always [OF demo2_reach] by (simp add: conn_inv_def queue_inv_def)
  obtain rc c eff where "lws_callback ?env toy_openssl (sys_conn demo2) 9 CLIENT_ESTABLISHED = (rc, c, eff)"
    by (metis prod_cases3)
  with established_queues_hello [OF wf b _ this] show ?thesis by (simp add: demo2_queue)
qed

theorem parse_endpoint_roundtrip_witness:
  "parse_endpoint (''wss://'' @ ''srv'' @ COLON # show_nat 8443 @ ''/ws'') 256 256 =
     Some \<lparr>ep_host = ''srv'', ep_port = 8443, ep_path = ''/ws''\<rparr>"
  using parse_endpoint_roundtrip [of "''srv''" 8443 "''/ws''"] by (simp add: host_ok_def)

end
