(* ===== verification/File_Transfer.thy ===== *)
theory File_Transfer
  imports Connection
begin

text \<open>
  \<^verbatim>\<open>agent/src/file_transfer.c\<close>: downloading a file to the work directory. The HTTP client's callbacks
  are \<open>dl_callback\<close>; one turn of the service loop is a \<open>dl_turn\<close> (the callbacks made, the return code of
  \<^verbatim>\<open>lws_service\<close>, the clock). The part file is an entry of the file store, SHA-256 is an argument, and
  each progress report is sent with \<open>leo_conn_send\<close>, the \<open>k\<close>-th one drawing on \<open>envs k\<close>.
\<close>

definition DL_WRITE_TIMEOUT_SEC_MIN :: int where "DL_WRITE_TIMEOUT_SEC_MIN = 30"

definition E_ACUTE :: cstring where "E_ACUTE = [CHR 0xC3, CHR 0xA9]"

section \<open>Names and directories\<close>

text \<open>\<open>_ensure_workdir\<close>: the directories asked for, up to the first refusal. \<open>i\<close> is the offset of
  \<^verbatim>\<open>p\<close> in \<^verbatim>\<open>tmp\<close>.\<close>

definition is_sep :: "char \<Rightarrow> bool" where
  "is_sep c \<longleftrightarrow> c = CHR ''/'' \<or> c = CHR 0x5C"

function workdir_loop :: "(cstring \<Rightarrow> bool) \<Rightarrow> cstring \<Rightarrow> nat \<Rightarrow> bool" where
  "workdir_loop mk tmp i =
     (if i < length tmp then
        (if is_sep (tmp ! i) \<and> \<not> mk (take i tmp) then False else workdir_loop mk tmp (Suc i))
      else mk tmp)"
  by pat_completeness auto
termination by (relation "measure (\<lambda>(c, tmp, i). length tmp - i)") auto

declare workdir_loop.simps [simp del]

definition ensure_workdir :: "cstring \<Rightarrow> (cstring \<Rightarrow> bool) \<Rightarrow> bool" where
  "ensure_workdir workdir mk =
     (let tmp = strncpy_buf 512 workdir;
          tmp = (if tmp \<noteq> [] \<and> is_sep (last tmp) then butlast tmp else tmp)
      in workdir_loop mk tmp 1)"

definition filename_valid :: "cstring \<Rightarrow> bool" where
  "filename_valid name =
     (if length name = 0 \<or> LEO_FILE_NAME_MAX_LEN \<le> length name then False
      else if strstr name ''..'' then False
      else list_all (\<lambda>c. \<not> is_sep c) name)"

section \<open>The download\<close>

record dl_report =
  rp_status :: leo_file_transfer_status
  rp_percent :: int
  rp_received :: u64
  rp_total :: u64
  rp_error :: "cstring option"

record dl_ctx =
  dl_file :: string                \<comment> \<open>what \<^verbatim>\<open>fp\<close> has been given\<close>
  dl_hashed :: string              \<comment> \<open>what \<^verbatim>\<open>mdctx\<close> has digested\<close>
  bytes_received :: u64
  bytes_total :: u64
  last_reported_pct :: int
  dl_conn :: "leo_conn option"
  dl_cmd_id :: cstring
  http_status :: int
  dl_timeout_secs :: int
  dl_done :: bool
  dl_failed :: bool
  dl_err_buf :: cstring
  dl_reports :: "dl_report list"   \<comment> \<open>the reports made so far\<close>

definition dl_percent :: "u64 \<Rightarrow> u64 \<Rightarrow> int" where
  "dl_percent received tot = (if tot = 0 then 0 else wrap32 (int (unat (received * 100 div tot))))"

definition report_progress ::
  "(nat \<Rightarrow> proto_env) \<Rightarrow> leo_file_transfer_status \<Rightarrow> cstring option \<Rightarrow> dl_ctx \<Rightarrow> dl_ctx" where
  "report_progress envs status err dl =
     (let pct = dl_percent (bytes_received dl) (bytes_total dl);
          msg = leo_proto_build_file_transfer_progress (envs (length (dl_reports dl))) (Some (dl_cmd_id dl)) status pct
                  (bytes_received dl) (bytes_total dl) err 1024;
          dl = dl\<lparr>dl_reports := dl_reports dl @
                 [\<lparr>rp_status = status, rp_percent = pct, rp_received = bytes_received dl,
                   rp_total = bytes_total dl, rp_error = err\<rparr>]\<rparr>
      in case msg of
           None \<Rightarrow> dl
         | Some m \<Rightarrow> if m = [] then dl
                     else dl\<lparr>dl_conn := fst (snd (leo_conn_send (dl_conn dl) (Some m) (length m)))\<rparr>)"

text \<open>The reasons the callback handles. A read carries the bytes and how many \<^verbatim>\<open>fwrite\<close> stored;
  \<open>Content-Length\<close> is what \<^verbatim>\<open>strtoull\<close> made of the header, when there was one.\<close>

datatype dl_reason =
    DL_Connection_Error cstring
  | DL_Established int "u64 option"
  | DL_Receive bool
  | DL_Read string nat cstring
  | DL_Completed
  | DL_Closed
  | DL_Timer
  | DL_Other

definition MSG_CONNECT :: cstring where
  "MSG_CONNECT = ''Connexion au serveur de fichiers '' @ E_ACUTE @ ''chou'' @ E_ACUTE @ ''e : ''"

definition MSG_HTTP :: "int \<Rightarrow> cstring" where
  "MSG_HTTP st = ''R'' @ E_ACUTE @ ''ponse HTTP '' @ show_int st @ '' du serveur de fichiers''"

definition MSG_WRITE :: cstring where
  "MSG_WRITE = [CHR 0xC3, CHR 0x89] @ ''criture disque '' @ E_ACUTE @ ''chou'' @ E_ACUTE @ ''e : ''"

definition MSG_TIMEOUT :: "int \<Rightarrow> cstring" where
  "MSG_TIMEOUT t = ''Timeout du transfert ('' @ show_int t @ ''s)''"

text \<open>The callback: the return code (0 stands for what \<^verbatim>\<open>lws_callback_http_dummy\<close> returns) and the
  context.\<close>

definition dl_callback :: "(nat \<Rightarrow> proto_env) \<Rightarrow> dl_ctx \<Rightarrow> dl_reason \<Rightarrow> int \<times> dl_ctx" where
  "dl_callback envs dl reason =
     (case reason of
        DL_Connection_Error msg \<Rightarrow>
          (0, dl\<lparr>dl_err_buf := strncpy_buf 256 (MSG_CONNECT @ msg), dl_failed := True, dl_done := True\<rparr>)
      | DL_Established status clen \<Rightarrow>
          let dl = dl\<lparr>http_status := status\<rparr>;
              dl = (if bytes_total dl = 0
                    then (case clen of Some n \<Rightarrow> dl\<lparr>bytes_total := n\<rparr> | None \<Rightarrow> dl) else dl);
              dl = (if http_status dl \<noteq> 200
                    then dl\<lparr>dl_err_buf := strncpy_buf 256 (MSG_HTTP (http_status dl)), dl_failed := True\<rparr> else dl)
          in (0, dl)
      | DL_Receive ok \<Rightarrow> (if ok then 0 else - 1, dl)
      | DL_Read bs stored strerr \<Rightarrow>
          if bs \<noteq> [] \<and> \<not> dl_failed dl then
            if stored < length bs
            then (- 1, dl\<lparr>dl_file := dl_file dl @ take stored bs,
                          dl_err_buf := strncpy_buf 256 (MSG_WRITE @ strerr), dl_failed := True\<rparr>)
            else
              let dl = dl\<lparr>dl_file := dl_file dl @ bs, dl_hashed := dl_hashed dl @ bs,
                          bytes_received := bytes_received dl + of_nat (length bs)\<rparr>;
                  pct = dl_percent (bytes_received dl) (bytes_total dl)
              in if last_reported_pct dl + 10 \<le> pct \<or>
                    (bytes_total dl = 0 \<and> bytes_received dl mod 1048576 < of_nat (length bs))
                 then (0, report_progress envs LEO_FILE_TRANSFER_DOWNLOADING None (dl\<lparr>last_reported_pct := pct\<rparr>))
                 else (0, dl)
          else (0, dl)
      | DL_Completed \<Rightarrow> (0, dl\<lparr>dl_done := True\<rparr>)
      | DL_Closed \<Rightarrow> (0, dl\<lparr>dl_done := True\<rparr>)
      | DL_Timer \<Rightarrow>
          (0, dl\<lparr>dl_failed := True, dl_done := True,
                 dl_err_buf := strncpy_buf 256 (MSG_TIMEOUT (dl_timeout_secs dl))\<rparr>)
      | DL_Other \<Rightarrow> (0, dl))"

definition dl_callbacks :: "(nat \<Rightarrow> proto_env) \<Rightarrow> dl_reason list \<Rightarrow> dl_ctx \<Rightarrow> dl_ctx" where
  "dl_callbacks envs rs dl = fold (\<lambda>r dl. snd (dl_callback envs dl r)) rs dl"

record dl_turn =
  tn_calls :: "dl_reason list"
  tn_service_ok :: bool   \<comment> \<open>\<^verbatim>\<open>lws_service\<close> returned a non-negative value\<close>
  tn_now :: int           \<comment> \<open>\<^verbatim>\<open>tv_sec\<close> of the clock after it\<close>

definition MSG_CLIENT :: cstring where "MSG_CLIENT = ''Erreur du client HTTP pendant le transfert''"

text \<open>The loop \<^verbatim>\<open>while (!dl.done)\<close>; \<open>None\<close> when the turns run out first.\<close>

fun dl_loop ::
  "(nat \<Rightarrow> proto_env) \<Rightarrow> int \<Rightarrow> int \<Rightarrow> dl_turn list \<Rightarrow> dl_ctx \<Rightarrow> (leo_error \<times> dl_ctx) option" where
  "dl_loop envs timeout deadline [] dl = (if dl_done dl then Some (LEO_OK, dl) else None)"
| "dl_loop envs timeout deadline (t # ts) dl =
     (if dl_done dl then Some (LEO_OK, dl)
      else
        let dl = dl_callbacks envs (tn_calls t) dl in
        if \<not> tn_service_ok t
        then Some (LEO_OK, dl\<lparr>dl_failed := True, dl_err_buf := strncpy_buf 256 MSG_CLIENT\<rparr>)
        else if deadline < tn_now t
        then Some (LEO_ERR_TIMEOUT, dl\<lparr>dl_failed := True, dl_err_buf := strncpy_buf 256 (MSG_TIMEOUT timeout)\<rparr>)
        else dl_loop envs timeout deadline ts dl)"

section \<open>The transfer\<close>

text \<open>What the surroundings answer, besides the turns of the loop; \<open>ft_workdir\<close> is \<^verbatim>\<open>LEO_WORKDIR\<close>, which the
  header defines for each system.\<close>

record ft_env =
  ft_workdir :: cstring
  ft_can_mkdir :: "cstring \<Rightarrow> bool"
  ft_can_open :: "cstring \<Rightarrow> bool"
  ft_digest_ok :: bool
  ft_context_ok :: bool
  ft_connect_ok :: bool
  ft_now :: int
  ft_turns :: "dl_turn list"
  ft_flushed :: "string \<Rightarrow> string" \<comment> \<open>on disk after \<^verbatim>\<open>fclose\<close>, of the bytes \<^verbatim>\<open>fwrite\<close> took\<close>
  ft_rename_ok :: bool
  ft_sha256 :: "string \<Rightarrow> 8 word list"
  ft_strerror :: cstring
  ft_protos :: "nat \<Rightarrow> proto_env"

record ft_result =
  ft_ret :: leo_error
  ft_files :: fs
  ft_final_path :: "cstring option"
  ft_err :: cstring
  ft_dl :: "dl_ctx option"

definition part_path :: "cstring \<Rightarrow> cstring \<Rightarrow> cstring" where
  "part_path workdir cmd_id = strncpy_buf 600 (workdir @ cmd_id @ ''.part'')"

definition final_path :: "cstring \<Rightarrow> cstring \<Rightarrow> cstring" where
  "final_path workdir filename = strncpy_buf 600 (workdir @ filename)"

definition new_dl :: "leo_conn option \<Rightarrow> u64 \<Rightarrow> cstring \<Rightarrow> dl_ctx" where
  "new_dl conn expected_size cmd_id =
     \<lparr>dl_file = [], dl_hashed = [], bytes_received = 0, bytes_total = expected_size, last_reported_pct = 0,
      dl_conn = conn, dl_cmd_id = strncpy_buf LEO_UUID_STR_LEN cmd_id, http_status = 0, dl_timeout_secs = 0,
      dl_done = False, dl_failed = False, dl_err_buf = [], dl_reports = []\<rparr>"

text \<open>\<^verbatim>\<open>digest_hex\<close>: at most 32 bytes of the digest.\<close>

definition digest_hex :: "8 word list \<Rightarrow> cstring" where
  "digest_hex digest = bytes_to_hex (take 32 digest)"

definition MSG_SHA :: "cstring \<Rightarrow> cstring \<Rightarrow> cstring" where
  "MSG_SHA expected got = ''Empreinte SHA-256 non correspondante (attendue '' @ expected @ '', obtenue '' @ got @ '')''"

definition MSG_RENAME :: "cstring \<Rightarrow> cstring" where
  "MSG_RENAME path = ''Renommage vers '' @ [CHR 0x27] @ path @ [CHR 0x27] @ '' '' @ E_ACUTE @ ''chou'' @ E_ACUTE @ '' : ''"

text \<open>The end of \<^verbatim>\<open>leo_file_transfer_run\<close>, once the loop is over: failure, verification, renaming.\<close>

definition ft_finish ::
  "ft_env \<Rightarrow> fs \<Rightarrow> cstring \<Rightarrow> cstring \<Rightarrow> cstring option \<Rightarrow> nat \<Rightarrow> nat \<Rightarrow> leo_error \<Rightarrow> dl_ctx \<Rightarrow> ft_result" where
  "ft_finish env files part filename expected path_sz err_sz rc dl =
     (let report = report_progress (ft_protos env);
          files = files(part \<mapsto> ft_flushed env (dl_file dl));
          removed = files(part := None)
      in if dl_failed dl \<or> http_status dl \<noteq> 200 then
           let err = strncpy_buf err_sz (dl_err_buf dl) in
           \<lparr>ft_ret = (if rc \<noteq> LEO_OK then rc else LEO_ERR_NETWORK), ft_files = removed, ft_final_path = None,
            ft_err = err, ft_dl = Some (report LEO_FILE_TRANSFER_FAILED (Some err) dl)\<rparr>
         else
           let dl = report LEO_FILE_TRANSFER_VERIFYING None dl;
               hex = digest_hex (ft_sha256 env (dl_hashed dl))
           in if (case expected of Some x \<Rightarrow> x \<noteq> [] \<and> \<not> strcasecmp_eq hex x | None \<Rightarrow> False) then
                let err = strncpy_buf err_sz (MSG_SHA (the expected) hex) in
                \<lparr>ft_ret = LEO_ERR_PROTOCOL, ft_files = removed, ft_final_path = None, ft_err = err,
                 ft_dl = Some (report LEO_FILE_TRANSFER_FAILED (Some err) dl)\<rparr>
              else
                let final = final_path (ft_workdir env) filename in
                if \<not> ft_rename_ok env then
                  let err = strncpy_buf err_sz (MSG_RENAME final @ ft_strerror env) in
                  \<lparr>ft_ret = LEO_ERR_SYSTEM, ft_files = removed, ft_final_path = None, ft_err = err,
                   ft_dl = Some (report LEO_FILE_TRANSFER_FAILED (Some err) dl)\<rparr>
                else
                  \<lparr>ft_ret = LEO_OK, ft_files = removed(final \<mapsto> ft_flushed env (dl_file dl)),
                   ft_final_path = Some (strncpy_buf path_sz final), ft_err = [],
                   ft_dl = Some (report LEO_FILE_TRANSFER_COMPLETED None (dl\<lparr>last_reported_pct := 100\<rparr>))\<rparr>)"

definition ft_early :: "leo_error \<Rightarrow> fs \<Rightarrow> nat \<Rightarrow> cstring \<Rightarrow> dl_ctx option \<Rightarrow> ft_result" where
  "ft_early e files err_sz msg dl =
     \<lparr>ft_ret = e, ft_files = files, ft_final_path = None, ft_err = strncpy_buf err_sz msg, ft_dl = dl\<rparr>"

definition MSG_WORKDIR :: "cstring \<Rightarrow> cstring" where
  "MSG_WORKDIR workdir = ''Impossible de cr'' @ E_ACUTE @ ''er le r'' @ E_ACUTE @ ''pertoire de travail ('' @ workdir @ '')''"

definition MSG_CREATE :: "cstring \<Rightarrow> cstring" where
  "MSG_CREATE p = ''Impossible de cr'' @ E_ACUTE @ ''er '' @ [CHR 0x27] @ p @ [CHR 0x27] @ '' : ''"

definition MSG_HOST :: "cstring \<Rightarrow> int \<Rightarrow> cstring" where
  "MSG_HOST host port = ''Connexion au serveur de fichiers '' @ E_ACUTE @ ''chou'' @ E_ACUTE @ ''e ('' @ host @ '':'' @ show_int port @ '')''"

definition effective_timeout :: "int \<Rightarrow> int" where
  "effective_timeout t = (if DL_WRITE_TIMEOUT_SEC_MIN < t then t else DL_WRITE_TIMEOUT_SEC_MIN)"

definition leo_file_transfer_run ::
  "ft_env \<Rightarrow> fs \<Rightarrow> leo_conn option \<Rightarrow> cstring \<Rightarrow> cstring \<Rightarrow> cstring \<Rightarrow> cstring option \<Rightarrow> u64 \<Rightarrow> int \<Rightarrow> nat \<Rightarrow> nat \<Rightarrow>
   ft_result option" where
  "leo_file_transfer_run env files conn cmd_id url filename expected expected_size timeout_secs path_sz err_sz =
     (if \<not> filename_valid filename
      then Some (ft_early LEO_ERR_PROTOCOL files err_sz ''Nom de fichier invalide'' None)
      else case leo_http_parse_url url 256 (Some LEO_FILE_URL_MAX_LEN) of
        None \<Rightarrow> Some (ft_early LEO_ERR_PROTOCOL files err_sz (''URL de t'' @ E_ACUTE @ ''l'' @ E_ACUTE @ ''chargement invalide'') None)
      | Some (use_ssl, e) \<Rightarrow>
          if \<not> ensure_workdir (ft_workdir env) (ft_can_mkdir env)
          then Some (ft_early LEO_ERR_SYSTEM files err_sz (MSG_WORKDIR (ft_workdir env)) None)
          else
            let part = part_path (ft_workdir env) cmd_id; dl = new_dl conn expected_size cmd_id in
            if \<not> ft_can_open env part
            then Some (ft_early LEO_ERR_SYSTEM files err_sz (MSG_CREATE part @ ft_strerror env) None)
            else if \<not> ft_digest_ok env
            then Some (ft_early LEO_ERR_SYSTEM (files(part := None)) err_sz (''Initialisation SHA-256 '' @ E_ACUTE @ ''chou'' @ E_ACUTE @ ''e'') None)
            else
              let dl = report_progress (ft_protos env) LEO_FILE_TRANSFER_DOWNLOADING None dl in
              if \<not> ft_context_ok env
              then Some (ft_early LEO_ERR_NETWORK (files(part := None)) err_sz (''Impossible de cr'' @ E_ACUTE @ ''er le contexte HTTP libwebsockets'') (Some dl))
              else if \<not> ft_connect_ok env
              then Some (ft_early LEO_ERR_NETWORK (files(part := None)) err_sz (MSG_HOST (ep_host e) (ep_port e)) (Some dl))
              else
                let t = effective_timeout timeout_secs; dl = dl\<lparr>dl_timeout_secs := t\<rparr> in
                map_option (\<lambda>(rc, dl). ft_finish env files part filename expected path_sz err_sz rc dl)
                  (dl_loop (ft_protos env) t (ft_now env + t) (ft_turns env) dl))"

section \<open>What the callbacks keep\<close>

text \<open>The bytes the server sent, over a sequence of callbacks.\<close>

definition dl_reads :: "dl_reason list \<Rightarrow> string" where
  "dl_reads rs = concat (List.map_filter (\<lambda>r. case r of DL_Read bs _ _ \<Rightarrow> Some bs | _ \<Rightarrow> None) rs)"

lemma dl_reads_simps [simp]:
  "dl_reads [] = []"
  "dl_reads (r # rs) = (case r of DL_Read bs _ _ \<Rightarrow> bs | _ \<Rightarrow> []) @ dl_reads rs"
  "dl_reads (xs @ ys) = dl_reads xs @ dl_reads ys"
  by (simp_all add: dl_reads_def List.map_filter_def split: dl_reason.splits)

text \<open>A report touches the list of reports and the connection only.\<close>

lemma report_progress_keeps [simp]:
  "dl_file (report_progress envs st err dl) = dl_file dl"
  "dl_hashed (report_progress envs st err dl) = dl_hashed dl"
  "bytes_received (report_progress envs st err dl) = bytes_received dl"
  "bytes_total (report_progress envs st err dl) = bytes_total dl"
  "http_status (report_progress envs st err dl) = http_status dl"
  "dl_failed (report_progress envs st err dl) = dl_failed dl"
  "dl_done (report_progress envs st err dl) = dl_done dl"
  "dl_err_buf (report_progress envs st err dl) = dl_err_buf dl"
  "last_reported_pct (report_progress envs st err dl) = last_reported_pct dl"
  by (auto simp: report_progress_def Let_def split: option.splits)

text \<open>Unless the download has failed, the file, the digest and the counter agree.\<close>

definition dl_inv :: "dl_ctx \<Rightarrow> bool" where
  "dl_inv dl \<longleftrightarrow>
     (dl_failed dl \<or> (dl_file dl = dl_hashed dl \<and> bytes_received dl = of_nat (length (dl_hashed dl))))"

lemma dl_callback_inv: "dl_inv dl \<Longrightarrow> dl_inv (snd (dl_callback envs dl r))"
  by (auto simp: dl_callback_def dl_inv_def Let_def split: dl_reason.splits option.splits)

lemma dl_callback_failed: "dl_failed dl \<Longrightarrow> dl_failed (snd (dl_callback envs dl r))"
  by (auto simp: dl_callback_def Let_def split: dl_reason.splits option.splits)

lemma dl_callback_hashed:
  "\<not> dl_failed (snd (dl_callback envs dl r)) \<Longrightarrow>
   dl_hashed (snd (dl_callback envs dl r)) = dl_hashed dl @ dl_reads [r]"
  by (auto simp: dl_callback_def Let_def split: dl_reason.splits option.splits if_splits)

lemma dl_callbacks_Cons [simp]:
  "dl_callbacks envs [] dl = dl"
  "dl_callbacks envs (r # rs) dl = dl_callbacks envs rs (snd (dl_callback envs dl r))"
  by (simp_all add: dl_callbacks_def)

lemma dl_callbacks_inv: "dl_inv dl \<Longrightarrow> dl_inv (dl_callbacks envs rs dl)"
  by (induction rs arbitrary: dl) (auto intro: dl_callback_inv)

lemma dl_callbacks_failed: "dl_failed dl \<Longrightarrow> dl_failed (dl_callbacks envs rs dl)"
  by (induction rs arbitrary: dl) (auto intro: dl_callback_failed)

lemma dl_callbacks_hashed:
  "\<not> dl_failed (dl_callbacks envs rs dl) \<Longrightarrow> dl_hashed (dl_callbacks envs rs dl) = dl_hashed dl @ dl_reads rs"
proof (induction rs arbitrary: dl)
  case (Cons r rs)
  let ?dl = "snd (dl_callback envs dl r)"
  have "\<not> dl_failed ?dl" using Cons.prems dl_callbacks_failed by force
  from dl_callback_hashed [OF this] Cons show ?case by simp
qed simp

lemma dl_loop_success:
  assumes "dl_loop envs timeout deadline ts dl = Some (rc, dl')" "\<not> dl_failed dl'" "dl_inv dl"
  shows "rc = LEO_OK \<and> dl_done dl' \<and> dl_inv dl' \<and>
         (\<exists>k. dl_hashed dl' = dl_hashed dl @ dl_reads (concat (map tn_calls (take k ts))))"
  using assms
proof (induction ts arbitrary: dl)
  case Nil
  then show ?case by (auto split: if_splits)
next
  case (Cons t ts)
  let ?dl = "dl_callbacks envs (tn_calls t) dl"
  show ?case
  proof (cases "dl_done dl")
    case True
    with Cons.prems show ?thesis by (auto intro: exI [of _ 0])
  next
    case False
    with Cons.prems have loop: "dl_loop envs timeout deadline ts ?dl = Some (rc, dl')"
      by (auto simp: Let_def split: if_splits)
    have nf: "\<not> dl_failed ?dl"
    proof
      assume "dl_failed ?dl"
      with loop have "dl_failed dl'"
        by (induction ts arbitrary: dl t)
           (auto simp: Let_def split: if_splits dest: dl_callbacks_failed)
      with Cons.prems(2) show False by simp
    qed
    from Cons.IH [OF loop Cons.prems(2) dl_callbacks_inv [OF Cons.prems(3)]] obtain k where
      "rc = LEO_OK" "dl_done dl'" "dl_inv dl'"
      "dl_hashed dl' = dl_hashed ?dl @ dl_reads (concat (map tn_calls (take k ts)))" by blast
    with dl_callbacks_hashed [OF nf] show ?thesis by (auto intro!: exI [of _ "Suc k"])
  qed
qed

lemma dl_loop_returns:
  "\<exists>t \<in> set ts. \<not> tn_service_ok t \<or> deadline < tn_now t \<Longrightarrow> \<exists>x. dl_loop envs timeout deadline ts dl = Some x"
  by (induction ts arbitrary: dl) (auto simp: Let_def)

section \<open>What a transfer does to the disk\<close>

lemma ft_finish_cases:
  assumes "r = ft_finish env files part filename expected path_sz err_sz rc dl"
  shows "(ft_ret r \<noteq> LEO_OK \<and> ft_files r = files(part := None)) \<or>
         (ft_ret r = LEO_OK \<and> ft_files r = (files(part := None))(final_path (ft_workdir env) filename \<mapsto> ft_flushed env (dl_file dl)) \<and>
          \<not> dl_failed dl \<and> http_status dl = 200 \<and>
          (\<forall>x. expected = Some x \<and> x \<noteq> [] \<longrightarrow> strcasecmp_eq (digest_hex (ft_sha256 env (dl_hashed dl))) x))"
  using assms by (auto simp: ft_finish_def Let_def split: if_splits option.splits)

text \<open>The start of a transfer: it ends early, touching at most the part file, or the loop runs.\<close>

lemma ft_run_cases:
  assumes "leo_file_transfer_run env files conn cmd_id url filename expected sz t psz esz = Some r"
  obtains (early) "ft_ret r \<noteq> LEO_OK" "ft_files r = files \<or> ft_files r = files(part_path (ft_workdir env) cmd_id := None)"
  | (late) rc dl dl0 where "filename_valid filename" "dl_inv dl0" "dl_hashed dl0 = []"
      "dl_loop (ft_protos env) (effective_timeout t) (ft_now env + effective_timeout t) (ft_turns env) dl0 = Some (rc, dl)"
      "r = ft_finish env files (part_path (ft_workdir env) cmd_id) filename expected psz esz rc dl"
proof -
  let ?dl = "(report_progress (ft_protos env) LEO_FILE_TRANSFER_DOWNLOADING None (new_dl conn sz cmd_id))
               \<lparr>dl_timeout_secs := effective_timeout t\<rparr>"
  have "dl_inv ?dl" "dl_hashed ?dl = []" by (simp_all add: dl_inv_def new_dl_def)
  with assms early late show thesis
    unfolding leo_file_transfer_run_def Let_def ft_early_def by (auto split: if_splits option.splits)
qed

text \<open>The work directories of both systems.\<close>

definition workdir_ok :: "cstring \<Rightarrow> bool" where
  "workdir_ok wd \<longleftrightarrow> wd \<in> {LEO_WORKDIR, WIN_WORKDIR}"

lemma filename_valid_path:
  "filename_valid f \<Longrightarrow> workdir_ok wd \<Longrightarrow> final_path wd f = wd @ f"
  by (auto simp: workdir_ok_def filename_valid_def final_path_def leo_sizes LEO_WORKDIR_def WIN_WORKDIR_def
      intro!: strncpy_buf_id split: if_splits)


text \<open>C17: a transfer touches two paths at most: the part file, and the final name, which lies
  directly in the work directory, on either system: it is the directory followed by a name of 1 to 254 characters
  without separators and without two dots in a row. Any other name is refused before anything is
  touched.\<close>

theorem file_transfer_contained:
  assumes "leo_file_transfer_run env files conn cmd_id url filename expected sz t psz esz = Some r" "workdir_ok (ft_workdir env)"
  shows "(\<forall>p. ft_files r p \<noteq> files p \<longrightarrow>
            p = part_path (ft_workdir env) cmd_id \<or>
            (p = ft_workdir env @ filename \<and> filename \<noteq> [] \<and> length filename < 255 \<and>
             CHR ''/'' \<notin> set filename \<and> CHR 0x5C \<notin> set filename \<and> \<not> (\<exists>a b. filename = a @ ''..'' @ b))) \<and>
         (\<not> filename_valid filename \<longrightarrow> ft_ret r = LEO_ERR_PROTOCOL \<and> ft_files r = files)"
proof
  show "\<forall>p. ft_files r p \<noteq> files p \<longrightarrow>
            p = part_path (ft_workdir env) cmd_id \<or>
            (p = ft_workdir env @ filename \<and> filename \<noteq> [] \<and> length filename < 255 \<and>
             CHR ''/'' \<notin> set filename \<and> CHR 0x5C \<notin> set filename \<and> \<not> (\<exists>a b. filename = a @ ''..'' @ b))"
    using assms(1)
  proof (cases rule: ft_run_cases)
    case early
    then show ?thesis by (auto split: if_splits)
  next
    case (late rc dl dl0)
    have "filename \<noteq> []" "length filename < 255" "CHR ''/'' \<notin> set filename" "CHR 0x5C \<notin> set filename"
      "\<not> (\<exists>a b. filename = a @ ''..'' @ b)"
      using late(1) by (auto simp: filename_valid_def strstr_iff list_all_iff is_sep_def leo_sizes split: if_splits)
    with ft_finish_cases [OF late(5)] filename_valid_path [OF late(1) assms(2)] show ?thesis by (auto split: if_splits)
  qed
  show "\<not> filename_valid filename \<longrightarrow> ft_ret r = LEO_ERR_PROTOCOL \<and> ft_files r = files"
    using assms(1) by (auto simp: leo_file_transfer_run_def ft_early_def)
qed

text \<open>On Windows the first directory asked for is the drive itself: where \<^verbatim>\<open>CreateDirectoryA\<close> refuses it, as
  \<^verbatim>\<open>crypto_win.c\<close> assumes it does, no transfer ever starts.\<close>

theorem win_transfer_needs_drive:
  assumes "ft_workdir env = WIN_WORKDIR" "\<not> ft_can_mkdir env ''C:''" "filename_valid filename"
    and "leo_file_transfer_run env files conn cmd_id url filename expected sz t psz esz = Some r"
  shows "ft_ret r \<in> {LEO_ERR_PROTOCOL, LEO_ERR_SYSTEM} \<and> ft_files r = files"
proof -
  let ?tmp = "butlast WIN_WORKDIR"
  have tmp: "is_sep (last WIN_WORKDIR)" "strncpy_buf 512 WIN_WORKDIR = WIN_WORKDIR" "WIN_WORKDIR \<noteq> []"
    "?tmp ! 1 = CHR '':''" "is_sep (?tmp ! 2)" "take 2 ?tmp = ''C:''" "2 < length ?tmp"
    by (simp_all add: WIN_WORKDIR_def is_sep_def strncpy_buf_def)
  have "workdir_loop (ft_can_mkdir env) ?tmp 2 = False" using tmp assms(2) by (subst workdir_loop.simps) simp
  moreover have "workdir_loop (ft_can_mkdir env) ?tmp 1 = workdir_loop (ft_can_mkdir env) ?tmp 2"
    using tmp by (subst workdir_loop.simps) (simp add: is_sep_def numeral_2_eq_2)
  ultimately have "\<not> ensure_workdir (ft_workdir env) (ft_can_mkdir env)" using tmp assms(1) by (simp add: ensure_workdir_def)
  with assms show ?thesis by (auto simp: leo_file_transfer_run_def ft_early_def split: option.splits)
qed

text \<open>C22: a transfer ends: once the clock has passed the deadline (the timeout, but at least 30
  seconds, after the start) after some turn of the service loop, or \<^verbatim>\<open>lws_service\<close> failed, the call
  returns.\<close>

theorem file_transfer_ends:
  assumes "tn \<in> set (ft_turns env)" "\<not> tn_service_ok tn \<or> ft_now env + max 30 t < tn_now tn"
  shows "\<exists>r. leo_file_transfer_run env files conn cmd_id url filename expected sz t psz esz = Some r"
proof -
  have "effective_timeout t = max 30 t" by (simp add: effective_timeout_def DL_WRITE_TIMEOUT_SEC_MIN_def)
  with assms have "\<exists>tn \<in> set (ft_turns env). \<not> tn_service_ok tn \<or> ft_now env + effective_timeout t < tn_now tn" by auto
  from dl_loop_returns [OF this]
  have "\<exists>x. dl_loop (ft_protos env) (effective_timeout t) (ft_now env + effective_timeout t) (ft_turns env) dl = Some x" for dl .
  then obtain x where "dl_loop (ft_protos env) (effective_timeout t) (ft_now env + effective_timeout t) (ft_turns env)
      ((report_progress (ft_protos env) LEO_FILE_TRANSFER_DOWNLOADING None (new_dl conn sz cmd_id))
         \<lparr>dl_timeout_secs := effective_timeout t\<rparr>) = Some x" by blast
  then show ?thesis
    unfolding leo_file_transfer_run_def Let_def by (simp split: option.split prod.split)
qed

section \<open>Concrete instances\<close>

text \<open>A download of five bytes in two reads, of which the server announced ten.\<close>

definition demo_ft :: ft_env where
  "demo_ft =
     \<lparr>ft_workdir = LEO_WORKDIR, ft_can_mkdir = (\<lambda>_. True), ft_can_open = (\<lambda>_. True), ft_digest_ok = True, ft_context_ok = True,
      ft_connect_ok = True, ft_now = 100,
      ft_turns = [\<lparr>tn_calls = [DL_Established 200 (Some 10), DL_Read ''abc'' 3 [], DL_Read ''de'' 2 []],
                   tn_service_ok = True, tn_now = 101\<rparr>,
                  \<lparr>tn_calls = [DL_Closed], tn_service_ok = True, tn_now = 102\<rparr>],
      ft_flushed = (\<lambda>s. s), ft_rename_ok = True, ft_sha256 = (\<lambda>s. replicate 32 (of_nat (length s))), ft_strerror = [],
      ft_protos = (\<lambda>_. mute_env)\<rparr>"

lemma demo_ft_url: "leo_http_parse_url ''http://s/f'' 256 (Some LEO_FILE_URL_MAX_LEN) =
  Some (False, \<lparr>ep_host = ''s'', ep_port = 80, ep_path = ''/f''\<rparr>)"
  by (simp add: leo_http_parse_url_def http_scheme_def strprefix_def http_host_port_def Let_def
      http_path_out_def strncpy_buf_def leo_sizes)

lemma demo_ft_workdir: "ensure_workdir wd (\<lambda>_. True)"
proof -
  have "workdir_loop (\<lambda>_. True) tmp i" for tmp i
    by (induction "\<lambda>_ :: cstring. True" tmp i rule: workdir_loop.induct) (subst workdir_loop.simps, simp)
  then show ?thesis by (simp add: ensure_workdir_def Let_def)
qed

lemma mute_progress [simp]:
  "leo_proto_build_file_transfer_progress mute_env i s p a b e n = None"
  by (simp add: leo_proto_build_file_transfer_progress_def serialize_def mute_env_def)

lemma demo_paths: "final_path LEO_WORKDIR ''f'' = LEO_WORKDIR @ ''f''" "part_path LEO_WORKDIR ''c1'' = LEO_WORKDIR @ ''c1.part''" "filename_valid ''f''"
  by (simp_all add: final_path_def part_path_def strncpy_buf_def LEO_WORKDIR_def filename_valid_def leo_sizes
      strprefix_def is_sep_def)

lemma demo_percent: "dl_percent 3 10 = 30" "dl_percent 5 10 = 50"
  by (simp_all add: dl_percent_def wrap32_def)

lemma demo_ft_run:
  "\<exists>r. leo_file_transfer_run demo_ft Map.empty None ''c1'' ''http://s/f'' ''f'' None 0 30 600 256 = Some r \<and>
       ft_ret r = LEO_OK \<and> ft_files r = [LEO_WORKDIR @ ''f'' \<mapsto> ''abcde''] \<and>
       (\<exists>dl. ft_dl r = Some dl \<and> bytes_total dl = 10 \<and> bytes_received dl = 5)"
proof -
  let ?dl = "(report_progress (\<lambda>_. mute_env) LEO_FILE_TRANSFER_DOWNLOADING None (new_dl None 0 ''c1''))
         \<lparr>dl_timeout_secs := effective_timeout 30\<rparr>"
  let ?p = "ft_protos demo_ft"
  let ?d1 = "dl_callbacks ?p [DL_Established 200 (Some 10), DL_Read ''abc'' 3 [], DL_Read ''de'' 2 []] ?dl"
  have d1: "dl_file ?d1 = ''abcde''" "\<not> dl_failed ?d1" "http_status ?d1 = 200" "bytes_total ?d1 = 10" "bytes_received ?d1 = 5"
    "\<not> dl_done ?d1"
    by (simp_all add: dl_callback_def Let_def new_dl_def demo_percent)
  then obtain dl where loop: "dl_loop ?p (effective_timeout 30) (ft_now demo_ft + effective_timeout 30) (ft_turns demo_ft) ?dl =
      Some (LEO_OK, dl)" "dl_file dl = ''abcde''" "\<not> dl_failed dl" "http_status dl = 200" "bytes_total dl = 10" "bytes_received dl = 5"
  proof -
    have "dl_loop ?p (effective_timeout 30) (ft_now demo_ft + effective_timeout 30) (ft_turns demo_ft) ?dl =
      Some (LEO_OK, ?d1\<lparr>dl_done := True\<rparr>)"
      using d1 by (simp add: demo_ft_def effective_timeout_def DL_WRITE_TIMEOUT_SEC_MIN_def Let_def new_dl_def
          dl_callback_def [of _ _ DL_Closed] del: dl_callbacks_Cons) (simp add: dl_callback_def)
    with d1 that show thesis by simp
  qed
  have env: "ft_workdir demo_ft = LEO_WORKDIR" "ft_can_mkdir demo_ft = (\<lambda>_. True)" "ft_can_open demo_ft = (\<lambda>_. True)" "ft_digest_ok demo_ft" "ft_context_ok demo_ft"
    "ft_connect_ok demo_ft" "ft_flushed demo_ft = (\<lambda>s. s)" "ft_protos demo_ft = (\<lambda>_. mute_env)" "ft_rename_ok demo_ft" by (simp_all add: demo_ft_def)
  from loop show ?thesis
    unfolding leo_file_transfer_run_def Let_def demo_ft_url
    by (simp add: demo_paths demo_ft_workdir env ft_finish_def Let_def)
qed

text \<open>A download that the server cut short, five bytes of the ten it announced, is renamed to its
  final name and reported complete when the command carries no fingerprint: neither the announced
  nor the expected size is compared with what was received.\<close>

theorem short_download_accepted:
  "\<exists>env r dl. leo_file_transfer_run env Map.empty None ''c1'' ''http://s/f'' ''f'' None 0 30 600 256 = Some r \<and>
     ft_ret r = LEO_OK \<and> ft_dl r = Some dl \<and> bytes_received dl < bytes_total dl"
  using demo_ft_run by (intro exI [of _ demo_ft]) fastforce


theorem file_transfer_contained_witness:
  "\<exists>r :: ft_result. ft_files r = [LEO_WORKDIR @ ''f'' \<mapsto> ''abcde''] \<and>
       (\<forall>p. ft_files r p \<noteq> None \<longrightarrow> p = part_path LEO_WORKDIR ''c1'' \<or> p = LEO_WORKDIR @ ''f'')"
proof -
  obtain r where r: "leo_file_transfer_run demo_ft Map.empty None ''c1'' ''http://s/f'' ''f'' None 0 30 600 256 = Some r"
    "ft_files r = [LEO_WORKDIR @ ''f'' \<mapsto> ''abcde'']" using demo_ft_run by blast
  have "ft_workdir demo_ft = LEO_WORKDIR" "workdir_ok LEO_WORKDIR" by (simp_all add: demo_ft_def workdir_ok_def)
  with file_transfer_contained [OF r(1)] have "\<forall>p. ft_files r p \<noteq> None \<longrightarrow> p = part_path LEO_WORKDIR ''c1'' \<or> p = LEO_WORKDIR @ ''f''"
    by auto
  with r(2) show ?thesis by blast
qed

theorem file_transfer_ends_witness:
  "\<exists>r. leo_file_transfer_run (demo_ft\<lparr>ft_turns := [\<lparr>tn_calls = [DL_Other], tn_service_ok = True, tn_now = 131\<rparr>]\<rparr>)
         Map.empty None ''c1'' ''http://s/f'' ''f'' None 0 5 600 256 = Some r"
  by (rule file_transfer_ends [of "\<lparr>tn_calls = [DL_Other], tn_service_ok = True, tn_now = 131\<rparr>"])
     (simp_all add: demo_ft_def)

end
