(* ===== verification/Commands.thy ===== *)
theory Commands
  imports Patches File_Transfer
begin

text \<open>
  The first part of \<^verbatim>\<open>agent/src/agent.c\<close>: the agent's state, the context of a command, the checks on
  what the server sends, and the thread that runs one command (\<^verbatim>\<open>_exec_thread\<close>). Running a child
  process is \<open>Executor\<close>, installing updates \<open>Patches\<close>, transferring a file \<open>File_Transfer\<close>; what the
  operating system and the network answer to them is the record \<open>cmd_env\<close>.
\<close>

section \<open>State\<close>

definition LEO_EXEC_MAX_CONCURRENT :: int where "LEO_EXEC_MAX_CONCURRENT = 4"
definition LEO_EXEC_DEFAULT_TIMEOUT_SEC :: int where "LEO_EXEC_DEFAULT_TIMEOUT_SEC = 300"
definition LEO_EXEC_MAX_TIMEOUT_SEC :: int where "LEO_EXEC_MAX_TIMEOUT_SEC = 300"
definition LEO_PKG_NAME_MAX_LEN :: nat where "LEO_PKG_NAME_MAX_LEN = 128"
definition LEO_PKG_MAX_COUNT :: nat where "LEO_PKG_MAX_COUNT = 32"

lemmas agent_limits =
  LEO_EXEC_MAX_CONCURRENT_def LEO_EXEC_DEFAULT_TIMEOUT_SEC_def LEO_EXEC_MAX_TIMEOUT_SEC_def
  LEO_PKG_NAME_MAX_LEN_def LEO_PKG_MAX_COUNT_def

text \<open>\<^verbatim>\<open>struct leo_agent\<close>, without the thread handles, mutexes and conditions.\<close>

record leo_agent =
  ag_config :: leo_config
  ag_conn :: "leo_conn option"
  ag_state :: leo_agent_state
  threads_stop :: bool
  force_heartbeat_pending :: bool
  exec_active_count :: int

datatype exec_kind =
    EXEC_KIND_SCRIPT | EXEC_KIND_INSTALL_PKG | EXEC_KIND_REBOOT | EXEC_KIND_INSTALL_PATCHES
  | EXEC_KIND_FILE_TRANSFER

text \<open>\<open>pkg_names\<close> and \<open>patch_ids\<close> are the first \<^verbatim>\<open>pkg_count\<close> and \<^verbatim>\<open>patch_count\<close> rows of the arrays.\<close>

record exec_ctx =
  ctx_cmd_id :: cstring
  ctx_timeout_secs :: int
  ctx_kind :: exec_kind
  ctx_interpreter :: cstring
  ctx_script :: "cstring option"
  pkg_names :: "cstring list"
  reboot_delay_sec :: int
  patch_ids :: "cstring list"
  reboot_after :: bool
  download_url :: cstring
  file_name :: cstring
  sha256_hex :: cstring
  file_size :: u64

text \<open>The context \<^verbatim>\<open>calloc\<close> returns: every field zero, so that the kind is the first of the enumeration.\<close>

definition zero_ctx :: exec_ctx where
  "zero_ctx =
     \<lparr>ctx_cmd_id = [], ctx_timeout_secs = 0, ctx_kind = EXEC_KIND_SCRIPT, ctx_interpreter = [], ctx_script = None,
      pkg_names = [], reboot_delay_sec = 0, patch_ids = [], reboot_after = False, download_url = [],
      file_name = [], sha256_hex = [], file_size = 0\<rparr>"

section \<open>Checks\<close>

definition clamp_timeout :: "int \<Rightarrow> int" where
  "clamp_timeout timeout_secs =
     (if timeout_secs \<le> 0 then LEO_EXEC_DEFAULT_TIMEOUT_SEC
      else if LEO_EXEC_MAX_TIMEOUT_SEC < timeout_secs then LEO_EXEC_MAX_TIMEOUT_SEC
      else timeout_secs)"

text \<open>\<open>_json_number_clamped\<close>; \<open>None\<close> would be the undefined behaviour of the cast.\<close>

definition json_number_clamped :: "dbl \<Rightarrow> int \<Rightarrow> int \<Rightarrow> int option" where
  "json_number_clamped v lo hi =
     (if \<not> dbl_eq v v then Some lo
      else if dbl_lt v (dbl_of_int lo) then Some lo
      else if dbl_lt (dbl_of_int hi) v then Some hi
      else int_of_dbl v)"

definition name_char :: "char \<Rightarrow> bool" where
  "name_char c \<longleftrightarrow> isalnum c \<or> c \<in> {CHR ''.'', CHR ''+'', CHR ''-'', CHR ''_'', CHR '':''}"

definition pkg_name_valid :: "cstring \<Rightarrow> bool" where
  "pkg_name_valid name =
     (if length name = 0 \<or> LEO_PKG_NAME_MAX_LEN < length name then False else list_all name_char name)"

definition patch_id_valid :: "cstring \<Rightarrow> bool" where
  "patch_id_valid i =
     (if length i = 0 \<or> LEO_PATCH_ID_MAX_LEN \<le> length i then False else list_all name_char i)"

section \<open>Replies\<close>

text \<open>What a CMD_RESULT carries.\<close>

record cmd_reply =
  rep_cmd_id :: cstring
  rep_exit :: int
  rep_out :: cstring
  rep_err :: cstring

text \<open>\<^verbatim>\<open>if (wlen > 0) leo_conn_send(ag->conn, buf, wlen)\<close>; the error code is \<open>None\<close> when nothing was
  handed over.\<close>

definition send_built :: "cstring option \<Rightarrow> leo_agent \<Rightarrow> leo_error option \<times> leo_agent" where
  "send_built m ag =
     (case m of
        None \<Rightarrow> (None, ag)
      | Some s \<Rightarrow> if s = [] then (None, ag)
                  else let (rc, c, eff) = leo_conn_send (ag_conn ag) (Some s) (length s)
                       in (Some rc, ag\<lparr>ag_conn := c\<rparr>))"

definition send_reply :: "proto_env \<Rightarrow> cmd_reply \<Rightarrow> leo_agent \<Rightarrow> leo_agent" where
  "send_reply env r ag =
     snd (send_built (leo_proto_build_cmd_result env (Some (rep_cmd_id r)) (rep_exit r) (Some (rep_out r))
                        (Some (rep_err r)) LEO_MAX_MSG_SIZE) ag)"

definition error_reply :: "cstring \<Rightarrow> cstring \<Rightarrow> cmd_reply" where
  "error_reply cmd_id msg = \<lparr>rep_cmd_id = cmd_id, rep_exit = - 1, rep_out = [], rep_err = msg\<rparr>"

definition send_cmd_error :: "proto_env \<Rightarrow> cstring \<Rightarrow> cstring \<Rightarrow> leo_agent \<Rightarrow> leo_agent" where
  "send_cmd_error env cmd_id msg ag = send_reply env (error_reply cmd_id msg) ag"

section \<open>Running a command\<close>

text \<open>What the surroundings answer to one command: the successive child processes, the package
  manager found, the transfer, the disk, and the value the local \<^verbatim>\<open>result\<close> has before it is filled.\<close>

record cmd_env =
  ce_exec :: "nat \<Rightarrow> exec_env"
  ce_executable :: "cstring \<Rightarrow> bool"
  ce_ft :: ft_env
  ce_files :: fs
  ce_result :: leo_exec_result
  ce_proto :: proto_env

text \<open>The functions of \<^verbatim>\<open>executor.h\<close> and \<^verbatim>\<open>patches.h\<close>, which the thread calls and each system implements; the
  number counts the child processes of the command.\<close>

type_synonym exec_return = "(leo_error \<times> leo_exec_result \<times> exec_effect list) option"

record platform =
  pf_script :: "cstring option \<Rightarrow> cstring option \<Rightarrow> int \<Rightarrow> leo_exec_result \<Rightarrow> exec_return"
  pf_argv :: "nat \<Rightarrow> cstring list \<Rightarrow> cstring list \<Rightarrow> int \<Rightarrow> leo_exec_result \<Rightarrow> exec_return"
  pf_patches :: "cstring list option \<Rightarrow> int \<Rightarrow> bool \<Rightarrow> int \<Rightarrow> leo_exec_result \<Rightarrow> exec_return"

definition linux_platform :: "cmd_env \<Rightarrow> platform" where
  "linux_platform env =
     \<lparr>pf_script = leo_exec_script (ce_exec env 0), pf_argv = (\<lambda>k. leo_exec_argv (ce_exec env k)),
      pf_patches = leo_patches_install (ce_executable env) (ce_exec env)\<rparr>"

text \<open>\<^verbatim>\<open>exit_code\<close>, \<^verbatim>\<open>stdout_s\<close> and \<^verbatim>\<open>stderr_s\<close> at the end of the \<^verbatim>\<open>switch\<close>, with what was done.\<close>

record cmd_outcome =
  co_exit :: int
  co_out :: cstring
  co_err :: cstring
  co_effects :: "exec_effect list"
  co_files :: fs
  co_conn :: "leo_conn option"

definition outcome :: "cmd_env \<Rightarrow> leo_conn option \<Rightarrow> int \<Rightarrow> cstring \<Rightarrow> cstring \<Rightarrow> exec_effect list \<Rightarrow> cmd_outcome" where
  "outcome env conn ec out err eff =
     \<lparr>co_exit = ec, co_out = out, co_err = err, co_effects = eff, co_files = ce_files env, co_conn = conn\<rparr>"

definition of_result :: "cmd_env \<Rightarrow> leo_conn option \<Rightarrow> leo_exec_result \<Rightarrow> exec_effect list \<Rightarrow> cmd_outcome" where
  "of_result env conn r eff = outcome env conn (exit_code r) (stdout_buf r) (stderr_buf r) eff"

definition APOS :: cstring where "APOS = [CHR 0x27]"

definition MSG_SCRIPT_TIMEOUT :: cstring where
  "MSG_SCRIPT_TIMEOUT = ''Timeout d'' @ APOS @ ''ex'' @ E_ACUTE @ ''cution d'' @ E_ACUTE @ ''pass'' @ E_ACUTE @ '' '' @
     [CHR 0xE2, CHR 0x80, CHR 0x94] @ '' script interrompu (SIGKILL)''"

definition MSG_SCRIPT_SYSTEM :: cstring where
  "MSG_SCRIPT_SYSTEM = ''Erreur syst'' @ [CHR 0xC3, CHR 0xA8] @ ''me lors de l'' @ APOS @ ''ex'' @ E_ACUTE @ ''cution du script''"

definition MSG_INTERPRETER :: "cstring \<Rightarrow> cstring" where
  "MSG_INTERPRETER i = ''Interpr'' @ E_ACUTE @ ''teur non autoris'' @ E_ACUTE @ '' : '' @ i"

definition SYSTEM_DURING :: cstring where
  "SYSTEM_DURING = ''Erreur syst'' @ [CHR 0xC3, CHR 0xA8] @ ''me pendant ''"

definition run_script :: "platform \<Rightarrow> cmd_env \<Rightarrow> leo_conn option \<Rightarrow> exec_ctx \<Rightarrow> cmd_outcome option" where
  "run_script pf env conn ctx =
     map_option (\<lambda>(rc, result, eff).
         if rc = LEO_OK then of_result env conn result eff
         else if rc = LEO_ERR_TIMEOUT then outcome env conn (- 1) [] MSG_SCRIPT_TIMEOUT eff
         else if rc = LEO_ERR_PROTOCOL
         then outcome env conn (- 1) [] (strncpy_buf 128 (MSG_INTERPRETER (ctx_interpreter ctx))) eff
         else outcome env conn (- 1) [] MSG_SCRIPT_SYSTEM eff)
       (pf_script pf (Some (ctx_interpreter ctx)) (ctx_script ctx) (ctx_timeout_secs ctx) (ce_result env))"

text \<open>The \<^verbatim>\<open>argv\<close> of the installation; the array has \<^verbatim>\<open>LEO_PKG_MAX_COUNT + 6\<close> entries, the last of which
  is NULL.\<close>

definition pkg_install_argv :: "cstring list \<Rightarrow> cstring list" where
  "pkg_install_argv names = [''apt-get'', ''install'', ''-y'', ''--no-install-recommends'', ''--''] @ names"

text \<open>How a step that ended with \<open>rc\<close> is reported; \<open>what\<close> names it in the error texts.\<close>

definition report_step ::
  "cmd_env \<Rightarrow> leo_conn option \<Rightarrow> cstring \<Rightarrow> cstring \<Rightarrow> leo_error \<Rightarrow> leo_exec_result \<Rightarrow> exec_effect list \<Rightarrow> cmd_outcome" where
  "report_step env conn timeout_msg system_msg rc result eff =
     (if rc = LEO_OK then of_result env conn result eff
      else if rc = LEO_ERR_TIMEOUT then outcome env conn (- 1) [] timeout_msg eff
      else outcome env conn (- 1) [] system_msg eff)"

definition run_install_pkg :: "platform \<Rightarrow> cmd_env \<Rightarrow> leo_conn option \<Rightarrow> exec_ctx \<Rightarrow> cmd_outcome option" where
  "run_install_pkg pf env conn ctx =
     (let update = APOS @ ''apt-get update'' @ APOS; install = APOS @ ''apt-get install'' @ APOS in
      case pf_argv pf 0 UPDATE_ARGV APT_ENV (ctx_timeout_secs ctx) (ce_result env) of
        None \<Rightarrow> None
      | Some (rc, result, eff) \<Rightarrow>
          if rc \<noteq> LEO_OK \<or> exit_code result \<noteq> 0
          then Some (report_step env conn (''Timeout pendant '' @ update) (SYSTEM_DURING @ update) rc result eff)
          else
            map_option (\<lambda>(irc, install_result, eff').
                report_step env conn (''Timeout pendant '' @ install) (SYSTEM_DURING @ install) irc install_result (eff @ eff'))
              (pf_argv pf 1 (pkg_install_argv (pkg_names ctx)) APT_ENV (ctx_timeout_secs ctx) (ce_result env)))"

definition reboot_argv :: "int \<Rightarrow> cstring list" where
  "reboot_argv delay_sec =
     [''shutdown'', ''-r'',
      if 0 < delay_sec then strncpy_buf 16 (''+'' @ show_int (cdiv (delay_sec + 59) 60)) else ''now'']"

definition MSG_REBOOT_TIMEOUT :: cstring where
  "MSG_REBOOT_TIMEOUT = ''Timeout pendant la planification du red'' @ E_ACUTE @ ''marrage''"

definition MSG_REBOOT_SYSTEM :: cstring where
  "MSG_REBOOT_SYSTEM = ''Erreur syst'' @ [CHR 0xC3, CHR 0xA8] @ ''me lors de la planification du red'' @ E_ACUTE @
     ''marrage (shutdown et systemctl ont tous deux '' @ E_ACUTE @ ''chou'' @ E_ACUTE @ '')''"

definition run_reboot :: "platform \<Rightarrow> cmd_env \<Rightarrow> leo_conn option \<Rightarrow> exec_ctx \<Rightarrow> cmd_outcome option" where
  "run_reboot pf env conn ctx =
     (case pf_argv pf 0 (reboot_argv (reboot_delay_sec ctx)) [] (ctx_timeout_secs ctx) (ce_result env) of
        None \<Rightarrow> None
      | Some (rc, result, eff) \<Rightarrow>
          if rc = LEO_OK \<and> exit_code result = 0 then Some (of_result env conn result eff)
          else
            map_option (\<lambda>(frc, fallback_result, eff').
                report_step env conn MSG_REBOOT_TIMEOUT MSG_REBOOT_SYSTEM frc fallback_result (eff @ eff'))
              (pf_argv pf 1 SYSTEMCTL_ARGV [] (ctx_timeout_secs ctx) (ce_result env)))"

definition run_install_patches :: "platform \<Rightarrow> cmd_env \<Rightarrow> leo_conn option \<Rightarrow> exec_ctx \<Rightarrow> cmd_outcome option" where
  "run_install_patches pf env conn ctx =
     (let what = ''l'' @ APOS @ ''installation des patchs'' in
      map_option (\<lambda>(rc, result, eff). report_step env conn (''Timeout pendant '' @ what) (SYSTEM_DURING @ what) rc result eff)
        (pf_patches pf (Some (patch_ids ctx)) (int (length (patch_ids ctx)))
           (reboot_after ctx) (ctx_timeout_secs ctx) (ce_result env)))"

definition MSG_TRANSFER_FAILED :: cstring where
  "MSG_TRANSFER_FAILED = [CHR 0xC3, CHR 0x89] @ ''chec du transfert de fichier''"

text \<open>The connection after the progress reports is the one the download context ends with.\<close>

definition run_file_transfer :: "cmd_env \<Rightarrow> leo_conn option \<Rightarrow> exec_ctx \<Rightarrow> cmd_outcome option" where
  "run_file_transfer env conn ctx =
     map_option (\<lambda>r.
         let conn = (case ft_dl r of Some dl \<Rightarrow> dl_conn dl | None \<Rightarrow> conn) in
         (if ft_ret r = LEO_OK then outcome env conn 0 (case ft_final_path r of Some p \<Rightarrow> p | None \<Rightarrow> []) [] []
          else outcome env conn (- 1) [] (if ft_err r \<noteq> [] then ft_err r else MSG_TRANSFER_FAILED) [])
         \<lparr>co_files := ft_files r\<rparr>)
       (leo_file_transfer_run (ce_ft env) (ce_files env) conn (ctx_cmd_id ctx) (download_url ctx) (file_name ctx)
          (Some (sha256_hex ctx)) (file_size ctx) (ctx_timeout_secs ctx) 600 256)"

definition run_command :: "platform \<Rightarrow> cmd_env \<Rightarrow> leo_conn option \<Rightarrow> exec_ctx \<Rightarrow> cmd_outcome option" where
  "run_command pf env conn ctx =
     (case ctx_kind ctx of
        EXEC_KIND_SCRIPT \<Rightarrow> run_script pf env conn ctx
      | EXEC_KIND_INSTALL_PKG \<Rightarrow> run_install_pkg pf env conn ctx
      | EXEC_KIND_REBOOT \<Rightarrow> run_reboot pf env conn ctx
      | EXEC_KIND_INSTALL_PATCHES \<Rightarrow> run_install_patches pf env conn ctx
      | EXEC_KIND_FILE_TRANSFER \<Rightarrow> run_file_transfer env conn ctx)"

definition release_exec_slot :: "leo_agent \<Rightarrow> leo_agent" where
  "release_exec_slot ag = ag\<lparr>exec_active_count := exec_active_count ag - 1\<rparr>"

definition reply_of :: "exec_ctx \<Rightarrow> cmd_outcome \<Rightarrow> cmd_reply" where
  "reply_of ctx o1 = \<lparr>rep_cmd_id = ctx_cmd_id ctx, rep_exit = co_exit o1, rep_out = co_out o1, rep_err = co_err o1\<rparr>"

text \<open>\<open>_exec_thread\<close>, for an agent that no other thread changes meanwhile: its outcome, and the agent
  after the result was handed to the connection and the slot released.\<close>

definition exec_thread_on :: "platform \<Rightarrow> cmd_env \<Rightarrow> exec_ctx \<Rightarrow> leo_agent \<Rightarrow> (cmd_outcome \<times> leo_agent) option" where
  "exec_thread_on pf env ctx ag =
     map_option (\<lambda>o1. (o1, release_exec_slot (send_reply (ce_proto env) (reply_of ctx o1) (ag\<lparr>ag_conn := co_conn o1\<rparr>))))
       (run_command pf env (ag_conn ag) ctx)"

text \<open>The thread of the program built for Linux.\<close>

definition exec_thread :: "cmd_env \<Rightarrow> exec_ctx \<Rightarrow> leo_agent \<Rightarrow> (cmd_outcome \<times> leo_agent) option" where
  "exec_thread env = exec_thread_on (linux_platform env) env"

section \<open>What a command may do\<close>

lemma tidy_append: "tidy a \<Longrightarrow> tidy b \<Longrightarrow> tidy (a @ b)"
  by (simp add: tidy_def)

lemma tidy_Nil [simp]: "tidy []"
  by (simp add: tidy_def)

text \<open>What the runners leave behind: nothing, and on success a result that fits.\<close>

lemma leo_exec_argv_ok:
  assumes "leo_exec_argv env argv ee t r = Some (rc, r', eff)"
  shows "tidy eff \<and> (rc = LEO_OK \<longrightarrow> result_fits r') \<and> (\<forall>a \<in> set (spawned eff). a = argv)"
  using assms argv_runner.tidy_law [of env "(argv, ee)" t r rc r' eff] leo_exec_argv_spawned [OF assms]
  by (auto simp: leo_exec_argv_def dest: run_child_fits split: if_splits)

lemma spawned_simps [simp]:
  "spawned [] = []"
  "spawned (e # es) = (case e of Spawn argv _ \<Rightarrow> [argv] | _ \<Rightarrow> []) @ spawned es"
  by (simp_all add: spawned_def map_filter_simps split: exec_effect.split)

lemma leo_exec_script_ok:
  assumes "leo_exec_script env i s t r = Some (rc, r', eff)"
  shows "tidy eff" "rc = LEO_OK \<Longrightarrow> result_fits r'"
    "set (spawned eff) \<subseteq> {[interp, path] | interp path. i = Some interp \<and> interp \<in> set ALLOWED_INTERPRETERS}"
proof -
  show "tidy eff" using assms script_runner.tidy_law [of env "(i, s)" t r rc r' eff] by simp
  show "rc = LEO_OK \<Longrightarrow> result_fits r'"
    using assms by (auto simp: leo_exec_script_def write_script_tmp_def dest: run_child_fits split: option.splits if_splits)
  show "set (spawned eff) \<subseteq> {[interp, path] | interp path. i = Some interp \<and> interp \<in> set ALLOWED_INTERPRETERS}"
    using assms by (auto simp: leo_exec_script_def write_script_tmp_def interpreter_allowed_def list_ex_iff
      dest!: run_child_spawned split: option.splits if_splits)
qed

lemma schedule_reboot_tidy: "schedule_reboot envs k r = Some eff \<Longrightarrow> tidy eff"
  by (auto simp: schedule_reboot_def dest!: leo_exec_argv_ok intro: tidy_append split: option.splits if_splits)

definition patch_commands :: "cstring list \<Rightarrow> cstring list set" where
  "patch_commands ids =
     {UPDATE_ARGV, apt_install_argv ids (int (length ids)), dnf_install_argv ids (int (length ids)),
      SHUTDOWN_ARGV, SYSTEMCTL_ARGV}"

lemma leo_patches_install_ok:
  assumes "leo_patches_install executable envs (Some ids) (int (length ids)) reboot t r = Some (rc, r', eff)"
  shows "tidy eff \<and> (rc = LEO_OK \<longrightarrow> result_fits r') \<and> (\<forall>a \<in> set (spawned eff). a \<in> patch_commands ids)"
proof -
  have none: "result_fits \<lparr>exit_code = - 1, stdout_buf = [], stderr_buf = strncpy_buf LEO_EXEC_STDERR_MAX NO_PKGMGR_MSG\<rparr>"
    by (simp add: result_fits_def strncpy_buf_length)
  have apt: "tidy eff' \<and> (rc' = LEO_OK \<longrightarrow> result_fits r'') \<and>
      (\<forall>a \<in> set (spawned eff'). a \<in> {UPDATE_ARGV, apt_install_argv ids (int (length ids))})"
    if "install_apt envs ids (int (length ids)) t r = Some (rc', r'', eff')" for rc' r'' eff'
    using that by (auto simp: install_apt_def tidy_append dest!: leo_exec_argv_ok split: option.splits if_splits)
  have dnf: "tidy eff' \<and> (rc' = LEO_OK \<longrightarrow> result_fits r'') \<and> (\<forall>a \<in> set (spawned eff'). a = dnf_install_argv ids (int (length ids)))"
    if "install_dnf envs ids (int (length ids)) t r = Some (rc', r'', eff')" for rc' r'' eff'
    using leo_exec_argv_ok [OF that [unfolded install_dnf_def]] .
  have reboot: "tidy eff' \<and> (\<forall>a \<in> set (spawned eff'). a \<in> {SHUTDOWN_ARGV, SYSTEMCTL_ARGV})"
    if "schedule_reboot envs k x = Some eff'" for k x eff'
    using schedule_reboot_tidy [OF that] schedule_reboot_spawned [OF that] by auto
  define inst where "inst = (case detect_pkgmgr executable of PKGMGR_APT \<Rightarrow> install_apt envs ids (int (length ids)) t r
      | PKGMGR_DNF \<Rightarrow> install_dnf envs ids (int (length ids)) t r
      | PKGMGR_NONE \<Rightarrow> None)"
  from assms consider (early) "spawned eff = []" "tidy eff" "rc = LEO_OK \<longrightarrow> result_fits r'"
    | (plain) "inst = Some (rc, r', eff)"
    | (rebooted) eff1 eff2 k x where "inst = Some (rc, r', eff1)" "schedule_reboot envs k x = Some eff2" "eff = eff1 @ eff2"
    using none unfolding leo_patches_install_def Let_def inst_def
    by (cases "detect_pkgmgr executable") (force split: if_splits option.splits)+
  moreover have "tidy eff' \<and> (rc' = LEO_OK \<longrightarrow> result_fits r'') \<and> (\<forall>a \<in> set (spawned eff'). a \<in> patch_commands ids)"
    if "inst = Some (rc', r'', eff')" for rc' r'' eff'
    using that apt [of rc' r'' eff'] dnf [of rc' r'' eff'] unfolding inst_def patch_commands_def
    by (auto split: pkgmgr.splits)
  ultimately show ?thesis
    using reboot by cases (auto simp: patch_commands_def intro: tidy_append)
qed

lemma report_step_simps [simp]:
  "co_effects (report_step env conn a b rc r eff) = eff" "co_effects (of_result env conn r eff) = eff"
  "co_effects (outcome env conn ec out err eff) = eff"
  "co_files (report_step env conn a b rc r eff) = ce_files env" "co_files (of_result env conn r eff) = ce_files env"
  "co_files (outcome env conn ec out err eff) = ce_files env"
  by (simp_all add: report_step_def of_result_def outcome_def)

definition reply_fits :: "cmd_outcome \<Rightarrow> bool" where
  "reply_fits o1 \<longleftrightarrow> length (co_out o1) < LEO_EXEC_STDOUT_MAX \<and> length (co_err o1) < LEO_EXEC_STDERR_MAX"

lemma report_step_fits:
  assumes "rc = LEO_OK \<Longrightarrow> result_fits r" "length a < LEO_EXEC_STDERR_MAX" "length b < LEO_EXEC_STDERR_MAX"
  shows "reply_fits (report_step env conn a b rc r eff)"
  using assms by (auto simp: report_step_def of_result_def outcome_def reply_fits_def result_fits_def)

lemma of_result_fits: "result_fits r \<Longrightarrow> reply_fits (of_result env conn r eff)"
  by (simp add: of_result_def outcome_def reply_fits_def result_fits_def)

lemma reboot_messages [simp]:
  "length MSG_REBOOT_TIMEOUT < LEO_EXEC_STDERR_MAX" "length MSG_REBOOT_SYSTEM < LEO_EXEC_STDERR_MAX"
  by (simp_all add: MSG_REBOOT_TIMEOUT_def MSG_REBOOT_SYSTEM_def E_ACUTE_def exec_sizes)

text \<open>The commands of each kind, from what a system starts for an interpreter and for updates.\<close>

definition commands_of :: "(cstring \<Rightarrow> cstring list set) \<Rightarrow> (cstring list \<Rightarrow> cstring list set) \<Rightarrow> exec_ctx \<Rightarrow> cstring list set" where
  "commands_of scripts updates ctx =
     (case ctx_kind ctx of
        EXEC_KIND_SCRIPT \<Rightarrow> scripts (ctx_interpreter ctx)
      | EXEC_KIND_INSTALL_PKG \<Rightarrow> {UPDATE_ARGV, pkg_install_argv (pkg_names ctx)}
      | EXEC_KIND_REBOOT \<Rightarrow> {reboot_argv (reboot_delay_sec ctx), SYSTEMCTL_ARGV}
      | EXEC_KIND_INSTALL_PATCHES \<Rightarrow> updates (patch_ids ctx)
      | EXEC_KIND_FILE_TRANSFER \<Rightarrow> {})"

definition linux_scripts :: "cstring \<Rightarrow> cstring list set" where
  "linux_scripts interp = {[interp, path] | path. interp \<in> set ALLOWED_INTERPRETERS}"

definition allowed_commands :: "exec_ctx \<Rightarrow> cstring list set" where
  "allowed_commands = commands_of linux_scripts patch_commands"

text \<open>\<open>given\<close> is how a child reads its arguments from what it is started with.\<close>

definition contained :: "(cstring list \<Rightarrow> cstring list) \<Rightarrow> cmd_env \<Rightarrow> cstring list set \<Rightarrow> cmd_outcome \<Rightarrow> bool" where
  "contained given env cmds o1 \<longleftrightarrow>
     tidy (co_effects o1) \<and> given ` set (spawned (co_effects o1)) \<subseteq> cmds \<and> co_files o1 = ce_files env \<and> reply_fits o1"

definition ran_within :: "(cstring list \<Rightarrow> cstring list) \<Rightarrow> cstring list set \<Rightarrow> leo_error \<Rightarrow> leo_exec_result \<Rightarrow> exec_effect list \<Rightarrow> bool" where
  "ran_within given cmds rc r eff \<longleftrightarrow>
     tidy eff \<and> (rc = LEO_OK \<longrightarrow> result_fits r) \<and> given ` set (spawned eff) \<subseteq> cmds"

lemma ran_within_append:
  "ran_within given a rc r eff \<Longrightarrow> ran_within given b rc' r' eff' \<Longrightarrow> ran_within given (a \<union> b) rc' r' (eff @ eff')"
  by (auto simp: ran_within_def tidy_append)

lemma report_step_contained:
  assumes "ran_within given cmds rc r eff" "length a < LEO_EXEC_STDERR_MAX" "length b < LEO_EXEC_STDERR_MAX"
  shows "contained given env cmds (report_step env conn a b rc r eff)"
  using assms by (auto simp: ran_within_def contained_def intro!: report_step_fits)

text \<open>The programs the thread starts by itself have names no system has to quote.\<close>

definition plain_program :: "cstring list \<Rightarrow> bool" where
  "plain_program argv \<longleftrightarrow> argv \<noteq> [] \<and> hd argv \<in> {''apt-get'', ''shutdown'', ''systemctl''}"

lemma plain_programs [simp]:
  "plain_program UPDATE_ARGV" "plain_program SYSTEMCTL_ARGV" "plain_program (pkg_install_argv names)" "plain_program (reboot_argv d)"
  by (simp_all add: plain_program_def UPDATE_ARGV_def SYSTEMCTL_ARGV_def pkg_install_argv_def reboot_argv_def)

text \<open>The contract of a system's functions, and what the thread makes of any system that keeps it.\<close>

locale exec_platform =
  fixes pf :: platform
    and given :: "cstring list \<Rightarrow> cstring list"
    and scripts :: "cstring \<Rightarrow> cstring list set"
    and updates :: "cstring list \<Rightarrow> cstring list set"
  assumes script_law: "pf_script pf (Some i) s t r = Some (rc, r', eff) \<Longrightarrow> ran_within given (scripts i) rc r' eff"
    and argv_law: "pf_argv pf k argv ee t r = Some (rc, r', eff) \<Longrightarrow> plain_program argv \<Longrightarrow> ran_within given {argv} rc r' eff"
    and patches_law: "pf_patches pf (Some ids) (int (length ids)) b t r = Some (rc, r', eff) \<Longrightarrow> ran_within given (updates ids) rc r' eff"
begin

lemma script_contained:
  assumes "run_script pf env conn ctx = Some o1"
  shows "contained given env (scripts (ctx_interpreter ctx)) o1"
proof -
  obtain rc r eff where run: "pf_script pf (Some (ctx_interpreter ctx)) (ctx_script ctx) (ctx_timeout_secs ctx) (ce_result env) = Some (rc, r, eff)"
    and o1: "o1 = (if rc = LEO_OK then of_result env conn r eff
         else if rc = LEO_ERR_TIMEOUT then outcome env conn (- 1) [] MSG_SCRIPT_TIMEOUT eff
         else if rc = LEO_ERR_PROTOCOL
         then outcome env conn (- 1) [] (strncpy_buf 128 (MSG_INTERPRETER (ctx_interpreter ctx))) eff
         else outcome env conn (- 1) [] MSG_SCRIPT_SYSTEM eff)"
    using assms(1) by (auto simp: run_script_def)
  have "length (strncpy_buf 128 (MSG_INTERPRETER (ctx_interpreter ctx))) < 128" by (rule strncpy_buf_length) simp
  with script_law [OF run] show ?thesis
    by (auto simp: o1 contained_def ran_within_def reply_fits_def outcome_def of_result_def result_fits_def
        exec_sizes MSG_SCRIPT_TIMEOUT_def MSG_SCRIPT_SYSTEM_def E_ACUTE_def APOS_def)
qed

lemma install_pkg_contained:
  assumes "run_install_pkg pf env conn ctx = Some o1"
  shows "contained given env {UPDATE_ARGV, pkg_install_argv (pkg_names ctx)} o1"
proof -
  obtain rc r eff where up: "pf_argv pf 0 UPDATE_ARGV APT_ENV (ctx_timeout_secs ctx) (ce_result env) = Some (rc, r, eff)"
    using assms by (auto simp: run_install_pkg_def Let_def split: option.splits)
  note u = argv_law [OF up]
  have w: "ran_within given {UPDATE_ARGV, pkg_install_argv (pkg_names ctx)} rc r eff" using u by (auto simp: ran_within_def)
  have i: "ran_within given {UPDATE_ARGV, pkg_install_argv (pkg_names ctx)} irc ir (eff @ eff')"
    if "pf_argv pf 1 (pkg_install_argv (pkg_names ctx)) APT_ENV (ctx_timeout_secs ctx) (ce_result env) = Some (irc, ir, eff')" for irc ir eff'
    using ran_within_append [OF u argv_law [OF that]] by (simp add: insert_commute)
  show ?thesis
    using assms up w i
    by (auto simp: run_install_pkg_def Let_def exec_sizes APOS_def SYSTEM_DURING_def
        intro!: report_step_contained split: if_splits)
qed

lemma reboot_contained:
  assumes "run_reboot pf env conn ctx = Some o1"
  shows "contained given env {reboot_argv (reboot_delay_sec ctx), SYSTEMCTL_ARGV} o1"
proof -
  let ?cmds = "{reboot_argv (reboot_delay_sec ctx), SYSTEMCTL_ARGV}"
  obtain rc r eff where sh: "pf_argv pf 0 (reboot_argv (reboot_delay_sec ctx)) [] (ctx_timeout_secs ctx) (ce_result env) = Some (rc, r, eff)"
    using assms by (auto simp: run_reboot_def split: option.splits)
  note u = argv_law [OF sh]
  have w: "rc = LEO_OK \<Longrightarrow> contained given env ?cmds (of_result env conn r eff)"
    using u by (auto simp: ran_within_def contained_def of_result_fits)
  have i: "ran_within given ?cmds frc fr (eff @ eff')"
    if "pf_argv pf 1 SYSTEMCTL_ARGV [] (ctx_timeout_secs ctx) (ce_result env) = Some (frc, fr, eff')" for frc fr eff'
    using ran_within_append [OF u argv_law [OF that]] by (simp add: insert_commute)
  show ?thesis using assms sh w i by (auto simp: run_reboot_def intro!: report_step_contained split: if_splits)
qed

lemma install_patches_contained:
  assumes "run_install_patches pf env conn ctx = Some o1"
  shows "contained given env (updates (patch_ids ctx)) o1"
  using assms
  by (auto simp: run_install_patches_def Let_def exec_sizes APOS_def SYSTEM_DURING_def
      intro!: report_step_contained dest!: patches_law)

end

definition ft_fits :: "nat \<Rightarrow> nat \<Rightarrow> ft_result \<Rightarrow> bool" where
  "ft_fits psz esz r \<longleftrightarrow> length (ft_err r) < esz \<and> (\<forall>p. ft_final_path r = Some p \<longrightarrow> length p < psz)"

lemma ft_early_fits: "0 < esz \<Longrightarrow> ft_fits psz esz (ft_early e files esz msg dl)"
  by (simp add: ft_fits_def ft_early_def strncpy_buf_length)

lemma ft_finish_fits: "0 < esz \<Longrightarrow> 0 < psz \<Longrightarrow> ft_fits psz esz (ft_finish env files part filename expected psz esz rc dl)"
  by (simp add: ft_fits_def ft_finish_def Let_def strncpy_buf_length)

lemma ft_result_fits:
  assumes "leo_file_transfer_run env files conn cmd_id url filename expected sz t psz esz = Some r" "0 < esz" "0 < psz"
  shows "ft_fits psz esz r"
  using assms(1) ft_early_fits [OF assms(2)] ft_finish_fits [OF assms(2,3)]
  unfolding leo_file_transfer_run_def Let_def map_option_case
  by (auto simp del: append_Cons split: if_split_asm option.split_asm)

lemma run_file_transfer_contained:
  assumes "run_file_transfer env conn ctx = Some o1"
  shows "co_effects o1 = [] \<and> reply_fits o1"
proof -
  obtain r where r: "leo_file_transfer_run (ce_ft env) (ce_files env) conn (ctx_cmd_id ctx) (download_url ctx) (file_name ctx)
      (Some (sha256_hex ctx)) (file_size ctx) (ctx_timeout_secs ctx) 600 256 = Some r"
    and o1: "o1 = (let conn = (case ft_dl r of Some dl \<Rightarrow> dl_conn dl | None \<Rightarrow> conn) in
         (if ft_ret r = LEO_OK then outcome env conn 0 (case ft_final_path r of Some p \<Rightarrow> p | None \<Rightarrow> []) [] []
          else outcome env conn (- 1) [] (if ft_err r \<noteq> [] then ft_err r else MSG_TRANSFER_FAILED) [])
         \<lparr>co_files := ft_files r\<rparr>)"
    using assms by (auto simp: run_file_transfer_def)
  from ft_result_fits [OF r] show ?thesis
    by (auto simp: ft_fits_def o1 Let_def outcome_def reply_fits_def exec_sizes MSG_TRANSFER_FAILED_def split: option.splits)
qed

lemma send_built_keeps [simp]:
  "ag_config (snd (send_built m ag)) = ag_config ag" "ag_state (snd (send_built m ag)) = ag_state ag"
  "threads_stop (snd (send_built m ag)) = threads_stop ag"
  "force_heartbeat_pending (snd (send_built m ag)) = force_heartbeat_pending ag"
  "exec_active_count (snd (send_built m ag)) = exec_active_count ag"
  by (auto simp: send_built_def split: option.splits prod.splits)

lemma send_reply_keeps [simp]:
  "ag_config (send_reply env r ag) = ag_config ag" "ag_state (send_reply env r ag) = ag_state ag"
  "threads_stop (send_reply env r ag) = threads_stop ag"
  "force_heartbeat_pending (send_reply env r ag) = force_heartbeat_pending ag"
  "exec_active_count (send_reply env r ag) = exec_active_count ag"
  by (simp_all add: send_reply_def)

context exec_platform
begin

lemma command_contained:
  assumes "run_command pf env conn ctx = Some o1"
  shows "contained given env (commands_of scripts updates ctx) o1 \<or>
      (ctx_kind ctx = EXEC_KIND_FILE_TRANSFER \<and> co_effects o1 = [] \<and> reply_fits o1)"
  using assms script_contained install_pkg_contained reboot_contained install_patches_contained run_file_transfer_contained
  by (cases "ctx_kind ctx") (simp_all add: run_command_def commands_of_def)

lemma thread_contained:
  assumes "exec_thread_on pf env ctx ag = Some (o1, ag')"
  shows "tidy (co_effects o1) \<and> given ` set (spawned (co_effects o1)) \<subseteq> commands_of scripts updates ctx \<and>
         (ctx_kind ctx \<noteq> EXEC_KIND_FILE_TRANSFER \<longrightarrow> co_files o1 = ce_files env) \<and> reply_fits o1 \<and>
         exec_active_count ag' = exec_active_count ag - 1"
proof -
  from assms have run: "run_command pf env (ag_conn ag) ctx = Some o1"
    and slot: "exec_active_count ag' = exec_active_count ag - 1"
    by (auto simp: exec_thread_on_def release_exec_slot_def)
  from command_contained [OF run] slot show ?thesis by (auto simp: contained_def)
qed

end

interpretation linux_exec: exec_platform "linux_platform env" "\<lambda>a. a" linux_scripts patch_commands for env
proof unfold_locales
  fix i s t r rc r' eff
  assume "pf_script (linux_platform env) (Some i) s t r = Some (rc, r', eff)"
  then have run: "leo_exec_script (ce_exec env 0) (Some i) s t r = Some (rc, r', eff)" by (simp add: linux_platform_def)
  from leo_exec_script_ok [OF run] show "ran_within (\<lambda>a. a) (linux_scripts i) rc r' eff" by (auto simp: ran_within_def linux_scripts_def)
next
  fix k argv ee t r rc r' eff
  assume "pf_argv (linux_platform env) k argv ee t r = Some (rc, r', eff)"
  then show "ran_within (\<lambda>a. a) {argv} rc r' eff" by (auto simp: linux_platform_def ran_within_def dest!: leo_exec_argv_ok)
next
  fix ids b t r rc r' eff
  assume "pf_patches (linux_platform env) (Some ids) (int (length ids)) b t r = Some (rc, r', eff)"
  then show "ran_within (\<lambda>a. a) (patch_commands ids) rc r' eff" by (auto simp: linux_platform_def ran_within_def dest!: leo_patches_install_ok)
qed

text \<open>C5: whatever the server asked for, a command that ends has started only the commands of its
  kind (a listed interpreter on the temporary script; the refresh and the installation with the
  checked names after \<^verbatim>\<open>--\<close>; the reboot; the update commands; none for a transfer), has reaped every
  process and removed every temporary file, has changed files only if it is a transfer, replies with
  texts that fit the buffers, and gives its slot back.\<close>

theorem exec_thread_contained:
  assumes "exec_thread env ctx ag = Some (o1, ag')"
  shows "tidy (co_effects o1) \<and> set (spawned (co_effects o1)) \<subseteq> allowed_commands ctx \<and>
         (ctx_kind ctx \<noteq> EXEC_KIND_FILE_TRANSFER \<longrightarrow> co_files o1 = ce_files env) \<and> reply_fits o1 \<and>
         exec_active_count ag' = exec_active_count ag - 1"
  using linux_exec.thread_contained [OF assms [unfolded exec_thread_def]] by (simp add: allowed_commands_def)

section \<open>Numbers from the server\<close>

text \<open>converting a number of a message is defined for every JSON number, including infinities and
  NaN, and yields a value within the bounds, the truncated number itself when it lies between them.\<close>

theorem json_number_clamped_defined:
  assumes "int32_range lo" "int32_range hi" "lo \<le> hi"
  shows "\<exists>i. json_number_clamped v lo hi = Some i \<and> lo \<le> i \<and> i \<le> hi \<and>
           (\<forall>x. v = Dfin x \<and> of_int lo \<le> x \<and> x \<le> of_int hi \<longrightarrow> i = trunc_rat x)"
proof (cases v)
  case (Dfin x)
  show ?thesis
  proof (cases "of_int lo \<le> x \<and> x \<le> of_int hi")
    case True
    then have "lo \<le> trunc_rat x \<and> trunc_rat x \<le> hi" using trunc_rat_between by blast
    with True Dfin assms show ?thesis by (auto simp: json_number_clamped_def dbl_of_int_def int32_range_def)
  qed (use Dfin assms in \<open>auto simp: json_number_clamped_def dbl_of_int_def\<close>)
qed (use assms in \<open>auto simp: json_number_clamped_def dbl_of_int_def\<close>)

lemma json_number_clamped_bounds:
  assumes "json_number_clamped v lo hi = Some i" "lo \<le> hi"
  shows "lo \<le> i \<and> i \<le> hi"
proof (cases v)
  case (Dfin x)
  with assms show ?thesis
    using trunc_rat_between [of lo x hi] by (auto simp: json_number_clamped_def dbl_of_int_def split: if_splits)
qed (use assms in \<open>auto simp: json_number_clamped_def dbl_of_int_def split: if_splits\<close>)

text \<open>a reboot asked for in \<open>d\<close> seconds, \<open>1 \<le> d \<le> 3600\<close>, is scheduled in whole minutes, the
  smallest number that does not come early, at most 60; a delay of zero is \<^verbatim>\<open>now\<close>.\<close>

theorem reboot_argv_minutes:
  assumes "0 \<le> d" "d \<le> 3600"
  shows "if d = 0 then reboot_argv d = [''shutdown'', ''-r'', ''now'']
         else \<exists>m. reboot_argv d = [''shutdown'', ''-r'', ''+'' @ show_int m] \<and> m \<le> 60 \<and> d \<le> 60 * m \<and> 60 * m < d + 60"
proof (cases "d = 0")
  case False
  let ?m = "(d + 59) div 60"
  have m: "0 \<le> ?m" "?m \<le> 60" "d \<le> 60 * ?m" "60 * ?m < d + 60" using assms False by linarith+
  then have "length (show_int ?m) \<le> 11" by (intro show_int_length) (simp add: int32_range_def)
  then have "strncpy_buf 16 (''+'' @ show_int ?m) = ''+'' @ show_int ?m" by (intro strncpy_buf_id) simp
  with assms False have "reboot_argv d = [''shutdown'', ''-r'', ''+'' @ show_int ?m]" by (simp add: reboot_argv_def cdiv_def)
  with m have "\<exists>m. reboot_argv d = [''shutdown'', ''-r'', ''+'' @ show_int m] \<and> m \<le> 60 \<and> d \<le> 60 * m \<and> 60 * m < d + 60"
    by blast
  with False show ?thesis by simp
qed (simp add: reboot_argv_def)

section \<open>Sample runs\<close>

definition demo_cmd_env :: cmd_env where
  "demo_cmd_env =
     \<lparr>ce_exec = (\<lambda>_. echo_env), ce_executable = (\<lambda>_. False), ce_ft = demo_ft, ce_files = Map.empty,
      ce_result = blank_result, ce_proto = mute_env\<rparr>"

definition demo_agent :: leo_agent where
  "demo_agent = \<lparr>ag_config = demo_config, ag_conn = Some demo_conn, ag_state = LEO_STATE_CONNECTED, threads_stop = False,
                 force_heartbeat_pending = False, exec_active_count = 1\<rparr>"

text \<open>A package installation whose two child processes both print and succeed.\<close>

definition demo_pkg_ctx :: exec_ctx where
  "demo_pkg_ctx = zero_ctx\<lparr>ctx_cmd_id := ''c1'', ctx_timeout_secs := 10, ctx_kind := EXEC_KIND_INSTALL_PKG, pkg_names := [''vim'']\<rparr>"

lemma demo_pkg_run:
  "\<exists>o1 ag'. exec_thread (demo_cmd_env\<lparr>ce_proto := p\<rparr>) demo_pkg_ctx ag = Some (o1, ag') \<and> co_out o1 = ''hello'' \<and>
     co_conn o1 = ag_conn ag \<and> spawned (co_effects o1) = [UPDATE_ARGV, pkg_install_argv [''vim'']]"
  by (simp add: exec_thread_def exec_thread_on_def linux_platform_def run_command_def demo_pkg_ctx_def zero_ctx_def run_install_pkg_def demo_cmd_env_def
      leo_exec_argv_def echo_run Let_def report_step_def of_result_def outcome_def UPDATE_ARGV_def pkg_install_argv_def spawned_def)

theorem exec_thread_contained_witness:
  "\<exists>o1 ag'. exec_thread demo_cmd_env demo_pkg_ctx demo_agent = Some (o1, ag') \<and> exec_active_count ag' = 0 \<and>
     spawned (co_effects o1) = [UPDATE_ARGV, pkg_install_argv [''vim'']] \<and> tidy (co_effects o1) \<and> co_files o1 = Map.empty"
proof -
  obtain o1 ag' where run: "exec_thread demo_cmd_env demo_pkg_ctx demo_agent = Some (o1, ag')"
    "spawned (co_effects o1) = [UPDATE_ARGV, pkg_install_argv [''vim'']]" using demo_pkg_run [of mute_env demo_agent] by (auto simp: demo_cmd_env_def)
  from exec_thread_contained [OF run(1)] run show ?thesis
    by (auto simp: demo_pkg_ctx_def demo_agent_def demo_cmd_env_def)
qed

theorem json_number_clamped_defined_witness:
  "\<exists>i. json_number_clamped (Dfin (1801 / 2)) 1 86400 = Some i \<and> i = trunc_rat (1801 / 2)"
  using json_number_clamped_defined [of 1 86400 "Dfin (1801 / 2)"] by (auto simp: int32_range_def)

theorem reboot_argv_minutes_witness:
  "\<exists>m. reboot_argv 61 = [''shutdown'', ''-r'', ''+'' @ show_int m] \<and> m = 2"
proof -
  obtain m where "reboot_argv 61 = [''shutdown'', ''-r'', ''+'' @ show_int m]" "61 \<le> 60 * m" "60 * m < 121"
    using reboot_argv_minutes [of 61] by auto
  then show ?thesis by (intro exI [of _ m]) simp
qed

end
