(* ===== verification/Floating.thy ===== *)
theory Floating
  imports Leo_Prelude
begin

text \<open>
  Rounding of positive rationals to \<^verbatim>\<open>double\<close>: the nearest value with 53 significant bits, ties to
  even (values in the normal range; the code uses it on screen sizes, patch sizes and percentages).
\<close>

text \<open>The binary exponent: the \<open>k\<close> with \<open>2 ^ k \<le> x < 2 ^ (k + 1)\<close>, from the lengths of numerator and
  denominator.\<close>

definition bin_exp :: "rat \<Rightarrow> int" where
  "bin_exp x =
     (let (a, b) = quotient_of x; k = int (nbits (nat a)) - int (nbits (nat b)) in
      if 2 powi k \<le> x then k else k - 1)"

definition round_even :: "rat \<Rightarrow> int" where
  "round_even m =
     (let q = \<lfloor>m\<rfloor>; r = m - of_int q in
      if r < 1 / 2 then q else if 1 / 2 < r then q + 1 else if even q then q else q + 1)"

definition dround :: "rat \<Rightarrow> rat" where
  "dround x =
     (if x \<le> 0 then 0
      else let e = bin_exp x - 52 in of_int (round_even (x / 2 powi e)) * 2 powi e)"

lemma round_even_near: "\<bar>of_int (round_even m) - m\<bar> \<le> 1 / 2"
proof -
  have "of_int \<lfloor>m\<rfloor> \<le> m" "m < of_int \<lfloor>m\<rfloor> + 1" by linarith+
  then show ?thesis by (auto simp: round_even_def Let_def abs_le_iff)
qed

lemma nbits_bounds: "0 < n \<Longrightarrow> 2 ^ (nbits n - 1) \<le> n \<and> n < 2 ^ nbits n \<and> 0 < nbits n"
proof (induction n rule: nbits.induct)
  case (1 n)
  show ?case
  proof (cases "n div 2 = 0")
    case True
    with 1(2) have "n = 1" by simp
    then show ?thesis by (simp add: nbits.simps [of "Suc 0"] nbits.simps [of 0])
  next
    case False
    with 1 have IH: "2 ^ (nbits (n div 2) - 1) \<le> n div 2" "n div 2 < 2 ^ nbits (n div 2)" "0 < nbits (n div 2)" by auto
    have nb: "nbits n = Suc (nbits (n div 2))" using 1(2) by (subst nbits.simps) simp
    from IH(3) obtain k where k: "nbits (n div 2) = Suc k" by (cases "nbits (n div 2)") auto
    from IH nb k show ?thesis by (simp add: nb k) linarith
  qed
qed

lemma bin_exp_le:
  assumes "0 < x"
  shows "2 powi bin_exp x \<le> x"
proof -
  obtain a b where q: "quotient_of x = (a, b)" by fastforce
  have b: "0 < b" using quotient_of_denom_pos [OF q] .
  have x: "x = of_int a / of_int b" using quotient_of_div [OF q] .
  with assms b have a: "0 < a" by (simp add: zero_less_divide_iff)
  let ?na = "nbits (nat a)" and ?nb = "nbits (nat b)"
  let ?k = "int ?na - int ?nb"
  from a nbits_bounds [of "nat a"] have na: "2 ^ (?na - 1) \<le> nat a" "0 < ?na" by auto
  from b nbits_bounds [of "nat b"] have nb: "nat b < 2 ^ ?nb" by auto
  have "(2 :: rat) powi (?k - 1) = 2 ^ (?na - 1) / 2 ^ ?nb"
  proof -
    have "?k - 1 = int (?na - 1) - int ?nb" using na(2) by simp
    moreover have "(2 :: rat) powi (int m - int n) = 2 ^ m / 2 ^ n" for m n
      by (subst power_int_diff) simp_all
    ultimately show ?thesis by metis
  qed
  also have "\<dots> \<le> of_int a / of_int b"
  proof (rule frac_le)
    have "(2 :: rat) ^ (?na - 1) = of_nat (2 ^ (?na - 1))" by simp
    also have "\<dots> \<le> of_nat (nat a)" using na(1) by (simp only: of_nat_le_iff)
    finally show "(2 :: rat) ^ (?na - 1) \<le> of_int a" using a by simp
    have "of_int b = (of_nat (nat b) :: rat)" using b by simp
    also have "\<dots> \<le> of_nat (2 ^ ?nb)" using nb by (simp only: of_nat_le_iff)
    finally show "of_int b \<le> (2 :: rat) ^ ?nb" by simp
  qed (use a b in simp_all)
  finally have "(2 :: rat) powi (?k - 1) \<le> x" using x by simp
  then show ?thesis by (simp add: bin_exp_def q Let_def)
qed

text \<open>The relative error of one rounding.\<close>

lemma dround_error:
  assumes "0 < x"
  shows "\<bar>dround x - x\<bar> \<le> x / 2 ^ 53"
proof -
  let ?u = "(2 :: rat) powi (bin_exp x - 52)"
  have u: "0 < ?u" by simp
  have "\<bar>of_int (round_even (x / ?u)) - x / ?u\<bar> * ?u \<le> 1 / 2 * ?u"
    using round_even_near [of "x / ?u"] u by (intro mult_right_mono) auto
  moreover have "\<bar>of_int (round_even (x / ?u)) - x / ?u\<bar> * ?u = \<bar>dround x - x\<bar>"
    using assms u by (simp add: dround_def Let_def abs_mult_pos left_diff_distrib not_le)
  moreover have "1 / 2 * ?u \<le> x / 2 ^ 53"
    using bin_exp_le [OF assms] by (simp add: power_int_diff)
  ultimately show ?thesis by simp
qed

lemma dround_nonneg: "0 \<le> dround x"
proof (cases "0 < x")
  case True
  have "x / 2 ^ 53 \<le> x" using True by (simp add: field_simps)
  with dround_error [OF True] show ?thesis by linarith
qed (simp add: dround_def)

text \<open>Rounding does not cross a whole number that a \<^verbatim>\<open>double\<close> can hold.\<close>

lemma round_even_le: "m \<le> of_int n \<Longrightarrow> round_even m \<le> n"
proof -
  assume m: "m \<le> of_int n"
  then have q: "\<lfloor>m\<rfloor> \<le> n" by (simp add: floor_le_iff)
  show ?thesis
  proof (cases "\<lfloor>m\<rfloor> = n")
    case True
    with m have "m - of_int \<lfloor>m\<rfloor> \<le> 0" by simp
    with True show ?thesis by (simp add: round_even_def Let_def)
  qed (use q in \<open>auto simp: round_even_def Let_def\<close>)
qed

lemma unit_inverse:
  assumes "0 < x" "x \<le> of_nat n" "n < 2 ^ 53"
  obtains k where "1 / (2 :: rat) powi (bin_exp x - 52) = 2 ^ k"
proof -
  let ?e = "bin_exp x"
  have "(2 :: rat) powi ?e \<le> of_nat n" using bin_exp_le [OF assms(1)] assms(2) by linarith
  also have "\<dots> < 2 powi 53" using assms(3) by (simp add: power_int_def)
  finally have "?e \<le> 52" using power_int_increasing [of 53 ?e "2 :: rat"] by (cases "53 \<le> ?e") auto
  then obtain k where "52 - ?e = int k" by (metis diff_ge_0_iff_ge nonneg_int_cases)
  with power_int_minus_divide [of "2 :: rat" "?e - 52"] have "1 / (2 :: rat) powi (?e - 52) = 2 ^ k"
    by (simp add: minus_diff_eq)
  then show thesis ..
qed

lemma dround_le_nat:
  assumes "x \<le> of_nat n" "n < 2 ^ 53"
  shows "dround x \<le> of_nat n"
proof (cases "0 < x")
  case True
  let ?u = "(2 :: rat) powi (bin_exp x - 52)"
  obtain k where k: "1 / ?u = 2 ^ k" using unit_inverse [OF True assms] .
  have u: "0 < ?u" by simp
  have "x / ?u \<le> of_nat n / ?u" using assms(1) u by (intro divide_right_mono) simp_all
  also have "\<dots> = of_int (int n * 2 ^ k)" using k by (simp add: divide_inverse)
  finally have "round_even (x / ?u) \<le> int n * 2 ^ k" by (rule round_even_le)
  then have "of_int (round_even (x / ?u)) * ?u \<le> of_int (int n * 2 ^ k) * ?u"
    using u by (intro mult_right_mono) (simp_all only: of_int_le_iff less_imp_le)
  also have "\<dots> = of_nat n" using u k by (simp add: field_simps)
  finally show ?thesis using True by (simp add: dround_def Let_def)
qed (use assms in \<open>simp add: dround_def\<close>)

lemma dround_nat:
  assumes "n < 2 ^ 53"
  shows "dround (of_nat n) = of_nat n"
proof (cases "n = 0")
  case False
  let ?u = "(2 :: rat) powi (bin_exp (of_nat n) - 52)"
  obtain k where k: "1 / ?u = 2 ^ k" using unit_inverse [of "of_nat n" n] False assms by auto
  have u: "0 < ?u" by simp
  have "of_nat n / ?u = of_int (int n * 2 ^ k)" using k by (simp add: divide_inverse)
  then have "of_int (round_even (of_nat n / ?u)) = of_nat n / ?u" by (simp only: round_even_def Let_def floor_of_int) simp
  then show ?thesis using False u by (simp add: dround_def Let_def)
qed (simp add: dround_def)

end
