(* ===== verification/Rd_Wire.thy ===== *)
theory Rd_Wire
  imports Http_Url Floating
begin

text \<open>
  The parts of \<^verbatim>\<open>agent/src/remote_desktop.c\<close> that compute: scaling and copying of frames, and the
  binary protocol of the dedicated connection (frames out, input messages in).
\<close>

section \<open>Image helpers\<close>

definition leo_rd_compute_output_size :: "int \<Rightarrow> int \<Rightarrow> int \<Rightarrow> int \<Rightarrow> int \<times> int" where
  "leo_rd_compute_output_size src_w src_h max_w max_h =
     (if src_w \<le> max_w \<and> src_h \<le> max_h then (src_w, src_h)
      else
        let scale = 1;
            scale = (if max_w < src_w then dround (of_int max_w / of_int src_w) else scale);
            scale = (if max_h < src_h
                     then let scale_h = dround (of_int max_h / of_int src_h) in
                          if scale_h < scale then scale_h else scale
                     else scale);
            out_w = trunc_rat (dround (of_int src_w * scale));
            out_h = trunc_rat (dround (of_int src_h * scale))
        in (if out_w < 1 then 1 else out_w, if out_h < 1 then 1 else out_h))"

type_synonym bytes = "8 word list"

text \<open>The bytes written to \<^verbatim>\<open>dst\<close>. A \<^verbatim>\<open>memcpy\<close> that would read past the end of \<^verbatim>\<open>src\<close> copies fewer bytes
  here, so the length of the result tells whether every read was in bounds.\<close>

definition copy_at :: "bytes \<Rightarrow> nat \<Rightarrow> nat \<Rightarrow> bytes" where
  "copy_at src off n = take n (drop off src)"

definition scale_row :: "nat \<Rightarrow> bytes \<Rightarrow> nat \<Rightarrow> nat \<Rightarrow> bytes" where
  "scale_row out_w src src_w row =
     concat (map (\<lambda>x. let sx = x * src_w div out_w in copy_at src (row + sx * 4) 4) [0..<out_w])"

definition leo_rd_repack_scale :: "nat \<Rightarrow> nat \<Rightarrow> bytes \<Rightarrow> nat \<Rightarrow> nat \<Rightarrow> nat \<Rightarrow> bytes" where
  "leo_rd_repack_scale out_w out_h src src_w src_h src_stride =
     (if out_w = src_w \<and> out_h = src_h
      then concat (map (\<lambda>y. copy_at src (y * src_stride) (out_w * 4)) [0..<src_h])
      else concat (map (\<lambda>y. let sy = y * src_h div out_h in scale_row out_w src src_w (sy * src_stride)) [0..<out_h]))"

section \<open>The binary protocol\<close>

definition RD_WIRE_FRAME :: "8 word" where "RD_WIRE_FRAME = 0x01"
definition RD_WIRE_INPUT_MOVE :: "8 word" where "RD_WIRE_INPUT_MOVE = 0x10"
definition RD_WIRE_INPUT_BUTTON :: "8 word" where "RD_WIRE_INPUT_BUTTON = 0x11"
definition RD_WIRE_INPUT_SCROLL :: "8 word" where "RD_WIRE_INPUT_SCROLL = 0x12"
definition RD_WIRE_INPUT_KEY :: "8 word" where "RD_WIRE_INPUT_KEY = 0x13"
definition RD_WIRE_CONTROL :: "8 word" where "RD_WIRE_CONTROL = 0x20"

lemmas wire_types = RD_WIRE_FRAME_def RD_WIRE_INPUT_MOVE_def RD_WIRE_INPUT_BUTTON_def
  RD_WIRE_INPUT_SCROLL_def RD_WIRE_INPUT_KEY_def RD_WIRE_CONTROL_def

text \<open>Byte \<open>k\<close> of an integer: \<^verbatim>\<open>(unsigned char)((n >> 8k) & 0xFF)\<close>.\<close>

definition byte_k :: "int \<Rightarrow> nat \<Rightarrow> 8 word" where
  "byte_k n k = word_of_int (n div 256 ^ k)"

definition frame_header :: "int \<Rightarrow> int \<Rightarrow> u32 \<Rightarrow> bytes" where
  "frame_header width height seq =
     [RD_WIRE_FRAME, byte_k width 1, byte_k width 0, byte_k height 1, byte_k height 0,
      byte_k (uint seq) 3, byte_k (uint seq) 2, byte_k (uint seq) 1, byte_k (uint seq) 0]"

datatype rd_action = RD_Move int int | RD_Button int bool | RD_Scroll int | RD_Key int bool

definition be16 :: "8 word \<Rightarrow> 8 word \<Rightarrow> int" where
  "be16 hi lo = uint hi * 256 + uint lo"

text \<open>\<^verbatim>\<open>(int16_t)\<close> of such a number.\<close>

definition wrap16 :: "int \<Rightarrow> int" where
  "wrap16 i = (i + 2 ^ 15) mod 2 ^ 16 - 2 ^ 15"

text \<open>\<open>_handle_input_message\<close> on a non-empty message: the input calls it makes.\<close>

definition handle_input_message :: "bool \<Rightarrow> bool \<Rightarrow> bytes \<Rightarrow> rd_action list" where
  "handle_input_message control_mode has_input data =
     (if \<not> control_mode \<or> \<not> has_input then []
      else if data ! 0 = RD_WIRE_INPUT_MOVE then
        (if 5 \<le> length data then [RD_Move (be16 (data ! 1) (data ! 2)) (be16 (data ! 3) (data ! 4))] else [])
      else if data ! 0 = RD_WIRE_INPUT_BUTTON then
        (if 3 \<le> length data then [RD_Button (uint (data ! 1)) (data ! 2 \<noteq> 0)] else [])
      else if data ! 0 = RD_WIRE_INPUT_SCROLL then
        (if 3 \<le> length data then [RD_Scroll (wrap16 (be16 (data ! 1) (data ! 2)))] else [])
      else if data ! 0 = RD_WIRE_INPUT_KEY then
        (if 3 \<le> length data then [RD_Key (uint (data ! 1)) (data ! 2 \<noteq> 0)] else [])
      else [])"

section \<open>Image sizes\<close>

definition EPS :: rat where "EPS = 1 / 2 ^ 53"

lemma EPS_pos: "0 < EPS" by (simp add: EPS_def)

lemma dround_le:
  assumes "0 \<le> x" shows "dround x \<le> x * (1 + EPS)"
proof (cases "x = 0")
  case False
  with assms have "\<bar>dround x - x\<bar> \<le> x / 2 ^ 53" by (intro dround_error) simp
  then have "dround x \<le> x + x / 2 ^ 53" by linarith
  moreover have "x / 2 ^ 53 = x * EPS" by (simp add: EPS_def)
  ultimately have "dround x \<le> x + x * EPS" by metis
  then show ?thesis by (simp add: distrib_left)
qed (simp add: dround_def)

lemma two_roundings:
  assumes "0 \<le> m" "m \<le> 2 ^ 31"
  shows "of_int m * (1 + EPS) * (1 + EPS) < of_int m + 1"
proof -
  have "of_int m \<le> (2 ^ 31 :: rat)" using assms(2) by (metis of_int_le_iff of_int_numeral of_int_power)
  then have "of_int m * (EPS * (2 + EPS)) \<le> 2 ^ 31 * (EPS * (2 + EPS))"
    by (rule mult_right_mono) (simp add: EPS_def)
  also have "\<dots> < 1" by (simp add: EPS_def)
  finally show ?thesis by (simp add: algebra_simps)
qed

lemma trunc_dround_le:
  assumes "0 \<le> p" "p \<le> of_int m * (1 + EPS)" "0 \<le> m" "m \<le> 2 ^ 31"
  shows "trunc_rat (dround p) \<le> m"
proof -
  have "dround p \<le> p * (1 + EPS)" by (rule dround_le [OF assms(1)])
  also have "\<dots> \<le> of_int m * (1 + EPS) * (1 + EPS)"
    using assms(2) EPS_pos by (intro mult_right_mono) simp_all
  also have "\<dots> < of_int m + 1" by (rule two_roundings [OF assms(3,4)])
  finally have "\<lfloor>dround p\<rfloor> < m + 1" by linarith
  then show ?thesis by (simp add: trunc_rat_def dround_nonneg)
qed

text \<open>A scale that is a rounded quotient below it, or at most 1 up to one rounding, keeps a side
  within its bound.\<close>

lemma scaled_side_le:
  assumes "0 \<le> sc" "1 \<le> a" "1 \<le> m" "m \<le> 2 ^ 31"
    and "m < a \<Longrightarrow> sc \<le> dround (of_int m / of_int a)" "a \<le> m \<Longrightarrow> sc \<le> 1 + EPS"
  shows "trunc_rat (dround (of_int a * sc)) \<le> m"
proof (rule trunc_dround_le)
  show "of_int a * sc \<le> of_int m * (1 + EPS)"
  proof (cases "m < a")
    case True
    have "sc \<le> of_int m / of_int a * (1 + EPS)"
      using assms(5) [OF True] dround_le [of "of_int m / of_int a"] assms(2,3) by force
    then have "of_int a * sc \<le> of_int a * (of_int m / of_int a * (1 + EPS))"
      using assms(2) by (intro mult_left_mono) simp_all
    then show ?thesis using assms(2) by simp
  next
    case False
    have "of_int a * sc \<le> of_int m * (1 + EPS)"
      using False assms(1,2,6) by (intro mult_mono) simp_all
    then show ?thesis .
  qed
qed (use assms in simp_all)

text \<open>the resolution of the stream is at most the one asked for, in both directions, and never
  zero, with the rounding of \<^verbatim>\<open>double\<close> taken into account; a screen that fits is not scaled.\<close>

theorem output_size_bounds:
  assumes "leo_rd_compute_output_size src_w src_h max_w max_h = (w, h)"
    and "1 \<le> src_w" "1 \<le> src_h" "1 \<le> max_w" "1 \<le> max_h" "max_w \<le> 2 ^ 31 - 1" "max_h \<le> 2 ^ 31 - 1"
  shows "1 \<le> w \<and> w \<le> max_w \<and> 1 \<le> h \<and> h \<le> max_h \<and> (src_w \<le> max_w \<and> src_h \<le> max_h \<longrightarrow> w = src_w \<and> h = src_h)"
proof (cases "src_w \<le> max_w \<and> src_h \<le> max_h")
  case True
  with assms show ?thesis by (simp add: leo_rd_compute_output_size_def)
next
  case False
  define s1 where "s1 = (if max_w < src_w then dround (of_int max_w / of_int src_w) else 1)"
  define sh where "sh = dround (of_int max_h / of_int src_h)"
  define sc where "sc = (if max_h < src_h then if sh < s1 then sh else s1 else s1)"
  have wh: "w = (let x = trunc_rat (dround (of_int src_w * sc)) in if x < 1 then 1 else x)"
    "h = (let x = trunc_rat (dround (of_int src_h * sc)) in if x < 1 then 1 else x)"
    using assms(1) False by (auto simp: leo_rd_compute_output_size_def Let_def s1_def sh_def sc_def split: if_splits)
  have sc: "0 \<le> sc" by (simp add: sc_def s1_def sh_def dround_nonneg)
  have quot: "dround (of_int m / of_int a) \<le> 1 + EPS" if "1 \<le> m" "m < a" for a m :: int
  proof -
    have "dround (of_int m / of_int a) \<le> of_int m / of_int a * (1 + EPS)"
      using that by (intro dround_le) simp
    also have "\<dots> \<le> 1 * (1 + EPS)" using that EPS_pos by (intro mult_right_mono) simp_all
    finally show ?thesis by simp
  qed
  have s1: "s1 \<le> 1 + EPS" using quot [of max_w src_w] assms(4) EPS_pos by (simp add: s1_def)
  have "sc \<le> s1" "max_h < src_h \<Longrightarrow> sc \<le> sh" by (simp_all add: sc_def)
  moreover have "max_w < src_w \<Longrightarrow> s1 = dround (of_int max_w / of_int src_w)" by (simp add: s1_def)
  ultimately have "trunc_rat (dround (of_int src_w * sc)) \<le> max_w" "trunc_rat (dround (of_int src_h * sc)) \<le> max_h"
    using assms(2-7) s1 unfolding sh_def by (auto intro!: scaled_side_le [OF sc])
  with assms False show ?thesis by (auto simp: wh Let_def)
qed

section \<open>Copying pixels\<close>

lemma length_copy_at: "off + n \<le> length src \<Longrightarrow> length (copy_at src off n) = n"
  by (simp add: copy_at_def)

lemma length_concat_map_const: "(\<And>x. x \<in> set xs \<Longrightarrow> length (f x) = k) \<Longrightarrow> length (concat (map f xs)) = k * length xs"
  by (induction xs) auto

lemma scaled_index_less:
  fixes x n m :: nat
  assumes "x < m" shows "x * n div m < n \<or> n = 0"
proof (cases "n = 0")
  case False
  with assms have "x * n < m * n" by simp
  then have "x * n div m < n" using assms by (intro less_mult_imp_div_less) (simp add: mult.commute)
  then show ?thesis ..
qed simp

lemma concat_rows: "concat (map (\<lambda>y. copy_at src (y * n) n) [0..<h]) = take (h * n) src"
proof (induction h)
  case (Suc h)
  have "take (h * n + n) src = take (h * n) src @ take n (drop (h * n) src)" by (rule take_add)
  with Suc show ?case by (simp add: copy_at_def add.commute)
qed simp

lemma repack_length:
  assumes "1 \<le> src_w" "1 \<le> src_h" "src_w * 4 \<le> stride" "(src_h - 1) * stride + src_w * 4 \<le> length src"
  shows "length (leo_rd_repack_scale out_w out_h src src_w src_h stride) = out_w * out_h * 4"
proof -
  have inside: "sy * stride + src_w * 4 \<le> length src" if "sy < src_h" for sy
  proof -
    have "sy * stride \<le> (src_h - 1) * stride" using that by (intro mult_right_mono) simp_all
    with assms(4) show ?thesis by linarith
  qed
  have row: "length (scale_row out_w src src_w (sy * stride)) = 4 * out_w" if "sy < src_h" for sy
  proof -
    have "sy * stride + x * src_w div out_w * 4 + 4 \<le> length src" if "x < out_w" for x
      using scaled_index_less [OF that, of src_w] assms(1) inside [OF \<open>sy < src_h\<close>] by auto
    then have "length (scale_row out_w src src_w (sy * stride)) = 4 * length [0..<out_w]"
      unfolding scale_row_def by (intro length_concat_map_const) (simp add: length_copy_at)
    then show ?thesis by simp
  qed
  show "length (leo_rd_repack_scale out_w out_h src src_w src_h stride) = out_w * out_h * 4"
  proof (cases "out_w = src_w \<and> out_h = src_h")
    case True
    then have "length (leo_rd_repack_scale out_w out_h src src_w src_h stride) = src_w * 4 * length [0..<src_h]"
      unfolding leo_rd_repack_scale_def if_P [OF True]
      using inside by (intro length_concat_map_const) (simp add: length_copy_at)
    with True show ?thesis by simp
  next
    case False
    have "length (leo_rd_repack_scale out_w out_h src src_w src_h stride) = 4 * out_w * length [0..<out_h]"
      unfolding leo_rd_repack_scale_def if_not_P [OF False]
    proof (rule length_concat_map_const)
      fix y assume "y \<in> set [0..<out_h]"
      then have "y * src_h div out_h < src_h" using scaled_index_less [of y out_h src_h] assms(2) by auto
      from row [OF this] show "length (let sy = y * src_h div out_h in scale_row out_w src src_w (sy * stride)) = 4 * out_w"
        by simp
    qed
    then show ?thesis by simp
  qed
qed

text \<open>copying or scaling a frame reads only inside the source image and writes exactly the
  \<open>4 w h\<close> bytes of the destination, whatever the two sizes and the stride; with equal sizes and no
  padding it is the identity.\<close>

theorem repack_in_bounds:
  assumes "1 \<le> src_w" "1 \<le> src_h" "src_w * 4 \<le> stride" "(src_h - 1) * stride + src_w * 4 \<le> length src"
  shows "length (leo_rd_repack_scale out_w out_h src src_w src_h stride) = out_w * out_h * 4 \<and>
         (stride = src_w * 4 \<and> length src = src_h * stride \<longrightarrow> leo_rd_repack_scale src_w src_h src src_w src_h stride = src)"
  using repack_length [OF assms] by (auto simp: leo_rd_repack_scale_def concat_rows)

section \<open>The wire\<close>

lemma uint_byte_k: "uint (byte_k n k) = n div 256 ^ k mod 256"
  by (simp add: byte_k_def uint_word_of_int)

text \<open>Reading a frame as \<^verbatim>\<open>remote_desktop.h\<close> documents it: type, 16-bit sizes, 32-bit sequence
  number, all big-endian, then the image.\<close>

definition decode_frame :: "bytes \<Rightarrow> (int \<times> int \<times> int \<times> bytes) option" where
  "decode_frame bs =
     (if length bs < 9 \<or> bs ! 0 \<noteq> RD_WIRE_FRAME then None
      else Some (be16 (bs ! 1) (bs ! 2), be16 (bs ! 3) (bs ! 4),
                 be16 (bs ! 5) (bs ! 6) * 65536 + be16 (bs ! 7) (bs ! 8), drop 9 bs))"

lemma be16_bytes: "be16 (byte_k n (Suc 0)) (byte_k n 0) = n mod 65536"
proof -
  have "n mod (256 * 256) = 256 * (n div 256 mod 256) + n mod 256" by (rule zmod_zmult2_eq) simp
  then show ?thesis by (simp add: be16_def uint_byte_k)
qed

lemma be32_bytes: "be16 (byte_k n 3) (byte_k n 2) * 65536 + be16 (byte_k n 1) (byte_k n 0) = n mod 4294967296"
proof -
  have "be16 (byte_k n 3) (byte_k n 2) = n div 65536 mod 65536"
  proof -
    have "byte_k n 3 = byte_k (n div 65536) 1" "byte_k n 2 = byte_k (n div 65536) 0"
      by (simp_all add: byte_k_def zdiv_zmult2_eq flip: zdiv_zmult2_eq)
    then show ?thesis by (simp add: be16_bytes)
  qed
  moreover have "n mod (65536 * 65536) = 65536 * (n div 65536 mod 65536) + n mod 65536"
    by (rule zmod_zmult2_eq) simp
  ultimately show ?thesis by (simp add: be16_bytes)
qed

lemma wrap16_mod: "- 32768 \<le> d \<Longrightarrow> d < 32768 \<Longrightarrow> wrap16 (d mod 65536) = d"
proof -
  assume "- 32768 \<le> d" "d < 32768"
  then have "(d + 32768) mod 65536 = d + 32768" by (intro mod_pos_pos_trivial) simp_all
  then show ?thesis by (simp add: wrap16_def mod_add_left_eq)
qed

text \<open>in control mode the agent acts on exactly the documented input messages, with the values
  the browser encoded: positions of 16 bits, signed scrolls of 16 bits, buttons and keys of one byte;
  a message that is too short is ignored.\<close>

theorem input_decoded:
  assumes "0 \<le> x" "x < 65536" "0 \<le> y" "y < 65536" "- 32768 \<le> d" "d < 32768"
  shows "handle_input_message True True [RD_WIRE_INPUT_MOVE, byte_k x 1, byte_k x 0, byte_k y 1, byte_k y 0] = [RD_Move x y] \<and>
         handle_input_message True True [RD_WIRE_INPUT_SCROLL, byte_k d 1, byte_k d 0] = [RD_Scroll d] \<and>
         handle_input_message True True [RD_WIRE_INPUT_BUTTON, b, v] = [RD_Button (uint b) (v \<noteq> 0)] \<and>
         handle_input_message True True [RD_WIRE_INPUT_KEY, b, v] = [RD_Key (uint b) (v \<noteq> 0)] \<and>
         (\<forall>data. data \<noteq> [] \<and> length data < 3 \<longrightarrow> handle_input_message True True data = [])"
  using assms by (auto simp: handle_input_message_def wire_types be16_bytes wrap16_mod)

section \<open>Concrete instances\<close>

theorem output_size_bounds_witness:
  "leo_rd_compute_output_size 1280 720 1920 1080 = (1280, 720) \<and> (1280 :: int) \<le> 1920 \<and> (720 :: int) \<le> 1080"
proof -
  have "leo_rd_compute_output_size 1280 720 1920 1080 = (1280, 720)" by (simp add: leo_rd_compute_output_size_def)
  with output_size_bounds [OF this] show ?thesis by simp
qed

theorem repack_in_bounds_witness:
  "length (leo_rd_repack_scale 1 1 (replicate 24 7) 2 2 12) = 4 \<and>
   leo_rd_repack_scale 2 2 [1, 2, 3, 4, 5, 6, 7, 8, 9, 10, 11, 12, 13, 14, 15, 16] 2 2 8 =
     [1, 2, 3, 4, 5, 6, 7, 8, 9, 10, 11, 12, 13, 14, 15, 16]"
  using repack_in_bounds [of 2 2 12 "replicate 24 7" 1 1]
    repack_in_bounds [of 2 2 8 "[1, 2, 3, 4, 5, 6, 7, 8, 9, 10, 11, 12, 13, 14, 15, 16]" 2 2] by simp

theorem input_decoded_witness:
  "handle_input_message True True [RD_WIRE_INPUT_SCROLL, byte_k (- 3) 1, byte_k (- 3) 0] = [RD_Scroll (- 3)]"
  using input_decoded [of 0 0 "- 3"] by simp

end
