(* ===== verification/Remote_Desktop.thy ===== *)
theory Remote_Desktop
  imports Connection Rd_Wire
begin

text \<open>
  \<^verbatim>\<open>agent/src/remote_desktop.c\<close>: the remote desktop session. The image helpers and the binary
  protocol are in \<^verbatim>\<open>Rd_Wire\<close>; the dedicated connection's callbacks are \<open>rd_callback\<close>; the
  session thread is \<open>rd_session_thread\<close>, over the turns of its service loop. The start and the end of
  sessions, which share \<^verbatim>\<open>g_rd_ctx\<close> and \<^verbatim>\<open>g_rd_thread_running\<close> under two different mutexes, are the
  step relation \<open>rd_step\<close>. Screen capture, JPEG compression and JSON parsing are arguments.
\<close>

section \<open>The session\<close>

record rd_session =
  rd_session_id :: cstring
  rd_control_mode :: bool
  rd_fps :: int
  rd_quality :: int
  rd_max_width :: int
  rd_max_height :: int
  rd_config :: leo_config
  rd_control_conn :: "leo_conn option"
  rd_ep :: endpoint
  rd_cap :: bool             \<comment> \<open>\<^verbatim>\<open>cap != NULL\<close>\<close>
  rd_input :: bool
  rd_frame_seq :: u32
  rd_capture_failures :: int
  rd_established :: bool
  rd_done :: bool
  rd_fail_reason :: cstring
  rd_should_stop :: bool
  rd_reports :: "(cstring \<times> cstring option) list" \<comment> \<open>statuses reported so far\<close>

datatype rd_effect = RD_Input rd_action | RD_Arm_Timer int | RD_On_Writable | RD_Write bytes

text \<open>A captured frame and what \<^verbatim>\<open>tjCompress2\<close> makes of it.\<close>

record rd_frame =
  fr_width :: int
  fr_height :: int
  fr_jpeg :: "bytes option"

datatype 'cert rd_reason =
    RD_Connection_Error cstring
  | RD_Established bool bool            \<comment> \<open>capture opened, input opened\<close>
  | RD_Receive "bytes option"
  | RD_Timer
  | RD_Writeable "rd_frame option" bool \<comment> \<open>the grab, and whether \<^verbatim>\<open>malloc\<close> succeeds\<close>
  | RD_Closed
  | RD_Verify "'cert store_ctx option"
  | RD_Other

definition ws_url_parse :: "cstring \<Rightarrow> nat \<Rightarrow> nat \<Rightarrow> endpoint option" where
  "ws_url_parse url hsz psz =
     (let p = ws_rest url; slash = strchr SLASH p; colon = strchr COLON p;
          path = strncpy_buf psz (case slash of Some s \<Rightarrow> drop s p | None \<Rightarrow> ''/'')
      in case colon_first colon slash of
           Some c \<Rightarrow>
             if c = 0 \<or> hsz \<le> c then None
             else let port = atoi (drop (Suc c) p) in
                  if port \<le> 0 \<or> 65535 < port then None
                  else Some \<lparr>ep_host = take c p, ep_port = port, ep_path = path\<rparr>
         | None \<Rightarrow>
             let host_len = (case slash of Some s \<Rightarrow> s | None \<Rightarrow> length p) in
             if host_len = 0 \<or> hsz \<le> host_len then None
             else Some \<lparr>ep_host = take host_len p, ep_port = 443, ep_path = path\<rparr>)"

definition report_status :: "proto_env \<Rightarrow> cstring \<Rightarrow> cstring option \<Rightarrow> rd_session \<Rightarrow> rd_session" where
  "report_status env status err s =
     (case rd_control_conn s of
        None \<Rightarrow> s
      | Some c \<Rightarrow>
          let s = s\<lparr>rd_reports := rd_reports s @ [(status, err)]\<rparr> in
          (case leo_proto_build_remote_desktop_status env (Some (rd_session_id s)) (Some status) err 512 of
             None \<Rightarrow> s
           | Some m \<Rightarrow> if m = [] then s
                       else s\<lparr>rd_control_conn := fst (snd (leo_conn_send (Some c) (Some m) (length m)))\<rparr>))"

definition handle_control_message :: "(bytes \<Rightarrow> json option) \<Rightarrow> bytes \<Rightarrow> rd_session \<Rightarrow> rd_session" where
  "handle_control_message parse data s =
     (if length data < 2 then s
      else case parse (drop 1 data) of
             None \<Rightarrow> s
           | Some j \<Rightarrow> if as_string (get_object_item j ''type'') = Some ''stop'' then s\<lparr>rd_done := True\<rparr> else s)"

definition frame_interval :: "rd_session \<Rightarrow> int" where
  "frame_interval s = 1000000 div (if 0 < rd_fps s then rd_fps s else 1)"

definition MSG_CAPTURE_FAILED :: cstring where
  "MSG_CAPTURE_FAILED = [CHR 0xC3, CHR 0x89] @ ''checs de capture d'' @ [CHR 0x27, CHR 0xC3, CHR 0xA9] @ ''cran r'' @ [CHR 0xC3, CHR 0xA9] @ ''p'' @ [CHR 0xC3, CHR 0xA9] @ ''t'' @ [CHR 0xC3, CHR 0xA9] @ ''s''"

definition send_frame :: "rd_frame option \<Rightarrow> bool \<Rightarrow> rd_session \<Rightarrow> rd_session \<times> rd_effect list" where
  "send_frame grab malloc_ok s =
     (case grab of
        None \<Rightarrow>
          let s = s\<lparr>rd_capture_failures := rd_capture_failures s + 1\<rparr> in
          (if 20 \<le> rd_capture_failures s
           then s\<lparr>rd_fail_reason := strncpy_buf 128 MSG_CAPTURE_FAILED, rd_done := True\<rparr> else s, [])
      | Some fr \<Rightarrow>
          let s = s\<lparr>rd_capture_failures := 0\<rparr> in
          (case fr_jpeg fr of
             None \<Rightarrow> (s, [])
           | Some jpeg \<Rightarrow>
               if \<not> malloc_ok then (s, [])
               else (s\<lparr>rd_frame_seq := rd_frame_seq s + 1\<rparr>,
                     [RD_Write (frame_header (fr_width fr) (fr_height fr) (rd_frame_seq s) @ jpeg)])))"

definition MSG_RD_CONNECT :: cstring where
  "MSG_RD_CONNECT = ''Connexion d'' @ [CHR 0xC3, CHR 0xA9] @ ''di'' @ [CHR 0xC3, CHR 0xA9] @ ''e '' @ [CHR 0xC3, CHR 0xA9] @ ''chou'' @ [CHR 0xC3, CHR 0xA9] @ ''e : ''"

definition MSG_NO_CAPTURE :: cstring where
  "MSG_NO_CAPTURE = ''Capture d'' @ [CHR 0x27, CHR 0xC3, CHR 0xA9] @ ''cran indisponible''"

definition MSG_NO_INPUT :: cstring where
  "MSG_NO_INPUT = ''Injection d'' @ [CHR 0x27] @ ''input indisponible''"

definition rd_callback ::
  "(bytes \<Rightarrow> json option) \<Rightarrow> 'cert openssl \<Rightarrow> 'cert rd_reason \<Rightarrow> rd_session \<Rightarrow> int \<times> rd_session \<times> rd_effect list" where
  "rd_callback parse ossl reason s =
     (case reason of
        RD_Connection_Error msg \<Rightarrow>
          (0, s\<lparr>rd_fail_reason := strncpy_buf 128 (MSG_RD_CONNECT @ msg), rd_done := True\<rparr>, [])
      | RD_Established cap_ok input_ok \<Rightarrow>
          let s = s\<lparr>rd_cap := cap_ok\<rparr> in
          if \<not> cap_ok then (0, s\<lparr>rd_fail_reason := strncpy_buf 128 MSG_NO_CAPTURE, rd_done := True\<rparr>, [])
          else
            let s = (if rd_control_mode s then s\<lparr>rd_input := input_ok\<rparr> else s) in
            if rd_control_mode s \<and> \<not> input_ok
            then (0, s\<lparr>rd_fail_reason := strncpy_buf 128 MSG_NO_INPUT, rd_done := True\<rparr>, [])
            else (0, s\<lparr>rd_established := True\<rparr>, [RD_Arm_Timer (frame_interval s)])
      | RD_Receive inp \<Rightarrow>
          (case inp of
             None \<Rightarrow> (0, s, [])
           | Some data \<Rightarrow>
               if data \<noteq> [] \<and> rd_established s then
                 if data ! 0 = RD_WIRE_CONTROL then (0, handle_control_message parse data s, [])
                 else (0, s, map RD_Input (handle_input_message (rd_control_mode s) (rd_input s) data))
               else (0, s, []))
      | RD_Timer \<Rightarrow>
          if rd_established s \<and> \<not> rd_done s then (0, s, [RD_On_Writable, RD_Arm_Timer (frame_interval s)]) else (0, s, [])
      | RD_Writeable grab malloc_ok \<Rightarrow>
          if rd_established s \<and> \<not> rd_done s
          then let (s, eff) = send_frame grab malloc_ok s in (0, s, eff) else (0, s, [])
      | RD_Closed \<Rightarrow> (0, s\<lparr>rd_done := True\<rparr>, [])
      | RD_Verify store \<Rightarrow>
          (case store of
             None \<Rightarrow> (1, s, [])
           | Some ctx \<Rightarrow>
               if error_depth ctx \<noteq> 0 then (0, s, [])
               else if current_cert ctx \<noteq> None \<and>
                       leo_crypto_x509_fingerprint_matches ossl (current_cert ctx) (Some (ca_fingerprint (rd_config s)))
               then (0, s, []) else (1, s, []))
      | RD_Other \<Rightarrow> (0, s, []))"

section \<open>The session thread\<close>

fun rd_callbacks ::
  "(bytes \<Rightarrow> json option) \<Rightarrow> 'cert openssl \<Rightarrow> 'cert rd_reason list \<Rightarrow> rd_session \<Rightarrow> rd_session \<times> rd_effect list" where
  "rd_callbacks parse ossl [] s = (s, [])"
| "rd_callbacks parse ossl (r # rs) s =
     (let (rc, s, eff) = rd_callback parse ossl r s; (s, eff') = rd_callbacks parse ossl rs s in (s, eff @ eff'))"

text \<open>One turn of the loop: \<^verbatim>\<open>should_stop\<close> as it is read at its head, the callbacks, the return code of
  \<^verbatim>\<open>lws_service\<close>, the clock.\<close>

record 'cert rd_turn =
  rt_stop :: bool
  rt_calls :: "'cert rd_reason list"
  rt_service_ok :: bool
  rt_now :: int

definition MSG_RD_MAX :: cstring where
  "MSG_RD_MAX = ''Dur'' @ [CHR 0xC3, CHR 0xA9] @ ''e maximale de session atteinte ('' @ show_int LEO_RD_MAX_SESSION_SEC @ ''s)''"

fun rd_loop ::
  "(bytes \<Rightarrow> json option) \<Rightarrow> 'cert openssl \<Rightarrow> int \<Rightarrow> 'cert rd_turn list \<Rightarrow> rd_session \<Rightarrow>
   (rd_session \<times> rd_effect list) option" where
  "rd_loop parse ossl deadline [] s = (if rd_done s \<or> rd_should_stop s then Some (s, []) else None)"
| "rd_loop parse ossl deadline (t # ts) s =
     (let s = s\<lparr>rd_should_stop := rd_should_stop s \<or> rt_stop t\<rparr> in
      if rd_done s \<or> rd_should_stop s then Some (s, [])
      else
        let (s, eff) = rd_callbacks parse ossl (rt_calls t) s in
        if \<not> rt_service_ok t then Some (s, eff)
        else
          let s = (if deadline < rt_now t
                   then s\<lparr>rd_fail_reason := strncpy_buf 128 MSG_RD_MAX, rd_done := True\<rparr> else s)
          in map_option (\<lambda>(s', eff'). (s', eff @ eff')) (rd_loop parse ossl deadline ts s))"

record 'cert rd_env =
  rd_tj_ok :: bool
  rd_context_ok :: bool
  rd_connect_ok :: bool
  rd_now :: int
  rd_turns :: "'cert rd_turn list"
  rd_proto :: proto_env
  rd_parse :: "bytes \<Rightarrow> json option"
  rd_ossl :: "'cert openssl"

definition MSG_TJ :: cstring where
  "MSG_TJ = ''Initialisation de l'' @ [CHR 0x27] @ ''encodeur JPEG '' @ [CHR 0xC3, CHR 0xA9] @ ''chou'' @ [CHR 0xC3, CHR 0xA9] @ ''e''"

text \<open>Up to the label \<^verbatim>\<open>done\<close>: the session at its end and the effects of its callbacks.\<close>

definition rd_session_thread :: "'cert rd_env \<Rightarrow> rd_session \<Rightarrow> (rd_session \<times> rd_effect list) option" where
  "rd_session_thread env s =
     (let report = report_status (rd_proto env) in
      if \<not> rd_tj_ok env then Some (report ''failed'' (Some MSG_TJ) s, [])
      else if \<not> rd_context_ok env then
        Some (report ''failed'' (Some (''Contexte r'' @ [CHR 0xC3, CHR 0xA9] @ ''seau indisponible'')) s, [])
      else if \<not> rd_connect_ok env then Some (report ''failed'' (Some ''Connexion au serveur impossible'') s, [])
      else
        map_option (\<lambda>(s, eff).
            (if rd_fail_reason s \<noteq> [] then report ''failed'' (Some (rd_fail_reason s)) s
             else report ''ended'' None s, eff))
          (rd_loop (rd_parse env) (rd_ossl env) (rd_now env + LEO_RD_MAX_SESSION_SEC) (rd_turns env) s))"

section \<open>Starting and stopping\<close>

text \<open>The context \<^verbatim>\<open>leo_rd_start\<close> fills in; \<open>None\<close> when the URL does not parse.\<close>

definition rd_new_session ::
  "leo_conn \<Rightarrow> leo_config \<Rightarrow> cstring \<Rightarrow> cstring \<Rightarrow> cstring option \<Rightarrow> int \<Rightarrow> int \<Rightarrow> int \<Rightarrow> int \<Rightarrow> rd_session option" where
  "rd_new_session conn config session_id ws_url mode fps quality max_width max_height =
     map_option (\<lambda>e.
       \<lparr>rd_session_id = strncpy_buf LEO_UUID_STR_LEN session_id,
        rd_control_mode = (mode = Some ''control''),
        rd_fps = (if 0 < fps then fps else 8),
        rd_quality = (if 0 < quality then quality else 60),
        rd_max_width = (if 0 < max_width then max_width else 1920),
        rd_max_height = (if 0 < max_height then max_height else 1080),
        rd_config = config, rd_control_conn = Some conn, rd_ep = e, rd_cap = False, rd_input = False,
        rd_frame_seq = 0, rd_capture_failures = 0, rd_established = False, rd_done = False,
        rd_fail_reason = [], rd_should_stop = False, rd_reports = []\<rparr>)
       (ws_url_parse ws_url 256 LEO_RD_WS_URL_MAX_LEN)"

text \<open>The globals, and the calls as one thread sees them when no other interferes.\<close>

record rd_globals =
  g_rd_ctx :: "rd_session option"
  g_rd_thread_running :: bool

definition leo_rd_start ::
  "rd_globals \<Rightarrow> leo_conn option \<Rightarrow> leo_config \<Rightarrow> cstring option \<Rightarrow> cstring option \<Rightarrow> cstring option \<Rightarrow>
   int \<Rightarrow> int \<Rightarrow> int \<Rightarrow> int \<Rightarrow> bool \<Rightarrow> bool \<Rightarrow> bool \<times> rd_globals" where
  "leo_rd_start g conn config session_id ws_url mode fps quality max_width max_height calloc_ok thread_ok =
     (case (conn, session_id, ws_url) of
        (Some c, Some sid, Some url) \<Rightarrow>
          if g_rd_ctx g \<noteq> None then (False, g)
          else if \<not> calloc_ok then (False, g)
          else (case rd_new_session c config sid url mode fps quality max_width max_height of
                  None \<Rightarrow> (False, g)
                | Some s \<Rightarrow>
                    if \<not> thread_ok then (False, g\<lparr>g_rd_ctx := None, g_rd_thread_running := False\<rparr>)
                    else (True, g\<lparr>g_rd_ctx := Some s, g_rd_thread_running := True\<rparr>))
      | _ \<Rightarrow> (False, g))"

text \<open>\<open>_rd_wait_thread_exit\<close>: the values of \<^verbatim>\<open>g_rd_thread_running\<close> read before the deadline; the list
  ends with the timeout.\<close>

definition rd_wait_thread_exit :: "bool list \<Rightarrow> bool" where
  "rd_wait_thread_exit running_seen = list_ex (\<lambda>running. \<not> running) running_seen"

text \<open>The globals after a stop request, and the outcome of the wait when there was one.\<close>

definition leo_rd_stop :: "cstring option \<Rightarrow> bool list \<Rightarrow> rd_globals \<Rightarrow> rd_globals \<times> bool option" where
  "leo_rd_stop session_id running_seen g =
     (case g_rd_ctx g of
        None \<Rightarrow> (g, None)
      | Some s \<Rightarrow>
          if (case session_id of Some i \<Rightarrow> rd_session_id s \<noteq> i | None \<Rightarrow> False) then (g, None)
          else (g\<lparr>g_rd_ctx := Some (s\<lparr>rd_should_stop := True\<rparr>)\<rparr>, Some (rd_wait_thread_exit running_seen)))"

definition leo_rd_stop_all :: "bool list \<Rightarrow> rd_globals \<Rightarrow> rd_globals \<times> bool" where
  "leo_rd_stop_all running_seen g =
     (g\<lparr>g_rd_ctx := map_option (\<lambda>s. s\<lparr>rd_should_stop := True\<rparr>) (g_rd_ctx g)\<rparr>, rd_wait_thread_exit running_seen)"

section \<open>Sessions over time\<close>

text \<open>A session thread runs, then has cleared \<^verbatim>\<open>g_rd_ctx\<close> but not yet \<^verbatim>\<open>g_rd_thread_running\<close>, then is
  gone. The starting thread has claimed \<^verbatim>\<open>g_rd_ctx\<close>, then set \<^verbatim>\<open>g_rd_thread_running\<close>, then created the
  thread, or undoes both when that fails. Sessions are numbered.\<close>

datatype rd_pc = T_none | T_run | T_cleared | T_gone
datatype start_pc = I_idle | I_claimed nat | I_marked nat | I_undoing nat

record rd_sys =
  sys_ctx :: "nat option"
  sys_running :: bool
  sys_threads :: "nat \<Rightarrow> rd_pc"
  sys_start :: start_pc
  sys_next :: nat

definition rd_init :: "rd_sys \<Rightarrow> bool" where
  "rd_init s \<longleftrightarrow> s = \<lparr>sys_ctx = None, sys_running = False, sys_threads = (\<lambda>_. T_none), sys_start = I_idle, sys_next = 0\<rparr>"

inductive rd_step :: "rd_sys \<Rightarrow> rd_sys \<Rightarrow> bool" where
  claim: "sys_start s = I_idle \<Longrightarrow> sys_ctx s = None \<Longrightarrow>
    rd_step s (s\<lparr>sys_ctx := Some (sys_next s), sys_start := I_claimed (sys_next s), sys_next := Suc (sys_next s)\<rparr>)"
| mark: "sys_start s = I_claimed n \<Longrightarrow> rd_step s (s\<lparr>sys_running := True, sys_start := I_marked n\<rparr>)"
| created: "sys_start s = I_marked n \<Longrightarrow>
    rd_step s (s\<lparr>sys_threads := (sys_threads s)(n := T_run), sys_start := I_idle\<rparr>)"
| not_created: "sys_start s = I_marked n \<Longrightarrow> rd_step s (s\<lparr>sys_ctx := None, sys_start := I_undoing n\<rparr>)"
| undone: "sys_start s = I_undoing n \<Longrightarrow> rd_step s (s\<lparr>sys_running := False, sys_start := I_idle\<rparr>)"
| ending: "sys_threads s n = T_run \<Longrightarrow>
    rd_step s (s\<lparr>sys_threads := (sys_threads s)(n := T_cleared),
                 sys_ctx := (if sys_ctx s = Some n then None else sys_ctx s)\<rparr>)"
| exiting: "sys_threads s n = T_cleared \<Longrightarrow>
    rd_step s (s\<lparr>sys_threads := (sys_threads s)(n := T_gone), sys_running := False\<rparr>)"

inductive_cases rd_stepE: "rd_step s s'"

text \<open>a frame written by the agent reads back, by the documented layout, as its sequence
  number, its image and its sizes, for sizes below 65536; consecutive frames of a session carry
  consecutive sequence numbers modulo \<open>2 ^ 32\<close>, and a frame that was not sent takes no number.\<close>

theorem frame_roundtrip:
  assumes "0 \<le> w" "w < 65536" "0 \<le> h" "h < 65536"
  shows "send_frame (Some \<lparr>fr_width = w, fr_height = h, fr_jpeg = Some jpeg\<rparr>) True s =
           (s\<lparr>rd_capture_failures := 0, rd_frame_seq := rd_frame_seq s + 1\<rparr>,
            [RD_Write (frame_header w h (rd_frame_seq s) @ jpeg)]) \<and>
         decode_frame (frame_header w h (rd_frame_seq s) @ jpeg) = Some (w, h, uint (rd_frame_seq s), jpeg) \<and>
         (\<forall>grab ok. snd (send_frame grab ok s) = [] \<longrightarrow> rd_frame_seq (fst (send_frame grab ok s)) = rd_frame_seq s)"
proof (intro conjI allI impI)
  have "uint (rd_frame_seq s) mod 4294967296 = uint (rd_frame_seq s)"
    using uint_lt2p [of "rd_frame_seq s"] by simp
  then show "decode_frame (frame_header w h (rd_frame_seq s) @ jpeg) = Some (w, h, uint (rd_frame_seq s), jpeg)"
    using assms be32_bytes [of "uint (rd_frame_seq s)"]
    by (simp add: decode_frame_def frame_header_def be16_bytes)
qed (auto simp: send_frame_def Let_def split: option.splits if_splits)

section \<open>View mode\<close>

text \<open>What no callback changes, and what each adds to the effects.\<close>

lemma handle_control_message_keeps [simp]:
  "rd_control_mode (handle_control_message parse data s) = rd_control_mode s"
  "rd_input (handle_control_message parse data s) = rd_input s"
  "rd_established (handle_control_message parse data s) = rd_established s"
  "rd_reports (handle_control_message parse data s) = rd_reports s"
  "rd_control_conn (handle_control_message parse data s) = rd_control_conn s"
  by (auto simp: handle_control_message_def split: option.splits)

lemma send_frame_keeps:
  assumes "send_frame grab ok s = (s', eff)"
  shows "rd_control_mode s' = rd_control_mode s" "rd_input s' = rd_input s" "rd_reports s' = rd_reports s"
    "rd_control_conn s' = rd_control_conn s" "RD_Input a \<notin> set eff"
  using assms by (auto simp: send_frame_def Let_def split: option.splits if_splits)

lemma rd_callback_keeps:
  assumes "rd_callback parse ossl r s = (rc, s', eff)"
  shows "rd_control_mode s' = rd_control_mode s" "rd_reports s' = rd_reports s" "rd_control_conn s' = rd_control_conn s"
  using assms by (auto simp: rd_callback_def Let_def send_frame_keeps split: rd_reason.splits option.splits if_splits prod.splits)

lemma rd_callback_view:
  assumes "rd_callback parse ossl r s = (rc, s', eff)" "\<not> rd_control_mode s"
  shows "RD_Input a \<notin> set eff"
  using assms
  by (auto simp: rd_callback_def Let_def handle_input_message_def send_frame_keeps
      split: rd_reason.splits option.splits if_splits prod.splits)

lemma rd_callbacks_keeps:
  assumes "rd_callbacks parse ossl rs s = (s', eff)"
  shows "rd_control_mode s' = rd_control_mode s \<and> rd_reports s' = rd_reports s \<and> rd_control_conn s' = rd_control_conn s \<and>
         (\<not> rd_control_mode s \<longrightarrow> RD_Input a \<notin> set eff)"
  using assms
proof (induction rs arbitrary: s s' eff)
  case (Cons r rs)
  obtain rc s1 e1 where 1: "rd_callback parse ossl r s = (rc, s1, e1)" by (metis prod_cases3)
  obtain s2 e2 where 2: "rd_callbacks parse ossl rs s1 = (s2, e2)" by fastforce
  from Cons.IH [OF 2] Cons.prems rd_callback_keeps [OF 1] rd_callback_view [OF 1] 1 2 show ?case by auto
qed simp

lemma rd_loop_keeps:
  assumes "rd_loop parse ossl dl ts s = Some (s', eff)"
  shows "rd_control_mode s' = rd_control_mode s \<and> rd_reports s' = rd_reports s \<and> rd_control_conn s' = rd_control_conn s \<and>
         (\<not> rd_control_mode s \<longrightarrow> RD_Input a \<notin> set eff)"
  using assms
proof (induction ts arbitrary: s s' eff)
  case Nil
  then show ?case by (auto split: if_splits)
next
  case (Cons t ts)
  let ?s = "s\<lparr>rd_should_stop := rd_should_stop s \<or> rt_stop t\<rparr>"
  obtain s1 e1 where 1: "rd_callbacks parse ossl (rt_calls t) ?s = (s1, e1)" by fastforce
  let ?s1 = "if dl < rt_now t then s1\<lparr>rd_fail_reason := strncpy_buf 128 MSG_RD_MAX, rd_done := True\<rparr> else s1"
  show ?case
  proof (cases "rd_done ?s \<or> rd_should_stop ?s \<or> \<not> rt_service_ok t")
    case True
    with Cons.prems rd_callbacks_keeps [OF 1] 1 show ?thesis by (auto simp: Let_def split: if_splits)
  next
    case False
    with Cons.prems 1 obtain e2 where 2: "rd_loop parse ossl dl ts ?s1 = Some (s', e2)" "eff = e1 @ e2"
      by (auto simp: Let_def)
    from Cons.IH [OF 2(1)] rd_callbacks_keeps [OF 1] 2(2) show ?thesis by (auto split: if_splits)
  qed
qed

lemma report_status_reports:
  "rd_reports (report_status env st err s) = (if rd_control_conn s = None then rd_reports s else rd_reports s @ [(st, err)])"
  "rd_control_mode (report_status env st err s) = rd_control_mode s"
  by (auto simp: report_status_def Let_def split: option.splits)

text \<open>C20: a session that was not started in control mode never injects an input, whatever arrives on
  its connection, and a mode other than the word \<^verbatim>\<open>control\<close> is not control mode. At its end a session
  reports exactly one status: failed with the reason when there is one, ended otherwise.\<close>

theorem view_session_never_injects:
  assumes "rd_new_session conn config sid url mode fps q mw mh = Some s" "rd_session_thread env s = Some (s', eff)"
  shows "(mode \<noteq> Some ''control'' \<longrightarrow> (\<forall>a. RD_Input a \<notin> set eff)) \<and>
         (rd_reports s' = [(''ended'', None)] \<or> (\<exists>why. why \<noteq> [] \<and> rd_reports s' = [(''failed'', Some why)]))"
proof -
  have s: "rd_control_mode s = (mode = Some ''control'')" "rd_reports s = []" "rd_control_conn s = Some conn"
    using assms(1) by (auto simp: rd_new_session_def)
  show ?thesis
  proof (cases "rd_tj_ok env \<and> rd_context_ok env \<and> rd_connect_ok env")
    case False
    with assms(2) s show ?thesis
      by (auto simp: rd_session_thread_def Let_def report_status_reports MSG_TJ_def split: if_splits)
  next
    case True
    with assms(2) obtain s1 where loop:
      "rd_loop (rd_parse env) (rd_ossl env) (rd_now env + LEO_RD_MAX_SESSION_SEC) (rd_turns env) s = Some (s1, eff)"
      "s' = (if rd_fail_reason s1 \<noteq> [] then report_status (rd_proto env) ''failed'' (Some (rd_fail_reason s1)) s1
             else report_status (rd_proto env) ''ended'' None s1)"
      by (auto simp: rd_session_thread_def Let_def)
    from rd_loop_keeps [OF loop(1)] s loop(2) show ?thesis by (auto simp: report_status_reports)
  qed
qed

section \<open>One session at a time\<close>

definition rd_inv :: "rd_sys \<Rightarrow> bool" where
  "rd_inv s \<longleftrightarrow>
     (\<forall>n. sys_threads s n = T_run \<longrightarrow> sys_ctx s = Some n) \<and>
     (\<forall>n. sys_next s \<le> n \<longrightarrow> sys_threads s n = T_none) \<and>
     (\<forall>n. sys_ctx s = Some n \<longrightarrow> n < sys_next s) \<and>
     (\<forall>n. sys_start s = I_claimed n \<or> sys_start s = I_marked n \<longrightarrow> sys_ctx s = Some n \<and> sys_threads s n = T_none)"

lemma rd_inv_step:
  assumes "rd_step s s'" "rd_inv s"
  shows "rd_inv s'"
proof -
  from assms(2) have run: "\<And>n. sys_threads s n = T_run \<Longrightarrow> sys_ctx s = Some n"
    and fresh: "\<And>n. sys_next s \<le> n \<Longrightarrow> sys_threads s n = T_none"
    and ctx: "\<And>n. sys_ctx s = Some n \<Longrightarrow> n < sys_next s"
    and start: "\<And>n. sys_start s = I_claimed n \<or> sys_start s = I_marked n \<Longrightarrow> sys_ctx s = Some n \<and> sys_threads s n = T_none"
    unfolding rd_inv_def by blast+
  from assms(1) show ?thesis
  proof cases
    case claim
    then show ?thesis using run fresh by (force simp: rd_inv_def)
  next
    case (mark n)
    then show ?thesis using run fresh ctx start [of n] by (simp add: rd_inv_def)
  next
    case (created n)
    then show ?thesis using run fresh ctx start [of n] by (auto simp: rd_inv_def)
  next
    case (not_created n)
    then show ?thesis using run fresh start [of n] by (force simp: rd_inv_def)
  next
    case (undone n)
    then show ?thesis using run fresh ctx by (simp add: rd_inv_def)
  next
    case (ending n)
    have "sys_ctx s = Some n" using run ending by blast
    moreover have "sys_start s \<noteq> I_claimed k \<and> sys_start s \<noteq> I_marked k" for k
      using start [of k] run [OF ending(2)] ending(2) by auto
    moreover have "sys_threads s k \<noteq> T_run" if "k \<noteq> n" for k using run [of k] \<open>sys_ctx s = Some n\<close> that by auto
    moreover have "n < sys_next s" using fresh [of n] ending(2) by (metis not_le rd_pc.distinct(1))
    ultimately show ?thesis using ending fresh by (auto simp: rd_inv_def)
  next
    case (exiting n)
    have "n < sys_next s" using fresh [of n] exiting(2) by (metis not_le rd_pc.distinct(3))
    moreover have "sys_start s \<noteq> I_claimed n \<and> sys_start s \<noteq> I_marked n" using start [of n] exiting(2) by auto
    ultimately show ?thesis using assms(2) exiting unfolding rd_inv_def by simp
  qed
qed

interpretation rdsys: invariant_system rd_init rd_step rd_inv
  by unfold_locales (auto simp: rd_init_def intro: rd_inv_step, simp add: rd_inv_def)

text \<open>C21: at most one session thread runs at any moment, in every interleaving of starts, failed
  starts and ends, and it is the one \<^verbatim>\<open>g_rd_ctx\<close> designates, so that a stop request reaches it.\<close>

theorem at_most_one_session:
  assumes "reach rd_init rd_step s" "sys_threads s m = T_run"
  shows "sys_ctx s = Some m \<and> (\<forall>n. sys_threads s n = T_run \<longrightarrow> n = m)"
  using rdsys.always [OF assms(1)] assms(2) unfolding rd_inv_def by (metis option.inject)

text \<open>The flag that \<^verbatim>\<open>leo_rd_stop_all\<close> waits for is not tied to a session: an old session thread that
  has released \<^verbatim>\<open>g_rd_ctx\<close> clears it after a new session has set it, and then a session thread runs
  while the flag says none does.\<close>

theorem running_flag_unsound:
  "\<exists>s n. reach rd_init rd_step s \<and> sys_threads s n = T_run \<and> \<not> sys_running s"
proof -
  let ?s0 = "\<lparr>sys_ctx = None, sys_running = False, sys_threads = (\<lambda>_. T_none), sys_start = I_idle, sys_next = 0\<rparr>"
  let ?s3 = "\<lparr>sys_ctx = Some 0, sys_running = True, sys_threads = (\<lambda>_. T_none)(0 := T_run), sys_start = I_idle, sys_next = 1\<rparr>"
  let ?s4 = "\<lparr>sys_ctx = None, sys_running = True, sys_threads = (\<lambda>_. T_none)(0 := T_cleared), sys_start = I_idle, sys_next = 1\<rparr>"
  let ?s7 = "\<lparr>sys_ctx = Some 1, sys_running = True, sys_threads = (\<lambda>_. T_none)(0 := T_cleared, 1 := T_run), sys_start = I_idle, sys_next = 2\<rparr>"
  let ?s8 = "\<lparr>sys_ctx = Some 1, sys_running = False, sys_threads = (\<lambda>_. T_none)(0 := T_gone, 1 := T_run), sys_start = I_idle, sys_next = 2\<rparr>"
  have start: "rd_step\<^sup>*\<^sup>* s (s\<lparr>sys_ctx := Some (sys_next s), sys_running := True, sys_start := I_idle,
      sys_threads := (sys_threads s)(sys_next s := T_run), sys_next := Suc (sys_next s)\<rparr>)"
    if "sys_start s = I_idle" "sys_ctx s = None" for s
  proof -
    let ?a = "s\<lparr>sys_ctx := Some (sys_next s), sys_start := I_claimed (sys_next s), sys_next := Suc (sys_next s)\<rparr>"
    let ?b = "?a\<lparr>sys_running := True, sys_start := I_marked (sys_next s)\<rparr>"
    have "rd_step s ?a" using that by (rule rd_step.claim)
    moreover have "rd_step ?a ?b" by (rule rd_step.mark) simp
    moreover have "rd_step ?b (?b\<lparr>sys_threads := (sys_threads ?b)(sys_next s := T_run), sys_start := I_idle\<rparr>)"
      by (rule rd_step.created) simp
    ultimately have "rd_step\<^sup>*\<^sup>* s (?b\<lparr>sys_threads := (sys_threads ?b)(sys_next s := T_run), sys_start := I_idle\<rparr>)"
      by (meson r_into_rtranclp rtranclp_trans)
    then show ?thesis by (cases s) simp
  qed
  have "rd_step\<^sup>*\<^sup>* ?s0 ?s3" using start [of ?s0] by simp
  moreover have "rd_step ?s3 ?s4" using rd_step.ending [of ?s3 0] by simp
  moreover have "rd_step\<^sup>*\<^sup>* ?s4 ?s7" using start [of ?s4] by (simp add: numeral_2_eq_2)
  moreover have "rd_step ?s7 ?s8" using rd_step.exiting [of ?s7 0] by (simp add: fun_upd_twist)
  ultimately have "rd_step\<^sup>*\<^sup>* ?s0 ?s8" by (meson r_into_rtranclp rtranclp_trans)
  moreover have "reach rd_init rd_step ?s0" by (rule reach.start) (simp add: rd_init_def)
  ultimately have "reach rd_init rd_step ?s8" by (rule reach_steps [rotated])
  moreover have "sys_threads ?s8 1 = T_run" "\<not> sys_running ?s8" by simp_all
  ultimately show ?thesis by blast
qed

section \<open>The session's endpoint\<close>

lemma ws_url_parse_http:
  "0 < psz \<Longrightarrow> http_host_port True (ws_rest url) hsz (Some psz) = map_option (Pair True) (ws_url_parse url hsz psz)"
  by (simp add: http_host_port_def ws_url_parse_def http_path_out_def Let_def split: option.splits)

interpretation rdws: endpoint_parser "\<lambda>s. ws_url_parse s 256 LEO_RD_WS_URL_MAX_LEN" 256 LEO_RD_WS_URL_MAX_LEN
proof unfold_locales
  fix s e assume "ws_url_parse s 256 LEO_RD_WS_URL_MAX_LEN = Some e"
  then have "http_host_port True (ws_rest s) 256 (Some LEO_RD_WS_URL_MAX_LEN) = Some (True, e)"
    using ws_url_parse_http [of LEO_RD_WS_URL_MAX_LEN] by (simp add: leo_sizes)
  from http_host_port_laws [OF this]
  show "host_ok 256 (ep_host e)" "0 < ep_port e \<and> int32_range (ep_port e)" "length (ep_path e) < LEO_RD_WS_URL_MAX_LEN"
    by (simp_all add: int32_range_def http_path_out_length leo_sizes)
qed

text \<open>a session is started exactly when the arguments are there, none is active, and memory, URL
  and thread are; its parameters are then positive, its identifier fits, and its endpoint is sound. A
  refused start leaves the globals as they were, or, when only the thread failed, empty.\<close>

theorem leo_rd_start_outcome:
  assumes "leo_rd_start g (Some conn) config (Some sid) (Some url) mode fps q mw mh calloc_ok thread_ok = (ok, g')"
  shows "if ok
         then g_rd_ctx g = None \<and> g_rd_thread_running g' \<and>
              (\<exists>s. g_rd_ctx g' = Some s \<and> 0 < rd_fps s \<and> 0 < rd_quality s \<and> 0 < rd_max_width s \<and> 0 < rd_max_height s \<and>
                   length (rd_session_id s) < 37 \<and> host_ok 256 (ep_host (rd_ep s)) \<and>
                   0 < ep_port (rd_ep s) \<and> ep_port (rd_ep s) \<le> 65535)
         else g_rd_ctx g' = g_rd_ctx g \<and>
              (g_rd_ctx g \<noteq> None \<or> \<not> calloc_ok \<or> \<not> thread_ok \<or> ws_url_parse url 256 LEO_RD_WS_URL_MAX_LEN = None)"
proof (cases "ws_url_parse url 256 LEO_RD_WS_URL_MAX_LEN")
  case None
  with assms show ?thesis by (auto simp: leo_rd_start_def rd_new_session_def split: if_splits)
next
  case (Some e)
  then have "http_host_port True (ws_rest url) 256 (Some LEO_RD_WS_URL_MAX_LEN) = Some (True, e)"
    using ws_url_parse_http [of LEO_RD_WS_URL_MAX_LEN] by (simp add: leo_sizes)
  from http_host_port_laws [OF this] have "host_ok 256 (ep_host e)" "0 < ep_port e" "ep_port e \<le> 65535" by simp_all
  moreover have "length (strncpy_buf LEO_UUID_STR_LEN sid) < 37"
    using strncpy_buf_length [of LEO_UUID_STR_LEN] by (simp add: leo_sizes)
  ultimately show ?thesis
    using assms Some by (auto simp: leo_rd_start_def rd_new_session_def split: if_splits)
qed

section \<open>Witnesses\<close>

text \<open>A session in view mode: it is established, receives a mouse move, and is then told to stop.\<close>

definition demo_rd :: rd_session where
  "demo_rd =
     \<lparr>rd_session_id = ''s1'', rd_control_mode = False, rd_fps = 8, rd_quality = 60, rd_max_width = 1920,
      rd_max_height = 1080, rd_config = demo_config, rd_control_conn = Some demo_conn,
      rd_ep = \<lparr>ep_host = ''srv'', ep_port = 8443, ep_path = ''/rd''\<rparr>, rd_cap = False, rd_input = False,
      rd_frame_seq = 0, rd_capture_failures = 0, rd_established = False, rd_done = False, rd_fail_reason = [],
      rd_should_stop = False, rd_reports = []\<rparr>"

definition demo_rd_env :: "string rd_env" where
  "demo_rd_env =
     \<lparr>rd_tj_ok = True, rd_context_ok = True, rd_connect_ok = True, rd_now = 100,
      rd_turns = [\<lparr>rt_stop = False, rt_calls = [RD_Established True True, RD_Receive (Some [RD_WIRE_INPUT_MOVE, 0, 1, 0, 2])],
                   rt_service_ok = True, rt_now = 101\<rparr>,
                  \<lparr>rt_stop = True, rt_calls = [], rt_service_ok = True, rt_now = 102\<rparr>],
      rd_proto = mute_env, rd_parse = (\<lambda>_. None), rd_ossl = toy_openssl\<rparr>"

lemma demo_rd_starts:
  "rd_new_session demo_conn demo_config ''s1'' ''wss://srv:8443/rd'' (Some ''view'') 0 0 0 0 = Some demo_rd"
  by code_simp

theorem frame_roundtrip_witness:
  "decode_frame (frame_header 640 480 0 @ [1, 2, 3]) = Some (640, 480, 0, [1, 2, 3])"
  using frame_roundtrip [of 640 480 "[1, 2, 3]" demo_rd] by (simp add: demo_rd_def)

theorem view_session_never_injects_witness:
  "\<exists>s' eff. rd_session_thread demo_rd_env demo_rd = Some (s', eff) \<and> RD_Input (RD_Move 1 2) \<notin> set eff"
proof -
  have "\<exists>s' eff. rd_session_thread demo_rd_env demo_rd = Some (s', eff)"
    by (simp add: rd_session_thread_def demo_rd_env_def demo_rd_def rd_callback_def wire_types Let_def
        LEO_RD_MAX_SESSION_SEC_def)
  then obtain s' eff where run: "rd_session_thread demo_rd_env demo_rd = Some (s', eff)" by blast
  from view_session_never_injects [OF demo_rd_starts run] run show ?thesis by auto
qed

theorem at_most_one_session_witness:
  "\<exists>s. reach rd_init rd_step s \<and> sys_threads s 0 = T_run \<and> sys_ctx s = Some 0"
proof -
  let ?s0 = "\<lparr>sys_ctx = None, sys_running = False, sys_threads = (\<lambda>_. T_none), sys_start = I_idle, sys_next = 0\<rparr>"
  let ?s1 = "?s0\<lparr>sys_ctx := Some 0, sys_start := I_claimed 0, sys_next := 1\<rparr>"
  let ?s2 = "?s1\<lparr>sys_running := True, sys_start := I_marked 0\<rparr>"
  let ?s3 = "?s2\<lparr>sys_threads := (\<lambda>_. T_none)(0 := T_run), sys_start := I_idle\<rparr>"
  have "rd_step ?s0 ?s1" using rd_step.claim [of ?s0] by simp
  moreover have "rd_step ?s1 ?s2" using rd_step.mark [of ?s1] by simp
  moreover have "rd_step ?s2 ?s3" using rd_step.created [of ?s2 0] by simp
  moreover have "reach rd_init rd_step ?s0" by (rule reach.start) (simp add: rd_init_def)
  ultimately have r: "reach rd_init rd_step ?s3" by (meson reach.move)
  with at_most_one_session [OF r, of 0] show ?thesis by (intro exI [of _ ?s3]) simp
qed

theorem leo_rd_start_outcome_witness:
  "\<exists>g'. leo_rd_start \<lparr>g_rd_ctx = None, g_rd_thread_running = False\<rparr> (Some demo_conn) demo_config (Some ''s1'')
     (Some ''wss://srv:8443/rd'') (Some ''view'') 0 0 0 0 True True = (True, g') \<and> g_rd_thread_running g'"
proof -
  let ?g = "\<lparr>g_rd_ctx = Some demo_rd, g_rd_thread_running = True\<rparr>"
  have "leo_rd_start \<lparr>g_rd_ctx = None, g_rd_thread_running = False\<rparr> (Some demo_conn) demo_config (Some ''s1'')
     (Some ''wss://srv:8443/rd'') (Some ''view'') 0 0 0 0 True True = (True, ?g)"
    by (simp add: leo_rd_start_def demo_rd_starts)
  from leo_rd_start_outcome [OF this] this show ?thesis by auto
qed

end
