(* ===== verification/Dispatch.thy ===== *)
theory Dispatch
  imports Commands Remote_Desktop
begin

text \<open>
  The middle part of \<^verbatim>\<open>agent/src/agent.c\<close>: the dispatch of the server's messages. \<open>on_message\<close> is the
  handler the connection calls; it answers a message by changing the agent, by starting a thread for
  a command (\<open>agent_effect\<close>), or by sending a reply at once. Allocation, thread creation and the
  contents of the replies' envelopes are the record \<open>disp_env\<close>. \<open>None\<close> is undefined behaviour: the
  conversion of a number that does not fit its type.
\<close>

section \<open>Starting a thread\<close>

datatype agent_effect =
    Ag_Reply cmd_reply            \<comment> \<open>a CMD_RESULT handed to the connection\<close>
  | Ag_Exec exec_ctx              \<comment> \<open>a thread running \<open>exec_thread\<close>\<close>
  | Ag_Inventory cstring          \<comment> \<open>a thread running \<open>inventory_thread\<close>\<close>
  | Ag_Pong cstring
  | Ag_Wake                       \<comment> \<open>\<^verbatim>\<open>pthread_cond_broadcast(&ag->wake_cond)\<close>\<close>
  | Ag_Rd_Start bool              \<comment> \<open>the answer of \<^verbatim>\<open>leo_rd_start\<close>\<close>
  | Ag_Rd_Stop "bool option"

record disp_env =
  de_proto :: proto_env
  de_calloc_ok :: bool
  de_strdup_ok :: bool
  de_thread_ok :: bool
  de_rd_calloc_ok :: bool
  de_rd_thread_ok :: bool
  de_running_seen :: "bool list"

definition MSG_BUSY :: cstring where
  "MSG_BUSY = ''Trop de commandes en cours d'' @ APOS @ ''ex'' @ E_ACUTE @ ''cution sur l'' @ APOS @ ''agent''"

definition MSG_INTERNAL :: "cstring \<Rightarrow> cstring" where
  "MSG_INTERNAL what = ''Erreur interne de l'' @ APOS @ ''agent ('' @ what @ '')''"

definition MSG_INVALID :: "cstring \<Rightarrow> cstring" where
  "MSG_INVALID what = ''Requ'' @ [CHR 0xC3, CHR 0xAA] @ ''te invalide : '' @ what"

definition refuse :: "disp_env \<Rightarrow> cstring \<Rightarrow> cstring \<Rightarrow> leo_agent \<Rightarrow> leo_agent \<times> agent_effect list" where
  "refuse env cmd_id msg ag = (send_cmd_error (de_proto env) cmd_id msg ag, [Ag_Reply (error_reply cmd_id msg)])"

definition reserve_exec_slot :: "disp_env \<Rightarrow> cstring \<Rightarrow> leo_agent \<Rightarrow> bool \<times> leo_agent \<times> agent_effect list" where
  "reserve_exec_slot env cmd_id ag =
     (if LEO_EXEC_MAX_CONCURRENT \<le> exec_active_count ag then (False, refuse env cmd_id MSG_BUSY ag)
      else (True, ag\<lparr>exec_active_count := exec_active_count ag + 1\<rparr>, []))"

definition spawn_detached :: "disp_env \<Rightarrow> cstring \<Rightarrow> agent_effect \<Rightarrow> leo_agent \<Rightarrow> leo_agent \<times> agent_effect list" where
  "spawn_detached env cmd_id eff ag =
     (if \<not> de_thread_ok env then refuse env cmd_id (MSG_INTERNAL ''thread'') (release_exec_slot ag) else (ag, [eff]))"

text \<open>What every dispatcher ends with: reserve a slot, allocate the context, start the thread. The
  context may be undefined (\<open>None\<close>), but only once it is needed.\<close>

definition start_thread ::
  "disp_env \<Rightarrow> cstring \<Rightarrow> bool \<Rightarrow> agent_effect option \<Rightarrow> leo_agent \<Rightarrow> (leo_agent \<times> agent_effect list) option" where
  "start_thread env cmd_id alloc_ok eff ag =
     (let (ok, ag, effs) = reserve_exec_slot env cmd_id ag in
      if \<not> ok then Some (ag, effs)
      else if \<not> alloc_ok then Some (refuse env cmd_id (MSG_INTERNAL ''allocation'') (release_exec_slot ag))
      else map_option (\<lambda>e. spawn_detached env cmd_id e ag) eff)"

definition launch_exec ::
  "disp_env \<Rightarrow> cstring \<Rightarrow> cstring \<Rightarrow> cstring \<Rightarrow> int \<Rightarrow> leo_agent \<Rightarrow> (leo_agent \<times> agent_effect list) option" where
  "launch_exec env cmd_id interpreter script timeout_secs ag =
     start_thread env cmd_id (de_calloc_ok env \<and> de_strdup_ok env)
       (Some (Ag_Exec (zero_ctx\<lparr>ctx_script := Some script, ctx_kind := EXEC_KIND_SCRIPT,
                                ctx_cmd_id := strncpy_buf LEO_UUID_STR_LEN cmd_id,
                                ctx_interpreter := strncpy_buf 32 interpreter,
                                ctx_timeout_secs := clamp_timeout timeout_secs\<rparr>))) ag"

section \<open>The dispatchers\<close>

text \<open>\<^verbatim>\<open>cJSON_GetObjectItemCaseSensitive(body, k)\<close> behind \<^verbatim>\<open>if (body)\<close>.\<close>

definition field :: "json option \<Rightarrow> cstring \<Rightarrow> json option" where
  "field body k = (case body of None \<Rightarrow> None | Some j \<Rightarrow> get_object_item j k)"

text \<open>\<^verbatim>\<open>if (cJSON_IsNumber(j) && j->valuedouble > 0) x = _json_number_clamped(j->valuedouble, lo, hi)\<close>.\<close>

definition positive_or :: "int \<Rightarrow> json option \<Rightarrow> int \<Rightarrow> int \<Rightarrow> int option" where
  "positive_or dflt j lo hi =
     (case as_number j of
        Some d \<Rightarrow> if dbl_lt (Dfin 0) d then json_number_clamped d lo hi else Some dflt
      | None \<Rightarrow> Some dflt)"

definition dispatch_exec_script ::
  "disp_env \<Rightarrow> cstring \<Rightarrow> json option \<Rightarrow> leo_agent \<Rightarrow> (leo_agent \<times> agent_effect list) option" where
  "dispatch_exec_script env cmd_id body ag =
     (case positive_or LEO_EXEC_DEFAULT_TIMEOUT_SEC (field body ''timeout_sec'') 1 LEO_EXEC_MAX_TIMEOUT_SEC of
        None \<Rightarrow> None
      | Some timeout_secs \<Rightarrow>
          (case (as_string (field body ''interpreter''), as_string (field body ''script'')) of
             (Some interpreter, Some script) \<Rightarrow> launch_exec env cmd_id interpreter script timeout_secs ag
           | _ \<Rightarrow> Some (refuse env cmd_id
                     (MSG_INVALID (APOS @ ''interpreter'' @ APOS @ '' et '' @ APOS @ ''script'' @ APOS @ '' requis'')) ag)))"

text \<open>The loop over an array that keeps its strings, at most \<open>n\<close> of them.\<close>

fun json_strings :: "nat \<Rightarrow> json list \<Rightarrow> cstring list" where
  "json_strings 0 js = []"
| "json_strings (Suc n) [] = []"
| "json_strings (Suc n) (j # js) =
     (case as_string (Some j) of None \<Rightarrow> json_strings (Suc n) js | Some s \<Rightarrow> s # json_strings n js)"

definition pkg_request :: "json option \<Rightarrow> cstring list" where
  "pkg_request body =
     (case as_array (field body ''packages'') of
        Some items \<Rightarrow> json_strings LEO_PKG_MAX_COUNT items
      | None \<Rightarrow> (case as_string (field body ''package'') of Some s \<Rightarrow> [s] | None \<Rightarrow> []))"

definition dispatch_install_pkg ::
  "disp_env \<Rightarrow> cstring \<Rightarrow> json option \<Rightarrow> leo_agent \<Rightarrow> (leo_agent \<times> agent_effect list) option" where
  "dispatch_install_pkg env cmd_id body ag =
     (case positive_or LEO_EXEC_DEFAULT_TIMEOUT_SEC (field body ''timeout_sec'') 1 LEO_EXEC_MAX_TIMEOUT_SEC of
        None \<Rightarrow> None
      | Some timeout_secs \<Rightarrow>
          let names = pkg_request body in
          if names = [] then
            Some (refuse env cmd_id
              (MSG_INVALID (APOS @ ''package'' @ APOS @ '' ou '' @ APOS @ ''packages'' @ APOS @ '' requis'')) ag)
          else if \<not> list_all pkg_name_valid names then
            Some (refuse env cmd_id (MSG_INVALID (''nom de paquet non autoris'' @ E_ACUTE)) ag)
          else
            start_thread env cmd_id (de_calloc_ok env)
              (Some (Ag_Exec (zero_ctx\<lparr>ctx_kind := EXEC_KIND_INSTALL_PKG,
                                       ctx_cmd_id := strncpy_buf LEO_UUID_STR_LEN cmd_id,
                                       ctx_timeout_secs := clamp_timeout timeout_secs,
                                       pkg_names := map (strncpy_buf (LEO_PKG_NAME_MAX_LEN + 1)) names\<rparr>))) ag)"

text \<open>The identifiers are cut to their buffers while they are collected, before they are checked.\<close>

definition patch_request :: "json option \<Rightarrow> cstring list" where
  "patch_request body =
     (case as_array (field body ''patch_ids'') of
        Some items \<Rightarrow> map (strncpy_buf LEO_PATCH_ID_MAX_LEN) (json_strings LEO_PATCH_INSTALL_MAX_COUNT items)
      | None \<Rightarrow> [])"

definition dispatch_install_patches ::
  "disp_env \<Rightarrow> cstring \<Rightarrow> json option \<Rightarrow> leo_agent \<Rightarrow> (leo_agent \<times> agent_effect list) option" where
  "dispatch_install_patches env cmd_id body ag =
     (case positive_or LEO_EXEC_DEFAULT_TIMEOUT_SEC (field body ''timeout_sec'') 1 LEO_EXEC_MAX_TIMEOUT_SEC of
        None \<Rightarrow> None
      | Some timeout_secs \<Rightarrow>
          let names = patch_request body;
              reboot = (case as_bool (field body ''reboot_after'') of Some b \<Rightarrow> b | None \<Rightarrow> False)
          in if names = [] then
               Some (refuse env cmd_id (MSG_INVALID (APOS @ ''patch_ids'' @ APOS @ '' requis'')) ag)
             else if \<not> list_all patch_id_valid names then
               Some (refuse env cmd_id (MSG_INVALID (''identifiant de patch non autoris'' @ E_ACUTE)) ag)
             else
               start_thread env cmd_id (de_calloc_ok env)
                 (Some (Ag_Exec (zero_ctx\<lparr>ctx_kind := EXEC_KIND_INSTALL_PATCHES,
                                          ctx_cmd_id := strncpy_buf LEO_UUID_STR_LEN cmd_id,
                                          ctx_timeout_secs := clamp_timeout timeout_secs,
                                          patch_ids := map (strncpy_buf LEO_PATCH_ID_MAX_LEN) names,
                                          reboot_after := reboot\<rparr>))) ag)"

definition LEO_FILE_TRANSFER_DEFAULT_TIMEOUT_SEC :: int where "LEO_FILE_TRANSFER_DEFAULT_TIMEOUT_SEC = 1800"
definition LEO_FILE_TRANSFER_MAX_TIMEOUT_SEC :: int where "LEO_FILE_TRANSFER_MAX_TIMEOUT_SEC = 7200"

text \<open>\<^verbatim>\<open>if (cJSON_IsNumber(jsize) && jsize->valuedouble > 0) ctx->file_size = (uint64_t)jsize->valuedouble\<close>.\<close>

definition size_field :: "json option \<Rightarrow> u64 option" where
  "size_field j =
     (case as_number j of
        Some d \<Rightarrow> if dbl_lt (Dfin 0) d then map_option of_nat (u64_of_dbl d) else Some 0
      | None \<Rightarrow> Some 0)"

definition transfer_ctx :: "cstring \<Rightarrow> json \<Rightarrow> cstring \<Rightarrow> cstring \<Rightarrow> int \<Rightarrow> u64 \<Rightarrow> exec_ctx" where
  "transfer_ctx cmd_id body url name timeout_secs nbytes =
     zero_ctx\<lparr>ctx_kind := EXEC_KIND_FILE_TRANSFER, ctx_cmd_id := strncpy_buf LEO_UUID_STR_LEN cmd_id,
              ctx_timeout_secs := timeout_secs, download_url := strncpy_buf LEO_FILE_URL_MAX_LEN url,
              file_name := strncpy_buf LEO_FILE_NAME_MAX_LEN name,
              sha256_hex := (case as_string (get_object_item body ''sha256'') of
                               Some s \<Rightarrow> strncpy_buf LEO_FILE_SHA256_HEX_LEN s | None \<Rightarrow> []),
              file_size := nbytes\<rparr>"

definition dispatch_file_transfer ::
  "disp_env \<Rightarrow> cstring \<Rightarrow> json option \<Rightarrow> leo_agent \<Rightarrow> (leo_agent \<times> agent_effect list) option" where
  "dispatch_file_transfer env cmd_id body ag =
     (case body of
        None \<Rightarrow> Some (refuse env cmd_id (MSG_INVALID ''corps manquant'') ag)
      | Some j \<Rightarrow>
          (case (as_string (get_object_item j ''download_url''), as_string (get_object_item j ''filename'')) of
             (Some url, Some name) \<Rightarrow>
               if url = [] \<or> name = [] then
                 Some (refuse env cmd_id
                   (MSG_INVALID (APOS @ ''download_url'' @ APOS @ '' et '' @ APOS @ ''filename'' @ APOS @ '' requis'')) ag)
               else
                 (case positive_or LEO_FILE_TRANSFER_DEFAULT_TIMEOUT_SEC (get_object_item j ''timeout_sec'') 1
                         LEO_FILE_TRANSFER_MAX_TIMEOUT_SEC of
                    None \<Rightarrow> None
                  | Some timeout_secs \<Rightarrow>
                      start_thread env cmd_id (de_calloc_ok env)
                        (map_option (\<lambda>n. Ag_Exec (transfer_ctx cmd_id j url name timeout_secs n))
                           (size_field (get_object_item j ''size_bytes''))) ag)
           | _ \<Rightarrow> Some (refuse env cmd_id
                     (MSG_INVALID (APOS @ ''download_url'' @ APOS @ '' et '' @ APOS @ ''filename'' @ APOS @ '' requis'')) ag)))"

definition LEO_REBOOT_DEFAULT_DELAY_SEC :: int where "LEO_REBOOT_DEFAULT_DELAY_SEC = 60"
definition LEO_REBOOT_MAX_DELAY_SEC :: int where "LEO_REBOOT_MAX_DELAY_SEC = 3600"
definition LEO_REBOOT_SCHEDULE_TIMEOUT_SEC :: int where "LEO_REBOOT_SCHEDULE_TIMEOUT_SEC = 15"

definition reboot_delay :: "json option \<Rightarrow> int option" where
  "reboot_delay j =
     (case as_number j of
        Some d \<Rightarrow> if dbl_le (Dfin 0) d then json_number_clamped d 0 LEO_REBOOT_MAX_DELAY_SEC
                  else Some LEO_REBOOT_DEFAULT_DELAY_SEC
      | None \<Rightarrow> Some LEO_REBOOT_DEFAULT_DELAY_SEC)"

definition dispatch_reboot ::
  "disp_env \<Rightarrow> cstring \<Rightarrow> json option \<Rightarrow> leo_agent \<Rightarrow> (leo_agent \<times> agent_effect list) option" where
  "dispatch_reboot env cmd_id body ag =
     (case reboot_delay (field body ''delay_sec'') of
        None \<Rightarrow> None
      | Some delay_sec \<Rightarrow>
          start_thread env cmd_id (de_calloc_ok env)
            (Some (Ag_Exec (zero_ctx\<lparr>ctx_kind := EXEC_KIND_REBOOT,
                                     ctx_cmd_id := strncpy_buf LEO_UUID_STR_LEN cmd_id,
                                     ctx_timeout_secs := LEO_REBOOT_SCHEDULE_TIMEOUT_SEC,
                                     reboot_delay_sec := delay_sec\<rparr>))) ag)"

definition dispatch_collect_inventory ::
  "disp_env \<Rightarrow> cstring \<Rightarrow> leo_agent \<Rightarrow> (leo_agent \<times> agent_effect list) option" where
  "dispatch_collect_inventory env cmd_id ag =
     start_thread env cmd_id (de_calloc_ok env) (Some (Ag_Inventory (strncpy_buf LEO_UUID_STR_LEN cmd_id))) ag"

definition LEO_RD_FPS_MIN :: int where "LEO_RD_FPS_MIN = 1"
definition LEO_RD_FPS_MAX :: int where "LEO_RD_FPS_MAX = 30"
definition LEO_RD_QUALITY_MIN :: int where "LEO_RD_QUALITY_MIN = 1"
definition LEO_RD_QUALITY_MAX :: int where "LEO_RD_QUALITY_MAX = 100"
definition LEO_RD_DIM_MIN :: int where "LEO_RD_DIM_MIN = 1"
definition LEO_RD_DIM_MAX :: int where "LEO_RD_DIM_MAX = 7680"

lemmas dispatch_limits =
  LEO_FILE_TRANSFER_DEFAULT_TIMEOUT_SEC_def LEO_FILE_TRANSFER_MAX_TIMEOUT_SEC_def LEO_REBOOT_DEFAULT_DELAY_SEC_def
  LEO_REBOOT_MAX_DELAY_SEC_def LEO_REBOOT_SCHEDULE_TIMEOUT_SEC_def LEO_RD_FPS_MIN_def LEO_RD_FPS_MAX_def
  LEO_RD_QUALITY_MIN_def LEO_RD_QUALITY_MAX_def LEO_RD_DIM_MIN_def LEO_RD_DIM_MAX_def

text \<open>\<^verbatim>\<open>cJSON_IsNumber(j) ? _json_number_clamped(j->valuedouble, lo, hi) : dflt\<close>.\<close>

definition number_or :: "int \<Rightarrow> json option \<Rightarrow> int \<Rightarrow> int \<Rightarrow> int option" where
  "number_or dflt j lo hi = (case as_number j of Some d \<Rightarrow> json_number_clamped d lo hi | None \<Rightarrow> Some dflt)"

type_synonym agent_rd = "leo_agent \<times> rd_globals"

definition dispatch_remote_desktop_start ::
  "disp_env \<Rightarrow> json option \<Rightarrow> agent_rd \<Rightarrow> (agent_rd \<times> agent_effect list) option" where
  "dispatch_remote_desktop_start env body st =
     (case body of
        None \<Rightarrow> Some (st, [])
      | Some j \<Rightarrow>
          (case (as_string (get_object_item j ''session_id''), as_string (get_object_item j ''ws_url'')) of
             (Some session, Some url) \<Rightarrow>
               if session = [] \<or> url = [] then Some (st, [])
               else
                 (case (number_or 8 (get_object_item j ''fps'') LEO_RD_FPS_MIN LEO_RD_FPS_MAX,
                        number_or 60 (get_object_item j ''quality'') LEO_RD_QUALITY_MIN LEO_RD_QUALITY_MAX,
                        number_or 1920 (get_object_item j ''max_width'') LEO_RD_DIM_MIN LEO_RD_DIM_MAX,
                        number_or 1080 (get_object_item j ''max_height'') LEO_RD_DIM_MIN LEO_RD_DIM_MAX) of
                    (Some fps, Some quality, Some w, Some h) \<Rightarrow>
                      let mode = (case as_string (get_object_item j ''mode'') of Some m \<Rightarrow> m | None \<Rightarrow> ''view'');
                          (ok, g) = leo_rd_start (snd st) (ag_conn (fst st)) (ag_config (fst st)) (Some session) (Some url)
                                      (Some mode) fps quality w h (de_rd_calloc_ok env) (de_rd_thread_ok env)
                      in Some ((fst st, g), [Ag_Rd_Start ok])
                  | _ \<Rightarrow> None)
           | _ \<Rightarrow> Some (st, [])))"

definition dispatch_remote_desktop_stop :: "disp_env \<Rightarrow> json option \<Rightarrow> agent_rd \<Rightarrow> agent_rd \<times> agent_effect list" where
  "dispatch_remote_desktop_stop env body st =
     (let (g, waited) = leo_rd_stop (as_string (field body ''session_id'')) (de_running_seen env) (snd st)
      in ((fst st, g), [Ag_Rd_Stop waited]))"

section \<open>The handler\<close>

text \<open>The cases of \<^verbatim>\<open>_on_message\<close> that touch the agent alone.\<close>

definition hello_ack :: "json option \<Rightarrow> leo_agent \<Rightarrow> leo_agent option" where
  "hello_ack body ag =
     (let ag = ag\<lparr>ag_state := LEO_STATE_CONNECTED\<rparr>; cfg = ag_config ag in
      case (positive_or (heartbeat_interval_sec cfg) (field body ''heartbeat_interval_sec'') 1 86400,
            positive_or (metrics_interval_sec cfg) (field body ''metrics_interval_sec'') 1 86400) of
        (Some hi, Some mi) \<Rightarrow> Some (ag\<lparr>ag_config := cfg\<lparr>heartbeat_interval_sec := hi, metrics_interval_sec := mi\<rparr>\<rparr>)
      | _ \<Rightarrow> None)"

definition config_update :: "json option \<Rightarrow> leo_agent \<Rightarrow> leo_agent option" where
  "config_update body ag =
     map_option (\<lambda>mi. ag\<lparr>ag_config := (ag_config ag)\<lparr>metrics_interval_sec := mi\<rparr>\<rparr>)
       (positive_or (metrics_interval_sec (ag_config ag)) (field body ''metrics_interval_sec'') 1 86400)"

definition send_pong :: "disp_env \<Rightarrow> cstring \<Rightarrow> leo_agent \<Rightarrow> leo_agent" where
  "send_pong env ping_id ag = snd (send_built (leo_proto_build_pong (de_proto env) (Some ping_id) LEO_MAX_MSG_SIZE) ag)"

definition agent_only :: "rd_globals \<Rightarrow> (leo_agent \<times> agent_effect list) option \<Rightarrow> (agent_rd \<times> agent_effect list) option" where
  "agent_only g = map_option (\<lambda>(ag, effs). ((ag, g), effs))"

text \<open>The \<^verbatim>\<open>switch\<close> on the type of a parsed message.\<close>

definition handle_msg :: "disp_env \<Rightarrow> leo_incoming_msg \<Rightarrow> agent_rd \<Rightarrow> (agent_rd \<times> agent_effect list) option" where
  "handle_msg env msg st =
     (let (ag, g) = st; i = msg_id msg; body = msg_body msg in
      case msg_of_code (msg_type msg) of
        Some LEO_MSG_HELLO_ACK \<Rightarrow> agent_only g (map_option (\<lambda>ag. (ag, [])) (hello_ack body ag))
      | Some LEO_MSG_PING \<Rightarrow> Some ((send_pong env i ag, g), [Ag_Pong i])
      | Some LEO_MSG_EXEC_SCRIPT \<Rightarrow> agent_only g (dispatch_exec_script env i body ag)
      | Some LEO_MSG_INSTALL_PKG \<Rightarrow> agent_only g (dispatch_install_pkg env i body ag)
      | Some LEO_MSG_REBOOT \<Rightarrow> agent_only g (dispatch_reboot env i body ag)
      | Some LEO_MSG_COLLECT_INVENTORY \<Rightarrow> agent_only g (dispatch_collect_inventory env i ag)
      | Some LEO_MSG_INSTALL_PATCHES \<Rightarrow> agent_only g (dispatch_install_patches env i body ag)
      | Some LEO_MSG_FILE_TRANSFER \<Rightarrow> agent_only g (dispatch_file_transfer env i body ag)
      | Some LEO_MSG_REMOTE_DESKTOP_START \<Rightarrow> dispatch_remote_desktop_start env body st
      | Some LEO_MSG_REMOTE_DESKTOP_STOP \<Rightarrow> Some (dispatch_remote_desktop_stop env body st)
      | Some LEO_MSG_FORCE_HEARTBEAT \<Rightarrow> Some ((ag\<lparr>force_heartbeat_pending := True\<rparr>, g), [Ag_Wake])
      | Some LEO_MSG_CONFIG_UPDATE \<Rightarrow> agent_only g (map_option (\<lambda>ag. (ag, [])) (config_update body ag))
      | _ \<Rightarrow> Some (st, []))"

definition on_message ::
  "(cstring \<Rightarrow> json option) \<Rightarrow> disp_env \<Rightarrow> cstring \<Rightarrow> agent_rd \<Rightarrow> (agent_rd \<times> agent_effect list) option" where
  "on_message parse env json_str st =
     (case leo_proto_parse parse (Some json_str) zero_msg of
        None \<Rightarrow> None
      | Some (rc, msg) \<Rightarrow> if rc \<noteq> LEO_OK then Some (st, []) else handle_msg env msg st)"

section \<open>The inventory thread\<close>

record inv_env =
  ie_hw :: "leo_hw_inventory option"       \<comment> \<open>\<open>None\<close>: not \<^verbatim>\<open>LEO_OK\<close>\<close>
  ie_calloc_ok :: bool
  ie_sw :: "leo_sw_item list option"       \<comment> \<open>\<open>None\<close>: \<^verbatim>\<open>-1\<close>\<close>
  ie_proto :: proto_env
  ie_reply_proto :: proto_env

definition MSG_INV_HW :: cstring where
  "MSG_INV_HW = [CHR 0xC3, CHR 0x89] @ ''chec de la collecte de l'' @ APOS @ ''inventaire mat'' @ E_ACUTE @ ''riel''"

definition MSG_INV_SERIAL :: cstring where
  "MSG_INV_SERIAL = [CHR 0xC3, CHR 0x89] @ ''chec de s'' @ E_ACUTE @ ''rialisation de l'' @ APOS @ ''inventaire (trop volumineux ?)''"

definition MSG_INV_SEND :: cstring where
  "MSG_INV_SEND = [CHR 0xC3, CHR 0x89] @ ''chec envoi du message INVENTORY''"

definition MSG_INV_DONE :: "int \<Rightarrow> cstring" where
  "MSG_INV_DONE n = strncpy_buf 64 (''Inventaire envoy'' @ E_ACUTE @ '' ('' @ show_int n @ '' logiciel(s))'')"

definition inventory_reply :: "inv_env \<Rightarrow> cstring \<Rightarrow> leo_agent \<Rightarrow> cmd_reply \<times> leo_agent" where
  "inventory_reply env cmd_id ag =
     (let sw = (if ie_calloc_ok env then ie_sw env else None);
          sw_count = (case sw of Some xs \<Rightarrow> int (length xs) | None \<Rightarrow> 0)
      in case ie_hw env of
           None \<Rightarrow> (error_reply cmd_id MSG_INV_HW, ag)
         | Some hw \<Rightarrow>
             (case send_built (leo_proto_build_inventory (ie_proto env) (Some hw) sw sw_count LEO_MAX_MSG_SIZE) ag of
                (None, ag) \<Rightarrow> (error_reply cmd_id MSG_INV_SERIAL, ag)
              | (Some rc, ag) \<Rightarrow>
                  if rc \<noteq> LEO_OK then (error_reply cmd_id MSG_INV_SEND, ag)
                  else (\<lparr>rep_cmd_id = cmd_id, rep_exit = 0, rep_out = MSG_INV_DONE sw_count, rep_err = []\<rparr>, ag)))"

definition inventory_thread :: "inv_env \<Rightarrow> cstring \<Rightarrow> leo_agent \<Rightarrow> cmd_reply \<times> leo_agent" where
  "inventory_thread env cmd_id ag =
     (let (r, ag) = inventory_reply env cmd_id ag
      in (r, release_exec_slot (send_reply (ie_reply_proto env) r ag)))"

section \<open>Every command is answered once\<close>

lemma positive_or_bounds:
  "positive_or dflt j lo hi = Some i \<Longrightarrow> lo \<le> hi \<Longrightarrow> i = dflt \<or> (lo \<le> i \<and> i \<le> hi)"
  by (auto simp: positive_or_def dest: json_number_clamped_bounds split: option.splits if_splits)

text \<open>A conversion with bounds an \<^verbatim>\<open>int\<close> can hold is never undefined.\<close>

lemma json_number_clamped_total:
  assumes "int32_range lo" "int32_range hi"
  shows "json_number_clamped v lo hi \<noteq> None"
proof (cases v)
  case (Dfin x)
  show ?thesis
  proof (cases "of_int lo \<le> x \<and> x \<le> of_int hi")
    case True
    then have "lo \<le> trunc_rat x \<and> trunc_rat x \<le> hi" using trunc_rat_between by blast
    with True Dfin assms show ?thesis by (auto simp: json_number_clamped_def dbl_of_int_def int32_range_def)
  qed (use Dfin in \<open>auto simp: json_number_clamped_def dbl_of_int_def\<close>)
qed (auto simp: json_number_clamped_def dbl_of_int_def)

lemma number_total:
  assumes "int32_range lo" "int32_range hi"
  shows "positive_or dflt j lo hi \<noteq> None" "number_or dflt j lo hi \<noteq> None"
  using json_number_clamped_total [OF assms] by (auto simp: positive_or_def number_or_def split: option.splits)

lemma json_strings_length: "length (json_strings n js) \<le> n"
  by (induction n js rule: json_strings.induct) (auto split: option.splits)

lemma clamp_timeout_bounds: "1 \<le> clamp_timeout t \<and> clamp_timeout t \<le> 300"
  by (simp add: clamp_timeout_def agent_limits)

lemma refuse_simps [simp]:
  "snd (refuse env i m ag) = [Ag_Reply (error_reply i m)]" "exec_active_count (fst (refuse env i m ag)) = exec_active_count ag"
  "ag_config (fst (refuse env i m ag)) = ag_config ag"
  by (simp_all add: refuse_def send_cmd_error_def)

lemma release_simps [simp]:
  "exec_active_count (release_exec_slot ag) = exec_active_count ag - 1" "ag_config (release_exec_slot ag) = ag_config ag"
  by (simp_all add: release_exec_slot_def)

text \<open>How a request ends: with a thread and a slot taken, or with an error reply and none.\<close>

definition answered :: "cstring \<Rightarrow> agent_effect option \<Rightarrow> leo_agent \<Rightarrow> leo_agent \<times> agent_effect list \<Rightarrow> bool" where
  "answered i eff ag out \<longleftrightarrow>
     ag_config (fst out) = ag_config ag \<and>
     ((\<exists>m. snd out = [Ag_Reply (error_reply i m)] \<and> exec_active_count (fst out) = exec_active_count ag) \<or>
      (\<exists>e. eff = Some e \<and> snd out = [e] \<and> exec_active_count ag < LEO_EXEC_MAX_CONCURRENT \<and>
           fst out = ag\<lparr>exec_active_count := exec_active_count ag + 1\<rparr>))"

lemma refuse_answered: "answered i eff ag (refuse env i m ag)"
  by (auto simp: answered_def)

lemma start_thread_answered:
  assumes "start_thread env i ok eff ag = Some out"
  shows "answered i eff ag out"
proof (cases "exec_active_count ag < LEO_EXEC_MAX_CONCURRENT")
  case True
  let ?ag = "ag\<lparr>exec_active_count := exec_active_count ag + 1\<rparr>"
  from True assms have "out = refuse env i (MSG_INTERNAL ''allocation'') (release_exec_slot ?ag) \<or>
      (\<exists>e. eff = Some e \<and> out = spawn_detached env i e ?ag)"
    by (auto simp: start_thread_def reserve_exec_slot_def split: if_splits)
  with True show ?thesis by (auto simp: answered_def spawn_detached_def)
next
  case False
  with assms show ?thesis by (auto simp: start_thread_def reserve_exec_slot_def answered_def refuse_def send_cmd_error_def)
qed

lemma start_thread_total: "eff \<noteq> None \<Longrightarrow> start_thread env i ok eff ag \<noteq> None"
  by (auto simp: start_thread_def split: prod.splits)

text \<open>What a started command looks like.\<close>

definition ctx_wf :: "exec_ctx \<Rightarrow> bool" where
  "ctx_wf ctx \<longleftrightarrow>
     length (ctx_cmd_id ctx) < 37 \<and>
     (case ctx_kind ctx of
        EXEC_KIND_SCRIPT \<Rightarrow>
          length (ctx_interpreter ctx) < 32 \<and> ctx_script ctx \<noteq> None \<and> 1 \<le> ctx_timeout_secs ctx \<and> ctx_timeout_secs ctx \<le> 300
      | EXEC_KIND_INSTALL_PKG \<Rightarrow>
          pkg_names ctx \<noteq> [] \<and> length (pkg_names ctx) \<le> 32 \<and> list_all pkg_name_valid (pkg_names ctx) \<and>
          1 \<le> ctx_timeout_secs ctx \<and> ctx_timeout_secs ctx \<le> 300
      | EXEC_KIND_REBOOT \<Rightarrow> ctx_timeout_secs ctx = 15 \<and> 0 \<le> reboot_delay_sec ctx \<and> reboot_delay_sec ctx \<le> 3600
      | EXEC_KIND_INSTALL_PATCHES \<Rightarrow>
          patch_ids ctx \<noteq> [] \<and> length (patch_ids ctx) \<le> 64 \<and> list_all patch_id_valid (patch_ids ctx) \<and>
          1 \<le> ctx_timeout_secs ctx \<and> ctx_timeout_secs ctx \<le> 300
      | EXEC_KIND_FILE_TRANSFER \<Rightarrow>
          length (download_url ctx) < 1024 \<and> length (file_name ctx) < 255 \<and> length (sha256_hex ctx) < 65 \<and>
          download_url ctx \<noteq> [] \<and> file_name ctx \<noteq> [] \<and> 1 \<le> ctx_timeout_secs ctx \<and> ctx_timeout_secs ctx \<le> 7200)"

definition thread_wf :: "cstring \<Rightarrow> agent_effect \<Rightarrow> bool" where
  "thread_wf i e \<longleftrightarrow>
     (case e of
        Ag_Exec ctx \<Rightarrow> ctx_cmd_id ctx = strncpy_buf LEO_UUID_STR_LEN i \<and> ctx_wf ctx
      | Ag_Inventory c \<Rightarrow> c = strncpy_buf LEO_UUID_STR_LEN i
      | _ \<Rightarrow> False)"

definition request_done :: "cstring \<Rightarrow> leo_agent \<Rightarrow> leo_agent \<times> agent_effect list \<Rightarrow> bool" where
  "request_done i ag out \<longleftrightarrow>
     (\<exists>e. snd out = [e] \<and> ag_config (fst out) = ag_config ag \<and>
          (if thread_wf i e then exec_active_count (fst out) = exec_active_count ag + 1 \<and> exec_active_count ag < LEO_EXEC_MAX_CONCURRENT
           else (\<exists>m. e = Ag_Reply (error_reply i m)) \<and> exec_active_count (fst out) = exec_active_count ag))"

lemma answered_done: "answered i eff ag out \<Longrightarrow> (\<And>e. eff = Some e \<Longrightarrow> thread_wf i e) \<Longrightarrow> request_done i ag out"
  by (auto simp: answered_def request_done_def thread_wf_def)

lemma refuse_done: "request_done i ag (refuse env i m ag)"
  by (rule answered_done [OF refuse_answered [of _ None]]) simp

lemma start_thread_done:
  "start_thread env i ok eff ag = Some out \<Longrightarrow> (\<And>e. eff = Some e \<Longrightarrow> thread_wf i e) \<Longrightarrow> request_done i ag out"
  by (rule answered_done [OF start_thread_answered])

lemma cmd_id_fits: "length (strncpy_buf LEO_UUID_STR_LEN i) < 37"
  using strncpy_buf_length [of LEO_UUID_STR_LEN i] by (simp add: leo_sizes)

lemma strncpy_buf_ne: "s \<noteq> [] \<Longrightarrow> 1 < sz \<Longrightarrow> strncpy_buf sz s \<noteq> []"
  by (simp add: strncpy_buf_def)

lemma dispatch_exec_script_done:
  assumes "dispatch_exec_script env i body ag = Some out"
  shows "request_done i ag out"
proof -
  have "length (strncpy_buf 32 s) < 32" for s by (rule strncpy_buf_length) simp
  with assms show ?thesis
    using clamp_timeout_bounds
    by (auto simp: dispatch_exec_script_def launch_exec_def thread_wf_def ctx_wf_def zero_ctx_def cmd_id_fits
        intro: refuse_done start_thread_done split: option.splits)
qed

lemma dispatch_install_pkg_done:
  assumes "dispatch_install_pkg env i body ag = Some out"
  shows "request_done i ag out"
proof (cases "pkg_request body = [] \<or> \<not> list_all pkg_name_valid (pkg_request body)")
  case True
  with assms show ?thesis
    by (auto simp: dispatch_install_pkg_def Let_def intro: refuse_done split: option.splits if_splits)
next
  case False
  let ?names = "map (strncpy_buf (LEO_PKG_NAME_MAX_LEN + 1)) (pkg_request body)"
  have same: "?names = pkg_request body"
    using False by (auto simp: list_all_iff pkg_name_valid_def agent_limits intro!: map_idI strncpy_buf_id split: if_splits)
  have "length (pkg_request body) \<le> 32"
    using json_strings_length [of 32] by (auto simp: pkg_request_def agent_limits split: option.splits)
  with False assms same show ?thesis
    using clamp_timeout_bounds
    by (auto simp: dispatch_install_pkg_def Let_def thread_wf_def ctx_wf_def zero_ctx_def cmd_id_fits
        intro!: start_thread_done split: option.splits)
qed

lemma dispatch_install_patches_done:
  assumes "dispatch_install_patches env i body ag = Some out"
  shows "request_done i ag out"
proof (cases "patch_request body = [] \<or> \<not> list_all patch_id_valid (patch_request body)")
  case True
  with assms show ?thesis
    by (auto simp: dispatch_install_patches_def Let_def intro: refuse_done split: option.splits if_splits)
next
  case False
  let ?names = "map (strncpy_buf LEO_PATCH_ID_MAX_LEN) (patch_request body)"
  have same: "?names = patch_request body"
    using False by (auto simp: list_all_iff patch_id_valid_def intro!: map_idI strncpy_buf_id split: if_splits)
  have "length (patch_request body) \<le> 64"
    using json_strings_length [of 64] by (auto simp: patch_request_def leo_sizes split: option.splits)
  with False assms same show ?thesis
    using clamp_timeout_bounds
    by (auto simp: dispatch_install_patches_def Let_def thread_wf_def ctx_wf_def zero_ctx_def cmd_id_fits
        intro!: start_thread_done split: option.splits)
qed

lemma transfer_ctx_wf:
  assumes "url \<noteq> []" "name \<noteq> []" "1 \<le> t" "t \<le> 7200"
  shows "thread_wf i (Ag_Exec (transfer_ctx i j url name t n))"
proof -
  have "length (strncpy_buf 1024 url) < 1024" "length (strncpy_buf 255 name) < 255" "\<And>s. length (strncpy_buf 65 s) < 65"
    by (rule strncpy_buf_length, simp)+
  with assms show ?thesis
    by (simp add: thread_wf_def ctx_wf_def transfer_ctx_def zero_ctx_def cmd_id_fits leo_sizes strncpy_buf_ne split: option.split)
      (simp add: strncpy_buf_length)
qed

lemma dispatch_file_transfer_done:
  assumes "dispatch_file_transfer env i body ag = Some out"
  shows "request_done i ag out"
proof -
  have "1 \<le> t \<and> t \<le> 7200"
    if "positive_or LEO_FILE_TRANSFER_DEFAULT_TIMEOUT_SEC j 1 LEO_FILE_TRANSFER_MAX_TIMEOUT_SEC = Some t" for j t
    using positive_or_bounds [OF that] by (auto simp: dispatch_limits)
  with assms show ?thesis
    by (auto simp: dispatch_file_transfer_def
        intro: refuse_done transfer_ctx_wf start_thread_done split: option.splits if_splits)
qed

lemma dispatch_reboot_done:
  assumes "dispatch_reboot env i body ag = Some out"
  shows "request_done i ag out"
proof -
  have "0 \<le> d \<and> d \<le> 3600" if "reboot_delay j = Some d" for j d
    using that by (auto simp: reboot_delay_def dispatch_limits dest: json_number_clamped_bounds split: option.splits if_splits)
  with assms show ?thesis
    by (auto simp: dispatch_reboot_def thread_wf_def ctx_wf_def zero_ctx_def cmd_id_fits dispatch_limits
        intro!: start_thread_done split: option.splits)
qed

lemma dispatch_collect_inventory_done:
  assumes "dispatch_collect_inventory env i ag = Some out"
  shows "request_done i ag out"
  using assms by (auto simp: dispatch_collect_inventory_def thread_wf_def intro!: start_thread_done)

definition is_command :: "leo_msg_type \<Rightarrow> bool" where
  "is_command t \<longleftrightarrow>
     t \<in> {LEO_MSG_EXEC_SCRIPT, LEO_MSG_INSTALL_PKG, LEO_MSG_REBOOT, LEO_MSG_COLLECT_INVENTORY,
          LEO_MSG_INSTALL_PATCHES, LEO_MSG_FILE_TRANSFER}"

text \<open>C3: every command message is answered exactly once, under its own identifier: either with a
  thread, when fewer than four run, which takes one slot and whose context is well formed (checked
  names, bounded counts, delays and timeouts, strings within their buffers), or at once with an
  error result that takes none.\<close>

theorem command_answered_once:
  assumes "handle_msg env msg (ag, g) = Some ((ag', g'), effs)"
    and "msg_of_code (msg_type msg) = Some t" "is_command t"
  shows "request_done (msg_id msg) ag (ag', effs) \<and> g' = g"
  using assms
  by (auto simp: handle_msg_def is_command_def agent_only_def
      dest: dispatch_exec_script_done dispatch_install_pkg_done dispatch_reboot_done dispatch_collect_inventory_done
        dispatch_install_patches_done dispatch_file_transfer_done)

lemma bounds_total [simp]:
  "\<exists>i. positive_or d j 1 300 = Some i" "\<exists>i. positive_or d j 1 7200 = Some i" "\<exists>i. positive_or d j 1 86400 = Some i"
  "\<exists>i. number_or d j 1 30 = Some i" "\<exists>i. number_or d j 1 100 = Some i" "\<exists>i. number_or d j 1 7680 = Some i"
  using number_total(1) [of 1 300 d j] number_total(1) [of 1 7200 d j] number_total(1) [of 1 86400 d j]
    number_total(2) [of 1 30 d j] number_total(2) [of 1 100 d j] number_total(2) [of 1 7680 d j]
  by (simp_all add: int32_range_def)

lemma dispatch_exec_script_total: "\<exists>out. dispatch_exec_script env i body ag = Some out"
proof -
  obtain t where "positive_or LEO_EXEC_DEFAULT_TIMEOUT_SEC (field body ''timeout_sec'') 1 LEO_EXEC_MAX_TIMEOUT_SEC = Some t"
    unfolding agent_limits using bounds_total(1) by blast
  then show ?thesis
    using start_thread_total by (simp add: dispatch_exec_script_def launch_exec_def split: option.split)
qed

lemma dispatch_install_pkg_total: "\<exists>out. dispatch_install_pkg env i body ag = Some out"
proof -
  obtain t where "positive_or LEO_EXEC_DEFAULT_TIMEOUT_SEC (field body ''timeout_sec'') 1 LEO_EXEC_MAX_TIMEOUT_SEC = Some t"
    unfolding agent_limits using bounds_total(1) by blast
  then show ?thesis using start_thread_total by (simp add: dispatch_install_pkg_def Let_def)
qed

lemma dispatch_install_patches_total: "\<exists>out. dispatch_install_patches env i body ag = Some out"
proof -
  obtain t where "positive_or LEO_EXEC_DEFAULT_TIMEOUT_SEC (field body ''timeout_sec'') 1 LEO_EXEC_MAX_TIMEOUT_SEC = Some t"
    unfolding agent_limits using bounds_total(1) by blast
  then show ?thesis using start_thread_total by (simp add: dispatch_install_patches_def Let_def)
qed

lemma dispatch_file_transfer_total:
  assumes "size_field (field body ''size_bytes'') \<noteq> None"
  shows "\<exists>out. dispatch_file_transfer env i body ag = Some out"
proof (cases body)
  case (Some j)
  obtain t where "positive_or LEO_FILE_TRANSFER_DEFAULT_TIMEOUT_SEC (get_object_item j ''timeout_sec'') 1
      LEO_FILE_TRANSFER_MAX_TIMEOUT_SEC = Some t"
    unfolding dispatch_limits using bounds_total(2) by blast
  with Some assms show ?thesis
    using start_thread_total by (simp add: dispatch_file_transfer_def field_def split: option.split)
qed (simp add: dispatch_file_transfer_def)

lemma dispatch_reboot_total: "\<exists>out. dispatch_reboot env i body ag = Some out"
proof -
  have "\<exists>d. reboot_delay j = Some d" for j
    using json_number_clamped_total [of 0 3600]
    by (auto simp: reboot_delay_def dispatch_limits int32_range_def split: option.splits)
  then obtain d where "reboot_delay (field body ''delay_sec'') = Some d" by blast
  then show ?thesis using start_thread_total by (simp add: dispatch_reboot_def)
qed

lemma dispatch_remote_desktop_start_total: "\<exists>out. dispatch_remote_desktop_start env body st = Some out"
proof (cases body)
  case (Some j)
  obtain a b c d where "number_or 8 (get_object_item j ''fps'') 1 30 = Some a" "number_or 60 (get_object_item j ''quality'') 1 100 = Some b"
    "number_or 1920 (get_object_item j ''max_width'') 1 7680 = Some c" "number_or 1080 (get_object_item j ''max_height'') 1 7680 = Some d"
    using bounds_total(4,5,6) by metis
  with Some show ?thesis by (auto simp: dispatch_remote_desktop_start_def dispatch_limits Let_def split: option.split prod.split)
qed (simp add: dispatch_remote_desktop_start_def)

lemma interval_updates_total: "\<exists>ag'. hello_ack body ag = Some ag'" "\<exists>ag'. config_update body ag = Some ag'"
proof -
  let ?h = "heartbeat_interval_sec (ag_config ag)" and ?m = "metrics_interval_sec (ag_config ag)"
  obtain x y where "positive_or ?h (field body ''heartbeat_interval_sec'') 1 86400 = Some x"
    "positive_or ?m (field body ''metrics_interval_sec'') 1 86400 = Some y"
    using bounds_total(3) by metis
  then show "\<exists>ag'. hello_ack body ag = Some ag'" "\<exists>ag'. config_update body ag = Some ag'"
    by (simp_all add: hello_ack_def config_update_def Let_def)
qed

text \<open>handling a message never leaves the defined behaviour of C, except for a file transfer whose
  \<^verbatim>\<open>size_bytes\<close> an unsigned 64-bit integer cannot hold; every other message has an outcome.\<close>

theorem handle_msg_defined:
  assumes "msg_of_code (msg_type msg) = Some LEO_MSG_FILE_TRANSFER \<Longrightarrow> size_field (field (msg_body msg) ''size_bytes'') \<noteq> None"
  shows "\<exists>ag' g' effs. handle_msg env msg (ag, g) = Some ((ag', g'), effs)"
proof (cases "msg_of_code (msg_type msg) = Some LEO_MSG_FILE_TRANSFER")
  case True
  with assms show ?thesis using dispatch_file_transfer_total [of "msg_body msg" env "msg_id msg" ag]
    by (auto simp: handle_msg_def agent_only_def)
next
  case False
  have "dispatch_collect_inventory env i ag \<noteq> None" for i
    unfolding dispatch_collect_inventory_def by (rule start_thread_total) simp
  with False show ?thesis
    using dispatch_exec_script_total [of env "msg_id msg" "msg_body msg" ag] dispatch_install_pkg_total [of env "msg_id msg" "msg_body msg" ag]
      dispatch_install_patches_total [of env "msg_id msg" "msg_body msg" ag] dispatch_reboot_total [of env "msg_id msg" "msg_body msg" ag]
      dispatch_remote_desktop_start_total [of env "msg_body msg" "(ag, g)"] interval_updates_total [of "msg_body msg" ag]
    by (auto simp: handle_msg_def agent_only_def Let_def dispatch_remote_desktop_stop_def
        split: option.split leo_msg_type.split prod.split)
qed

section \<open>What the server cannot change\<close>

definition interval_kept :: "int \<Rightarrow> int \<Rightarrow> bool" where
  "interval_kept old new \<longleftrightarrow> new = old \<or> (1 \<le> new \<and> new \<le> 86400)"

text \<open>A configuration that differs from another in its intervals at most.\<close>

definition only_intervals :: "leo_config \<Rightarrow> leo_config \<Rightarrow> bool" where
  "only_intervals c c' \<longleftrightarrow>
     c' = c\<lparr>heartbeat_interval_sec := heartbeat_interval_sec c', metrics_interval_sec := metrics_interval_sec c'\<rparr> \<and>
     interval_kept (heartbeat_interval_sec c) (heartbeat_interval_sec c') \<and>
     interval_kept (metrics_interval_sec c) (metrics_interval_sec c')"

lemma positive_or_kept: "positive_or d j 1 86400 = Some i \<Longrightarrow> interval_kept d i"
  using positive_or_bounds [of d j 1 86400 i] by (auto simp: interval_kept_def)

lemma hello_ack_intervals: "hello_ack body ag = Some ag' \<Longrightarrow> only_intervals (ag_config ag) (ag_config ag')"
  by (auto simp: hello_ack_def Let_def only_intervals_def dest!: positive_or_kept split: option.splits)

lemma config_update_intervals: "config_update body ag = Some ag' \<Longrightarrow> only_intervals (ag_config ag) (ag_config ag')"
  by (cases "ag_config ag") (auto simp: config_update_def only_intervals_def interval_kept_def dest!: positive_or_bounds)

lemma send_pong_keeps [simp]: "ag_config (send_pong env i ag) = ag_config ag"
  "exec_active_count (send_pong env i ag) = exec_active_count ag"
  by (simp_all add: send_pong_def)

lemma rd_dispatch_keeps:
  "dispatch_remote_desktop_start env body st = Some (st', effs) \<Longrightarrow> fst st' = fst st"
  "dispatch_remote_desktop_stop env body st = (st', effs) \<Longrightarrow> fst st' = fst st"
  by (auto simp: dispatch_remote_desktop_start_def dispatch_remote_desktop_stop_def Let_def split: option.splits if_splits prod.splits)

lemma request_done_config: "request_done i ag (ag', effs) \<Longrightarrow> ag_config ag' = ag_config ag"
  by (auto simp: request_done_def)

lemmas command_done =
  dispatch_exec_script_done dispatch_install_pkg_done dispatch_reboot_done dispatch_collect_inventory_done
  dispatch_install_patches_done dispatch_file_transfer_done

text \<open>C23: no message changes the agent's identity, its endpoint or the fingerprint it pins: of the
  configuration only the two intervals change, to values between a second and a day, and only
  HELLO_ACK and CONFIG_UPDATE do that.\<close>

theorem messages_keep_identity:
  assumes "handle_msg env msg (ag, g) = Some ((ag', g'), effs)"
  shows "only_intervals (ag_config ag) (ag_config ag') \<and>
         (msg_of_code (msg_type msg) \<notin> {Some LEO_MSG_HELLO_ACK, Some LEO_MSG_CONFIG_UPDATE} \<longrightarrow> ag_config ag' = ag_config ag)"
proof (cases "msg_of_code (msg_type msg) \<in> {Some LEO_MSG_HELLO_ACK, Some LEO_MSG_CONFIG_UPDATE}")
  case True
  with assms have "hello_ack (msg_body msg) ag = Some ag' \<or> config_update (msg_body msg) ag = Some ag'"
    by (auto simp: handle_msg_def agent_only_def)
  with hello_ack_intervals config_update_intervals True show ?thesis by blast
next
  case False
  with assms have "ag_config ag' = ag_config ag"
    by (auto simp: handle_msg_def agent_only_def Let_def dest: command_done [THEN request_done_config] dest!: rd_dispatch_keeps
        split: option.splits leo_msg_type.splits)
  then show ?thesis by (simp add: only_intervals_def interval_kept_def)
qed

lemma leo_rd_start_changed:
  assumes "leo_rd_start g conn cfg (Some sid) (Some url) mode fps q w h a b = (ok, g')" "g_rd_ctx g' \<noteq> g_rd_ctx g"
  shows "g_rd_ctx g = None \<and> (\<exists>c s. rd_new_session c cfg sid url mode fps q w h = Some s \<and> g_rd_ctx g' = Some s)"
  using assms by (auto simp: leo_rd_start_def split: option.splits if_splits)

text \<open>the parameters of a remote desktop session started by a message lie within the agent's own
  bounds whatever the message says, so that a frame's sizes fit the two bytes the protocol gives them;
  the mode is control only when the message says so; and a session already there is not replaced.\<close>

theorem rd_start_bounded:
  assumes "dispatch_remote_desktop_start env body (ag, g) = Some ((ag', g'), effs)" "g_rd_ctx g' \<noteq> g_rd_ctx g"
  shows "g_rd_ctx g = None \<and>
         (\<exists>s. g_rd_ctx g' = Some s \<and> 1 \<le> rd_fps s \<and> rd_fps s \<le> 30 \<and> 1 \<le> rd_quality s \<and> rd_quality s \<le> 100 \<and>
              1 \<le> rd_max_width s \<and> rd_max_width s < 65536 \<and> 1 \<le> rd_max_height s \<and> rd_max_height s < 65536 \<and>
              (rd_control_mode s \<longleftrightarrow> as_string (field body ''mode'') = Some ''control''))"
proof -
  from assms obtain j sid url fps q w h ok where j: "body = Some j"
    and n: "number_or 8 (get_object_item j ''fps'') 1 30 = Some fps" "number_or 60 (get_object_item j ''quality'') 1 100 = Some q"
      "number_or 1920 (get_object_item j ''max_width'') 1 7680 = Some w" "number_or 1080 (get_object_item j ''max_height'') 1 7680 = Some h"
    and start: "leo_rd_start g (ag_conn ag) (ag_config ag) (Some sid) (Some url)
        (Some (case as_string (get_object_item j ''mode'') of Some m \<Rightarrow> m | None \<Rightarrow> ''view'')) fps q w h
        (de_rd_calloc_ok env) (de_rd_thread_ok env) = (ok, g')"
    unfolding dispatch_remote_desktop_start_def dispatch_limits Let_def
    by (force split: option.splits if_splits prod.splits)
  have b: "1 \<le> fps \<and> fps \<le> 30" "1 \<le> q \<and> q \<le> 100" "1 \<le> w \<and> w \<le> 7680" "1 \<le> h \<and> h \<le> 7680"
    using n by (auto simp: number_or_def dest: json_number_clamped_bounds split: option.splits)
  from leo_rd_start_changed [OF start assms(2)] b j show ?thesis
    by (auto simp: rd_new_session_def field_def split: option.splits)
qed

section \<open>Sample messages\<close>

definition demo_disp :: disp_env where
  "demo_disp =
     \<lparr>de_proto = mute_env, de_calloc_ok = True, de_strdup_ok = True, de_thread_ok = True, de_rd_calloc_ok = True,
      de_rd_thread_ok = True, de_running_seen = []\<rparr>"

definition no_session :: rd_globals where "no_session = \<lparr>g_rd_ctx = None, g_rd_thread_running = False\<rparr>"

definition demo_exec_msg :: leo_incoming_msg where
  "demo_exec_msg =
     \<lparr>msg_type = msg_code LEO_MSG_EXEC_SCRIPT, msg_id = ''c1'',
      msg_body = Some (JObject [(''interpreter'', JString ''sh''), (''script'', JString ''ls''), (''timeout_sec'', JNumber (Dfin 1000))])\<rparr>"

definition demo_config_msg :: leo_incoming_msg where
  "demo_config_msg =
     \<lparr>msg_type = msg_code LEO_MSG_CONFIG_UPDATE, msg_id = ''c2'',
      msg_body = Some (JObject [(''metrics_interval_sec'', JNumber (Dfin 100000)), (''ws_endpoint'', JString ''wss://evil'')])\<rparr>"

lemma demo_exec_handled:
  "\<exists>ctx. handle_msg demo_disp demo_exec_msg (demo_agent, no_session) =
     Some ((demo_agent\<lparr>exec_active_count := 2\<rparr>, no_session), [Ag_Exec ctx]) \<and> ctx_timeout_secs ctx = 300"
proof -
  have "msg_of_code (msg_code LEO_MSG_EXEC_SCRIPT) = Some LEO_MSG_EXEC_SCRIPT" by code_simp
  then show ?thesis
    by (simp add: handle_msg_def demo_exec_msg_def dispatch_exec_script_def field_def positive_or_def json_number_clamped_def
        dbl_of_int_def agent_only_def launch_exec_def start_thread_def reserve_exec_slot_def spawn_detached_def demo_disp_def
        demo_agent_def agent_limits clamp_timeout_def zero_ctx_def)
qed

theorem handle_msg_defined_witness:
  "\<exists>ag' g' effs. handle_msg demo_disp (demo_exec_msg\<lparr>msg_type := msg_code LEO_MSG_FILE_TRANSFER,
       msg_body := Some (JObject [(''size_bytes'', JNumber (Dfin 12))])\<rparr>) (demo_agent, no_session) = Some ((ag', g'), effs)"
proof (rule handle_msg_defined)
  show "size_field (field (msg_body (demo_exec_msg\<lparr>msg_type := msg_code LEO_MSG_FILE_TRANSFER,
       msg_body := Some (JObject [(''size_bytes'', JNumber (Dfin 12))])\<rparr>)) ''size_bytes'') \<noteq> None"
    by code_simp
qed

theorem command_answered_once_witness:
  "\<exists>ag' effs. handle_msg demo_disp demo_exec_msg (demo_agent, no_session) = Some ((ag', no_session), effs) \<and>
     request_done ''c1'' demo_agent (ag', effs) \<and> exec_active_count ag' = 2"
proof -
  obtain ctx where h: "handle_msg demo_disp demo_exec_msg (demo_agent, no_session) =
      Some ((demo_agent\<lparr>exec_active_count := 2\<rparr>, no_session), [Ag_Exec ctx])" using demo_exec_handled by blast
  have "msg_of_code (msg_type demo_exec_msg) = Some LEO_MSG_EXEC_SCRIPT" by code_simp
  from command_answered_once [OF h this] have "request_done ''c1'' demo_agent (demo_agent\<lparr>exec_active_count := 2\<rparr>, [Ag_Exec ctx])"
    by (simp add: is_command_def demo_exec_msg_def)
  with h show ?thesis by (intro exI conjI) auto
qed

theorem messages_keep_identity_witness:
  "\<exists>ag'. handle_msg demo_disp demo_config_msg (demo_agent, no_session) = Some ((ag', no_session), []) \<and>
     metrics_interval_sec (ag_config ag') = 86400 \<and> ws_endpoint (ag_config ag') = ws_endpoint demo_config"
proof -
  have "msg_of_code (msg_code LEO_MSG_CONFIG_UPDATE) = Some LEO_MSG_CONFIG_UPDATE" by code_simp
  then obtain ag' where h: "handle_msg demo_disp demo_config_msg (demo_agent, no_session) = Some ((ag', no_session), [])"
    and m: "metrics_interval_sec (ag_config ag') = 86400"
    by (simp add: handle_msg_def demo_config_msg_def config_update_def field_def positive_or_def json_number_clamped_def
        dbl_of_int_def agent_only_def)
  from messages_keep_identity [OF h] have "only_intervals demo_config (ag_config ag')" by (simp add: demo_agent_def)
  then obtain x y where "ag_config ag' = demo_config\<lparr>heartbeat_interval_sec := x, metrics_interval_sec := y\<rparr>"
    by (auto simp: only_intervals_def)
  with h m show ?thesis by simp
qed

definition demo_rd_body :: json where
  "demo_rd_body =
     JObject [(''session_id'', JString ''s1''), (''ws_url'', JString ''wss://srv:8443/rd''), (''max_width'', JNumber (Dfin 1000000)),
              (''mode'', JString ''control'')]"

theorem rd_start_bounded_witness:
  "\<exists>s. g_rd_ctx (snd (fst (the (dispatch_remote_desktop_start demo_disp (Some demo_rd_body) (demo_agent, no_session))))) = Some s \<and>
     rd_control_mode s \<and> rd_max_width s < 65536"
proof -
  have "case dispatch_remote_desktop_start demo_disp (Some demo_rd_body) (demo_agent, no_session) of
      None \<Rightarrow> False | Some ((ag', g'), effs) \<Rightarrow> g_rd_ctx g' \<noteq> None"
    by code_simp
  then obtain ag' g' effs where h: "dispatch_remote_desktop_start demo_disp (Some demo_rd_body) (demo_agent, no_session) = Some ((ag', g'), effs)"
    "g_rd_ctx g' \<noteq> g_rd_ctx no_session" by (auto simp: no_session_def split: option.splits)
  from rd_start_bounded [OF this] h(1) show ?thesis by (auto simp: demo_rd_body_def field_def)
qed

end
