(* ===== verification/Enroll.thy ===== *)
theory Enroll
  imports Crypto Http_Url Protocol Scan
begin

text \<open>
  \<^verbatim>\<open>agent/src/enroll.c\<close>: the first contact with the server. The bootstrap file gives a token and the
  address of the API; the agent posts a description of its machine and gets its identity, the pinned
  fingerprint and a client certificate, which it saves before it removes the bootstrap file. The file
  system is the map and the record \<open>disk\<close> of the other theories; the HTTP client's events, JSON
  parsing and printing are arguments. The platform is Linux.
\<close>

section \<open>The bootstrap file\<close>

record bootstrap =
  enrollment_token :: cstring
  api_endpoint :: cstring

definition zero_bootstrap :: bootstrap where
  "zero_bootstrap = \<lparr>enrollment_token = [], api_endpoint = []\<rparr>"

definition bootstrap_set :: "cstring \<Rightarrow> cstring \<Rightarrow> bootstrap \<Rightarrow> bootstrap" where
  "bootstrap_set key val out =
     (if key = ''enrollment_token'' then out\<lparr>enrollment_token := strncpy_buf 128 val\<rparr>
      else if key = ''api_endpoint'' then out\<lparr>api_endpoint := strncpy_buf 256 val\<rparr>
      else out)"

definition BOOTSTRAP_LINE_MAX :: nat where "BOOTSTRAP_LINE_MAX = 512"

definition load_bootstrap :: "fs \<Rightarrow> cstring \<Rightarrow> bootstrap option" where
  "load_bootstrap files path =
     (case files path of
        None \<Rightarrow> None
      | Some bs \<Rightarrow>
          let out = ini_load bootstrap_set BOOTSTRAP_LINE_MAX bs zero_bootstrap in
          if enrollment_token out = [] \<or> api_endpoint out = [] then None else Some out)"

section \<open>The machine\<close>

text \<open>What \<^verbatim>\<open>gethostname\<close> and \<^verbatim>\<open>uname\<close> answer (\<open>None\<close> for a failure), and the compiler's target.\<close>

datatype target = T_x86_64 | T_aarch64 | T_other

record machine =
  mc_hostname :: "cstring option"
  mc_release :: "cstring option"
  mc_target :: target

definition detect_hostname :: "machine \<Rightarrow> nat \<Rightarrow> cstring" where
  "detect_hostname mc sz = strncpy_buf sz (case mc_hostname mc of Some h \<Rightarrow> h | None \<Rightarrow> ''unknown-host'')"

definition DQUOTE :: char where "DQUOTE = CHR 0x22"

definition unquote :: "cstring \<Rightarrow> cstring" where
  "unquote val = (if 2 \<le> length val \<and> hd val = DQUOTE \<and> last val = DQUOTE then tl (butlast val) else val)"

definition detect_os_version :: "fs \<Rightarrow> machine \<Rightarrow> nat \<Rightarrow> cstring" where
  "detect_os_version files mc sz =
     (let hit = (case files ''/etc/os-release'' of
                   None \<Rightarrow> None
                 | Some bs \<Rightarrow> find (\<lambda>l. strprefix ''PRETTY_NAME='' (c_str l)) (read_lines 256 bs))
      in case hit of
           Some l \<Rightarrow> strncpy_buf sz (unquote (chomp (drop 12 (c_str l))))
         | None \<Rightarrow> (case mc_release mc of Some r \<Rightarrow> strncpy_buf sz r | None \<Rightarrow> strncpy_buf sz ''unknown''))"

definition detect_arch :: "machine \<Rightarrow> nat \<Rightarrow> cstring" where
  "detect_arch mc sz =
     strncpy_buf sz (case mc_target mc of T_x86_64 \<Rightarrow> ''amd64'' | T_aarch64 \<Rightarrow> ''arm64'' | T_other \<Rightarrow> ''unknown'')"

definition HARDWARE_ID_PATHS :: "cstring list" where
  "HARDWARE_ID_PATHS = [''/etc/machine-id'', ''/var/lib/dbus/machine-id'']"

fun hardware_id_loop :: "fs \<Rightarrow> nat \<Rightarrow> cstring list \<Rightarrow> cstring option" where
  "hardware_id_loop files sz [] = None"
| "hardware_id_loop files sz (p # ps) =
     (case files p of
        None \<Rightarrow> hardware_id_loop files sz ps
      | Some bs \<Rightarrow>
          (case fgets sz bs of
             None \<Rightarrow> hardware_id_loop files sz ps
           | Some (l, _) \<Rightarrow>
               let out = chomp (c_str l) in
               if out \<noteq> [] then Some out else hardware_id_loop files sz ps))"

definition detect_hardware_id :: "fs \<Rightarrow> nat \<Rightarrow> cstring option" where
  "detect_hardware_id files sz = hardware_id_loop files sz HARDWARE_ID_PATHS"

section \<open>The request\<close>

definition enroll_request_json :: "cstring \<Rightarrow> leo_config \<Rightarrow> json" where
  "enroll_request_json token cfg =
     (let j = JObject [];
          j = add_string j ''enrollment_token'' token;
          j = add_string j ''hostname'' (hostname cfg);
          j = add_string j ''os'' (os_name cfg);
          j = add_string j ''os_version'' (os_version cfg);
          j = add_string j ''arch'' (arch cfg);
          j = add_string j ''hardware_id'' (hardware_id cfg)
      in add_string j ''agent_version'' LEO_AGENT_VERSION)"

definition build_enroll_request :: "(json \<Rightarrow> cstring option) \<Rightarrow> nat \<Rightarrow> cstring \<Rightarrow> leo_config \<Rightarrow> cstring option" where
  "build_enroll_request print bufsz token cfg =
     (case print (enroll_request_json token cfg) of
        None \<Rightarrow> None
      | Some s \<Rightarrow> if bufsz \<le> length s then None else Some s)"

section \<open>The HTTP client\<close>

definition ENROLL_HTTP_TIMEOUT_SEC :: int where "ENROLL_HTTP_TIMEOUT_SEC = 15"
definition ENROLL_WRITE_CHUNK :: nat where "ENROLL_WRITE_CHUNK = 2048"

record enroll_http =
  hc_body :: cstring
  body_sent :: nat
  resp_buf :: string             \<comment> \<open>the first \<^verbatim>\<open>resp_len\<close> bytes\<close>
  hc_status :: int
  hc_done :: bool
  hc_failed :: bool
  hc_writes :: "(string \<times> bool) list" \<comment> \<open>what was handed to \<^verbatim>\<open>lws_write\<close>; \<open>True\<close> for the final piece\<close>

datatype enroll_reason =
    EN_Connection_Error
  | EN_Established int
  | EN_Append_Header bool   \<comment> \<open>both headers were added\<close>
  | EN_Writeable bool       \<comment> \<open>\<^verbatim>\<open>lws_write\<close> did not fail\<close>
  | EN_Receive bool
  | EN_Read string
  | EN_Completed
  | EN_Closed
  | EN_Other

definition enroll_callback :: "enroll_reason \<Rightarrow> enroll_http \<Rightarrow> int \<times> enroll_http" where
  "enroll_callback reason hc =
     (case reason of
        EN_Connection_Error \<Rightarrow> (0, hc\<lparr>hc_failed := True, hc_done := True\<rparr>)
      | EN_Established status \<Rightarrow> (0, hc\<lparr>hc_status := status\<rparr>)
      | EN_Append_Header ok \<Rightarrow> (if ok then 0 else - 1, hc)
      | EN_Writeable ok \<Rightarrow>
          let remaining = length (hc_body hc) - body_sent hc;
              chunk = (if remaining < ENROLL_WRITE_CHUNK then remaining else ENROLL_WRITE_CHUNK);
              piece = take chunk (drop (body_sent hc) (hc_body hc));
              sent = body_sent hc + chunk;
              final = (length (hc_body hc) \<le> sent)
          in (if ok then 0 else - 1, hc\<lparr>body_sent := sent, hc_writes := hc_writes hc @ [(piece, final)]\<rparr>)
      | EN_Receive ok \<Rightarrow> (if ok then 0 else - 1, hc)
      | EN_Read bs \<Rightarrow>
          let space = LEO_MAX_MSG_SIZE - 1 - length (resp_buf hc);
              n = (if length bs < space then length bs else space)
          in (0, hc\<lparr>resp_buf := resp_buf hc @ take n bs\<rparr>)
      | EN_Completed \<Rightarrow> (0, hc\<lparr>hc_done := True\<rparr>)
      | EN_Closed \<Rightarrow> (0, hc\<lparr>hc_done := True\<rparr>)
      | EN_Other \<Rightarrow> (0, hc))"

record enroll_turn =
  et_calls :: "enroll_reason list"
  et_service_ok :: bool
  et_now :: int

text \<open>The loop \<^verbatim>\<open>while (!hc.done)\<close>; \<open>None\<close> when the turns run out first.\<close>

fun enroll_loop :: "int \<Rightarrow> enroll_turn list \<Rightarrow> enroll_http \<Rightarrow> enroll_http option" where
  "enroll_loop deadline [] hc = (if hc_done hc then Some hc else None)"
| "enroll_loop deadline (t # ts) hc =
     (if hc_done hc then Some hc
      else
        let hc = fold (\<lambda>r hc. snd (enroll_callback r hc)) (et_calls t) hc in
        if \<not> et_service_ok t then Some (hc\<lparr>hc_failed := True\<rparr>)
        else if deadline < et_now t then Some (hc\<lparr>hc_failed := True\<rparr>)
        else enroll_loop deadline ts hc)"

record enroll_net =
  en_context_ok :: bool
  en_connect_ok :: bool
  en_now :: int
  en_turns :: "enroll_turn list"

definition new_http :: "cstring \<Rightarrow> enroll_http" where
  "new_http body =
     \<lparr>hc_body = body, body_sent = 0, resp_buf = [], hc_status = 0, hc_done = False, hc_failed = False, hc_writes = []\<rparr>"

text \<open>\<open>_http_post_json\<close>: an error, or the text and status of the answer.\<close>

definition http_post_json :: "enroll_net \<Rightarrow> cstring \<Rightarrow> nat \<Rightarrow> (leo_error + (cstring \<times> int)) option" where
  "http_post_json net body resp_sz =
     (if \<not> en_context_ok net then Some (Inl LEO_ERR_NETWORK)
      else if \<not> en_connect_ok net then Some (Inl LEO_ERR_NETWORK)
      else
        map_option (\<lambda>hc.
            if hc_failed hc \<or> hc_status hc = 0 then Inl LEO_ERR_NETWORK
            else Inr (c_str (take (resp_sz - 1) (resp_buf hc)), hc_status hc))
          (enroll_loop (en_now net + ENROLL_HTTP_TIMEOUT_SEC) (en_turns net) (new_http body)))"

section \<open>The answer\<close>

definition copy_response_field :: "json \<Rightarrow> cstring \<Rightarrow> nat \<Rightarrow> cstring option" where
  "copy_response_field data name dstsz =
     (case as_string (get_object_item data name) of
        None \<Rightarrow> None
      | Some s \<Rightarrow> if s = [] then None else Some (strncpy_buf dstsz s))"

text \<open>The configuration filled in, the certificate and the key. A field that is missing ends the
  conjunction; what was filled in before is lost with the configuration, as every caller discards
  it.\<close>

definition LEO_CERT_BUF_SIZE :: nat where "LEO_CERT_BUF_SIZE = 8192"
definition LEO_KEY_BUF_SIZE :: nat where "LEO_KEY_BUF_SIZE = 8192"

definition parse_enroll_response ::
  "(cstring \<Rightarrow> json option) \<Rightarrow> cstring \<Rightarrow> int \<Rightarrow> leo_config \<Rightarrow> leo_error + (leo_config \<times> cstring \<times> cstring)" where
  "parse_enroll_response parse json_str http_status cfg =
     (case parse json_str of
        None \<Rightarrow> Inl LEO_ERR_PROTOCOL
      | Some j \<Rightarrow>
          if http_status \<noteq> 200 \<and> http_status \<noteq> 201 then Inl LEO_ERR_PROTOCOL
          else if \<not> is_object (get_object_item j ''data'') then Inl LEO_ERR_PROTOCOL
          else
            let data = the (get_object_item j ''data'') in
            case (copy_response_field data ''agent_id'' 37, copy_response_field data ''tenant_id'' 37,
                  copy_response_field data ''ws_endpoint'' 512, copy_response_field data ''server_cert_fingerprint'' 65,
                  copy_response_field data ''client_cert_pem'' LEO_CERT_BUF_SIZE,
                  copy_response_field data ''client_key_pem'' LEO_KEY_BUF_SIZE) of
              (Some aid, Some tid, Some ws, Some fp, Some cert, Some key) \<Rightarrow>
                Inr (cfg\<lparr>agent_id := aid, tenant_id := tid, ws_endpoint := ws, ca_fingerprint := fp\<rparr>, cert, key)
            | _ \<Rightarrow> Inl LEO_ERR_PROTOCOL)"

section \<open>Enrollment\<close>

record enroll_env =
  ee_machine :: machine
  ee_print :: "json \<Rightarrow> cstring option"
  ee_parse :: "cstring \<Rightarrow> json option"
  ee_net :: enroll_net
  ee_disk :: disk
  ee_can_remove :: "cstring \<Rightarrow> bool"

definition machine_config :: "fs \<Rightarrow> machine \<Rightarrow> leo_config" where
  "machine_config files mc =
     default_config\<lparr>hostname := detect_hostname mc 256, os_version := detect_os_version files mc 128,
                    arch := detect_arch mc 16, os_name := strncpy_buf 32 ''linux''\<rparr>"

text \<open>\<^verbatim>\<open>leo_enroll\<close> on non-NULL pointers: the return code, the files and, on success, the configuration.
  \<open>None\<close> when the HTTP loop does not end within the given turns. What depends on the system is passed:
  what was found out about the machine, its hardware identifier, and how certificates are saved.\<close>

definition enroll_on ::
  "leo_config \<Rightarrow> cstring option \<Rightarrow> (disk \<Rightarrow> fs \<Rightarrow> cstring option \<Rightarrow> cstring option \<Rightarrow> leo_error \<times> fs) \<Rightarrow>
   enroll_env \<Rightarrow> fs \<Rightarrow> cstring \<Rightarrow> cstring \<Rightarrow> ((leo_error \<times> fs) + (leo_config \<times> fs)) option" where
  "enroll_on machine hw save env files bootstrap_path config_path =
     (case load_bootstrap files bootstrap_path of
        None \<Rightarrow> Some (Inl (LEO_ERR_CONFIG, files))
      | Some bs \<Rightarrow>
          (case hw of
             None \<Rightarrow> Some (Inl (LEO_ERR_SYSTEM, files))
           | Some hwid \<Rightarrow>
               let cfg = machine\<lparr>hardware_id := hwid\<rparr> in
               (case build_enroll_request (ee_print env) 2048 (enrollment_token bs) cfg of
                  None \<Rightarrow> Some (Inl (LEO_ERR_PROTOCOL, files))
                | Some req \<Rightarrow>
                    if req = [] then Some (Inl (LEO_ERR_PROTOCOL, files))
                    else if leo_http_parse_url (api_endpoint bs) 256 None = None
                    then Some (Inl (LEO_ERR_CONFIG, files))
                    else
                      (case http_post_json (ee_net env) req LEO_MAX_MSG_SIZE of
                         None \<Rightarrow> None
                       | Some (Inl rc) \<Rightarrow> Some (Inl (rc, files))
                       | Some (Inr (resp, status)) \<Rightarrow>
                           (case parse_enroll_response (ee_parse env) resp status cfg of
                              Inl rc \<Rightarrow> Some (Inl (rc, files))
                            | Inr (cfg, cert, key) \<Rightarrow>
                                let (rc, files) = save (ee_disk env) files (Some cert) (Some key) in
                                if rc \<noteq> LEO_OK then Some (Inl (LEO_ERR_TLS, files))
                                else
                                  let (rc, files) = leo_config_save (can_open_w (ee_disk env)) files (Some config_path) cfg in
                                  if rc \<noteq> LEO_OK then Some (Inl (LEO_ERR_CONFIG, files))
                                  else Some (Inr (cfg, if ee_can_remove env bootstrap_path
                                                       then files(bootstrap_path := None) else files)))))))"

definition leo_enroll ::
  "enroll_env \<Rightarrow> fs \<Rightarrow> cstring \<Rightarrow> cstring \<Rightarrow> ((leo_error \<times> fs) + (leo_config \<times> fs)) option" where
  "leo_enroll env files =
     enroll_on (machine_config files (ee_machine env)) (detect_hardware_id files 37) leo_crypto_save_cert_key env files"

section \<open>The readers fit their buffers\<close>

definition bootstrap_fits :: "bootstrap \<Rightarrow> bool" where
  "bootstrap_fits b \<longleftrightarrow> length (enrollment_token b) < 128 \<and> length (api_endpoint b) < 256"

interpretation boot: ini_reader bootstrap_set BOOTSTRAP_LINE_MAX bootstrap_fits
  by unfold_locales (auto simp: BOOTSTRAP_LINE_MAX_def bootstrap_set_def bootstrap_fits_def intro: strncpy_buf_length)

lemma load_bootstrap_fits: "load_bootstrap files p = Some b \<Longrightarrow> bootstrap_fits b \<and> enrollment_token b \<noteq> [] \<and> api_endpoint b \<noteq> []"
  using boot.load_fits [of zero_bootstrap]
  by (auto simp: load_bootstrap_def Let_def zero_bootstrap_def bootstrap_fits_def split: option.splits if_splits)

lemma hardware_id_loop_fits: "hardware_id_loop files 37 ps = Some h \<Longrightarrow> length h < 37 \<and> h \<noteq> []"
proof (induction ps)
  case (Cons p ps)
  have short: "length (chomp (c_str l)) < 37" if "fgets 37 bs = Some (l, r)" for bs l r
  proof -
    have "length l \<le> 36" using that take_line_le [of 36 bs] by (auto simp: fgets_def split: if_splits)
    then show ?thesis using chomp_length [of "c_str l"] c_str_length [of l] by simp
  qed
  with Cons show ?case by (auto simp: Let_def split: option.splits if_splits)
qed simp

lemma machine_config_fits: "length h < 37 \<Longrightarrow> config_fits ((machine_config files mc)\<lparr>hardware_id := h\<rparr>)"
  using default_config_fits
  by (auto simp: machine_config_def config_fits_def detect_hostname_def detect_os_version_def detect_arch_def Let_def
      strncpy_buf_length split: option.splits)

lemma parse_enroll_response_fits:
  assumes "parse_enroll_response parse s st cfg = Inr (cfg', cert, key)" "config_fits cfg"
  shows "config_fits cfg' \<and> agent_id cfg' \<noteq> [] \<and> tenant_id cfg' \<noteq> [] \<and> ws_endpoint cfg' \<noteq> [] \<and> (st = 200 \<or> st = 201)"
proof -
  have f: "length v < n \<and> v \<noteq> []" if "copy_response_field d k n = Some v" "1 < n" for d k n v
    using that strncpy_buf_length [of n] by (auto simp: copy_response_field_def strncpy_buf_def split: option.splits if_splits)
  from assms obtain d aid tid ws fp where
    "copy_response_field d ''agent_id'' 37 = Some aid" "copy_response_field d ''tenant_id'' 37 = Some tid"
    "copy_response_field d ''ws_endpoint'' 512 = Some ws" "copy_response_field d ''server_cert_fingerprint'' 65 = Some fp"
    "cfg' = cfg\<lparr>agent_id := aid, tenant_id := tid, ws_endpoint := ws, ca_fingerprint := fp\<rparr>" "st = 200 \<or> st = 201"
    by (auto simp: parse_enroll_response_def Let_def split: option.splits if_splits)
  with f assms(2) show ?thesis by (fastforce simp: config_fits_def)
qed

section \<open>What enrollment does to the disk\<close>

text \<open>What was found out about the machine fits the configuration's buffers.\<close>

definition identity_fits :: "leo_config \<Rightarrow> cstring option \<Rightarrow> bool" where
  "identity_fits machine hw \<longleftrightarrow> (case hw of None \<Rightarrow> True | Some h \<Rightarrow> config_fits (machine\<lparr>hardware_id := h\<rparr>))"

text \<open>Proved once, for enrollment over any certificate store.\<close>

locale enrollment = cert_store save load cert_file key_file
  for save load cert_file key_file
begin

text \<open>The cases of a run: it ends before anything is written, while saving, or with everything saved.\<close>

lemma enroll_cases:
  assumes "enroll_on machine hw save env files bp cp = Some out" "identity_fits machine hw"
  obtains (early) rc where "out = Inl (rc, files)"
  | (saving) rc cert key where "out = Inl (rc, snd (save (ee_disk env) files (Some cert) (Some key)))"
  | (saved) cfg cert key files1 bs where "load_bootstrap files bp = Some bs" "config_fits cfg"
      "agent_id cfg \<noteq> []" "tenant_id cfg \<noteq> []" "ws_endpoint cfg \<noteq> []"
      "save (ee_disk env) files (Some cert) (Some key) = (LEO_OK, files1)" "can_open_w (ee_disk env) cp"
      "out = Inr (cfg, let f = files1(cp \<mapsto> config_text cfg) in if ee_can_remove env bp then f(bp := None) else f)"
proof (cases "\<exists>rc. out = Inl (rc, files)")
  case True
  with early show thesis by blast
next
  case False
  from False assms(1) obtain bs hwid resp st cfg cert key where
    bs: "load_bootstrap files bp = Some bs" and hw: "hw = Some hwid"
    and resp: "parse_enroll_response (ee_parse env) resp st (machine\<lparr>hardware_id := hwid\<rparr>) = Inr (cfg, cert, key)"
    and out: "out = (let (rc, files1) = save (ee_disk env) files (Some cert) (Some key) in
         if rc \<noteq> LEO_OK then Inl (LEO_ERR_TLS, files1)
         else let (rc, files1) = leo_config_save (can_open_w (ee_disk env)) files1 (Some cp) cfg in
              if rc \<noteq> LEO_OK then Inl (LEO_ERR_CONFIG, files1)
              else Inr (cfg, if ee_can_remove env bp then files1(bp := None) else files1))"
    unfolding enroll_on_def Let_def
    by (force split: option.splits sum.splits if_splits prod.splits)
  from assms(2) hw have "config_fits (machine\<lparr>hardware_id := hwid\<rparr>)" by (simp add: identity_fits_def)
  note cfg = parse_enroll_response_fits [OF resp this]
  obtain rc files1 where s: "save (ee_disk env) files (Some cert) (Some key) = (rc, files1)" by fastforce
  show thesis
  proof (cases "rc = LEO_OK \<and> can_open_w (ee_disk env) cp")
    case True
    with out s have "out = Inr (cfg, let f = files1(cp \<mapsto> config_text cfg) in if ee_can_remove env bp then f(bp := None) else f)"
      by (simp add: leo_config_save_def Let_def)
    with saved [OF bs] cfg s True show thesis by blast
  next
    case False
    with out s have "\<exists>rc. out = Inl (rc, snd (save (ee_disk env) files (Some cert) (Some key)))"
      by (auto simp: leo_config_save_def Let_def)
    with saving show thesis by blast
  qed
qed

lemma enroll_on_disk:
  assumes "enroll_on machine hw save env files bp cp = Some out" "identity_fits machine hw"
    and "distinct [bp, cp, cert_file, key_file]"
  shows "case out of
           Inl (rc, files') \<Rightarrow> (\<forall>p. p \<notin> {cert_file, key_file} \<longrightarrow> files' p = files p)
         | Inr (cfg, files') \<Rightarrow>
             files' cp = Some (config_text cfg) \<and> files' cert_file \<noteq> None \<and> files' key_file \<noteq> None \<and>
             files' bp = (if ee_can_remove env bp then None else files bp) \<and>
             (\<forall>p. p \<notin> {bp, cp, cert_file, key_file} \<longrightarrow> files' p = files p)"
  using assms(1,2)
proof (cases rule: enroll_cases)
  case (saving rc cert key)
  then show ?thesis using save_frame by simp
next
  case (saved cfg cert key files1 bs)
  from save_law [OF saved(6)] assms(3) saved(8) show ?thesis by (auto simp: Let_def)
qed simp

lemma enroll_on_fits:
  assumes "enroll_on machine hw save env files bp cp = Some (Inr (cfg, files'))" "identity_fits machine hw"
  shows "config_fits cfg"
  using assms by (cases rule: enroll_cases) auto

lemma enroll_on_loads:
  assumes "enroll_on machine hw save env files bp cp = Some (Inr (cfg, files'))" "identity_fits machine hw" "bp \<noteq> cp"
    and "length (ca_fingerprint cfg) = 64" "config_ini_safe cfg"
  shows "leo_config_load files' (Some cp) out = (LEO_OK, cfg) \<and> config_fits cfg"
  using assms(1,2)
proof (cases rule: enroll_cases)
  case (saved cfg1 cert key files1 bs)
  then have cfg: "cfg1 = cfg" and f: "files' cp = Some (config_text cfg)" using assms(3) by (auto simp: Let_def split: if_splits)
  have "leo_config_is_valid cfg" using saved cfg assms(4) by (simp add: leo_config_is_valid_def)
  from config_save_load(2) [OF _ this assms(5), of "\<lambda>_. True" cp files' out] saved(2) cfg
  have "leo_config_load (files'(cp \<mapsto> config_text cfg)) (Some cp) out = (LEO_OK, cfg)" by simp
  moreover have "files'(cp \<mapsto> config_text cfg) = files'" using f by auto
  ultimately show ?thesis using saved(2) cfg by simp
qed simp_all

end

lemma linux_identity_fits: "identity_fits (machine_config files mc) (detect_hardware_id files 37)"
  using hardware_id_loop_fits by (auto simp: identity_fits_def detect_hardware_id_def machine_config_fits split: option.splits)

interpretation linux_enroll: enrollment leo_crypto_save_cert_key leo_crypto_load_cert_key LEO_CLIENT_CERT_FILE LEO_CLIENT_KEY_FILE
  by unfold_locales

lemma leo_enroll_fits: "leo_enroll env files bp cp = Some (Inr (cfg, files')) \<Longrightarrow> config_fits cfg"
  unfolding leo_enroll_def by (rule linux_enroll.enroll_on_fits [OF _ linux_identity_fits])



section \<open>The exchange\<close>

definition http_inv :: "enroll_http \<Rightarrow> bool" where
  "http_inv hc \<longleftrightarrow>
     concat (map fst (hc_writes hc)) = take (body_sent hc) (hc_body hc) \<and> body_sent hc \<le> length (hc_body hc) \<and>
     length (resp_buf hc) < LEO_MAX_MSG_SIZE \<and>
     ((\<exists>piece. (piece, True) \<in> set (hc_writes hc)) \<longrightarrow> body_sent hc = length (hc_body hc))"

lemma enroll_callback_inv: "http_inv hc \<Longrightarrow> http_inv (snd (enroll_callback r hc)) \<and> hc_body (snd (enroll_callback r hc)) = hc_body hc"
proof (cases r)
  case (EN_Writeable ok)
  assume inv: "http_inv hc"
  let ?rem = "length (hc_body hc) - body_sent hc"
  let ?chunk = "if ?rem < ENROLL_WRITE_CHUNK then ?rem else ENROLL_WRITE_CHUNK"
  have "take (body_sent hc) (hc_body hc) @ take ?chunk (drop (body_sent hc) (hc_body hc)) = take (body_sent hc + ?chunk) (hc_body hc)"
    by (rule take_add [symmetric])
  with inv EN_Writeable show ?thesis by (auto simp: enroll_callback_def http_inv_def Let_def)
qed (auto simp: enroll_callback_def http_inv_def Let_def)

lemma enroll_callbacks_inv:
  "http_inv hc \<Longrightarrow> http_inv (fold (\<lambda>r hc. snd (enroll_callback r hc)) rs hc) \<and>
     hc_body (fold (\<lambda>r hc. snd (enroll_callback r hc)) rs hc) = hc_body hc"
  using enroll_callback_inv by (induction rs arbitrary: hc) auto

lemma enroll_loop_inv:
  "enroll_loop dl ts hc = Some hc' \<Longrightarrow> http_inv hc \<Longrightarrow> http_inv hc' \<and> hc_body hc' = hc_body hc"
proof (induction ts arbitrary: hc)
  case (Cons t ts)
  let ?hc = "fold (\<lambda>r hc. snd (enroll_callback r hc)) (et_calls t) hc"
  have inv: "http_inv ?hc" "hc_body ?hc = hc_body hc" using enroll_callbacks_inv [OF Cons.prems(2)] by blast+
  show ?case
  proof (cases "hc_done hc \<or> \<not> et_service_ok t \<or> dl < et_now t")
    case True
    with Cons.prems inv show ?thesis by (auto simp: Let_def http_inv_def split: if_splits)
  next
    case False
    with Cons.prems(1) have "enroll_loop dl ts ?hc = Some hc'" by (simp add: Let_def)
    from Cons.IH [OF this inv(1)] inv(2) show ?thesis by simp
  qed
qed (auto split: if_splits)

text \<open>the request goes out in pieces that, put together, are a beginning of it, nothing missing or
  repeated; the piece marked final completes it; and the answer never overruns its buffer. The
  exchange ends: once the clock has passed 15 seconds after its start at some turn of the service
  loop, or the service failed, the call returns.\<close>

theorem enroll_exchange_sound:
  "(\<forall>hc. enroll_loop dl ts (new_http body) = Some hc \<longrightarrow>
       concat (map fst (hc_writes hc)) = take (body_sent hc) body \<and> length (resp_buf hc) < 65536 \<and>
       ((\<exists>piece. (piece, True) \<in> set (hc_writes hc)) \<longrightarrow> concat (map fst (hc_writes hc)) = body)) \<and>
   ((\<exists>t \<in> set ts. \<not> et_service_ok t \<or> dl < et_now t) \<longrightarrow> (\<exists>hc. enroll_loop dl ts (new_http body) = Some hc))"
proof (intro conjI impI allI)
  fix hc assume "enroll_loop dl ts (new_http body) = Some hc"
  then have "http_inv hc \<and> hc_body hc = body"
    using enroll_loop_inv [of dl ts "new_http body" hc] by (auto simp: http_inv_def new_http_def leo_sizes)
  then show "concat (map fst (hc_writes hc)) = take (body_sent hc) body" "length (resp_buf hc) < 65536"
    "\<exists>piece. (piece, True) \<in> set (hc_writes hc) \<Longrightarrow> concat (map fst (hc_writes hc)) = body"
    by (auto simp: http_inv_def leo_sizes)
next
  have "\<exists>t \<in> set ts. \<not> et_service_ok t \<or> dl < et_now t \<Longrightarrow> \<exists>hc'. enroll_loop dl ts hc = Some hc'" for hc
    by (induction ts arbitrary: hc) (auto simp: Let_def)
  then show "\<exists>t \<in> set ts. \<not> et_service_ok t \<or> dl < et_now t \<Longrightarrow> \<exists>hc. enroll_loop dl ts (new_http body) = Some hc" .
qed

section \<open>Concrete runs\<close>

text \<open>A server that answers with the given fingerprint.\<close>

definition demo_response :: "cstring \<Rightarrow> json" where
  "demo_response fp =
     JObject [(''data'', JObject [(''agent_id'', JString ''a1''), (''tenant_id'', JString ''t1''),
        (''ws_endpoint'', JString ''wss://h/ws''), (''server_cert_fingerprint'', JString fp),
        (''client_cert_pem'', JString ''C''), (''client_key_pem'', JString ''K'')])]"

definition demo_enroll :: "cstring \<Rightarrow> enroll_env" where
  "demo_enroll fp =
     \<lparr>ee_machine = \<lparr>mc_hostname = Some ''host'', mc_release = Some ''6.1'', mc_target = T_x86_64\<rparr>,
      ee_print = (\<lambda>_. Some ''{}''), ee_parse = (\<lambda>_. Some (demo_response fp)),
      ee_net = \<lparr>en_context_ok = True, en_connect_ok = True, en_now = 0,
                en_turns = [\<lparr>et_calls = [EN_Writeable True, EN_Established 201, EN_Read ''{}'', EN_Completed],
                             et_service_ok = True, et_now = 1\<rparr>]\<rparr>,
      ee_disk = good_disk, ee_can_remove = (\<lambda>_. True)\<rparr>"

definition demo_boot :: "fs" where
  "demo_boot = [''b'' \<mapsto> ''enrollment_token=T'' @ [NL] @ ''api_endpoint=http://s'' @ [NL], ''/etc/machine-id'' \<mapsto> ''m1'']"

definition demo_enrolled :: "cstring \<Rightarrow> leo_config" where
  "demo_enrolled fp = default_config\<lparr>hostname := ''host'', os_version := ''6.1'', arch := ''amd64'', os_name := ''linux'',
     hardware_id := ''m1'', agent_id := ''a1'', tenant_id := ''t1'', ws_endpoint := ''wss://h/ws'', ca_fingerprint := fp\<rparr>"

lemma demo_bootstrap: "load_bootstrap demo_boot ''b'' = Some \<lparr>enrollment_token = ''T'', api_endpoint = ''http://s''\<rparr>"
  by code_simp

lemma demo_hardware: "detect_hardware_id demo_boot 37 = Some ''m1''"
  by code_simp

lemma demo_machine: "(machine_config demo_boot (ee_machine (demo_enroll fp)))\<lparr>hardware_id := ''m1''\<rparr> =
  (demo_enrolled fp)\<lparr>agent_id := [], tenant_id := [], ws_endpoint := [], ca_fingerprint := []\<rparr>"
  by (simp add: machine_config_def demo_enrolled_def demo_enroll_def detect_hostname_def detect_os_version_def detect_arch_def
      strncpy_buf_def demo_boot_def default_config_def zero_config_def)

lemma demo_url: "leo_http_parse_url ''http://s'' 256 None \<noteq> None"
  by code_simp

lemma demo_exchange: "http_post_json (ee_net (demo_enroll fp)) ''{}'' LEO_MAX_MSG_SIZE = Some (Inr (''{}'', 201))"
  by (simp add: demo_enroll_def http_post_json_def new_http_def enroll_callback_def Let_def ENROLL_HTTP_TIMEOUT_SEC_def
      leo_sizes c_str_def NUL_def)

lemma demo_answer:
  assumes "fp \<noteq> []" "length fp < 65"
  shows "parse_enroll_response (ee_parse (demo_enroll fp)) s 201
           ((demo_enrolled fp)\<lparr>agent_id := [], tenant_id := [], ws_endpoint := [], ca_fingerprint := []\<rparr>) =
         Inr (demo_enrolled fp, ''C'', ''K'')"
  using assms
  by (simp add: parse_enroll_response_def demo_enroll_def demo_response_def copy_response_field_def strncpy_buf_def
      LEO_CERT_BUF_SIZE_def LEO_KEY_BUF_SIZE_def demo_enrolled_def)

definition demo_files :: "cstring \<Rightarrow> fs" where
  "demo_files fp = (demo_boot(LEO_CLIENT_CERT_FILE \<mapsto> ''C'', LEO_CLIENT_KEY_FILE \<mapsto> ''K'', ''c'' \<mapsto> config_text (demo_enrolled fp)))
     (''b'' := None)"

lemma demo_save: "leo_crypto_save_cert_key good_disk files (Some ''C'') (Some ''K'') =
    (LEO_OK, files(LEO_CLIENT_CERT_FILE \<mapsto> ''C'', LEO_CLIENT_KEY_FILE \<mapsto> ''K''))"
proof -
  have "write_file good_disk f p s = (True, f(p \<mapsto> s))" for f p s by (simp add: write_file_def good_disk_def Let_def)
  then show ?thesis by (simp add: leo_crypto_save_cert_key_def)
qed

lemma demo_enroll_run:
  assumes "fp \<noteq> []" "length fp < 65"
  shows "leo_enroll (demo_enroll fp) demo_boot ''b'' ''c'' = Some (Inr (demo_enrolled fp, demo_files fp))"
proof -
  have env: "ee_print (demo_enroll fp) = (\<lambda>_. Some ''{}'')" "ee_disk (demo_enroll fp) = good_disk"
    "ee_can_remove (demo_enroll fp) = (\<lambda>_. True)" "can_open_w good_disk = (\<lambda>_. True)"
    by (simp_all add: demo_enroll_def good_disk_def)
  have req: "build_enroll_request (\<lambda>_. Some ''{}'') 2048 t c = Some ''{}''" for t c
    by (simp add: build_enroll_request_def)
  show ?thesis
    unfolding leo_enroll_def enroll_on_def demo_bootstrap demo_hardware
    by (simp add: Let_def demo_machine env req demo_url demo_exchange demo_answer [OF assms] demo_save leo_config_save_def
        demo_files_def)
qed

lemma demo_enrolled_safe:
  assumes "ini_safe fp" "length fp < 65"
  shows "config_ini_safe (demo_enrolled fp)" "config_fits (demo_enrolled fp)"
proof -
  show "config_ini_safe (demo_enrolled fp)"
    using assms ini_safe_show_int
    by (simp add: config_ini_safe_def config_pairs_def demo_enrolled_def default_config_def)
       (simp add: ini_safe_def trim_def trim_end_def isspace_def byte_of_def NL_def NUL_def)
  show "config_fits (demo_enrolled fp)"
    using assms by (simp add: config_fits_def demo_enrolled_def default_config_def leo_intervals int32_range_def)
qed

text \<open>A server that sends a fingerprint of the wrong length leaves the agent unable to start again:
  enrollment reports success and removes the bootstrap file, but the configuration it wrote is
  refused when it is loaded.\<close>

theorem enroll_may_save_unloadable:
  "\<exists>env files bp cp cfg files'. leo_enroll env files bp cp = Some (Inr (cfg, files')) \<and> files' bp = None \<and>
     (\<forall>out. fst (leo_config_load files' (Some cp) out) = LEO_ERR_CONFIG)"
proof -
  have safe: "ini_safe ''AB''" by (simp add: ini_safe_def trim_no_space isspace_def byte_of_def NL_def NUL_def)
  have "ini_load config_set INI_LINE_MAX (config_text (demo_enrolled ''AB'')) default_config = demo_enrolled ''AB''"
    by (rule config_text_loads) (simp_all add: demo_enrolled_safe safe)
  moreover have "\<not> leo_config_is_valid (demo_enrolled ''AB'')" by (simp add: leo_config_is_valid_def demo_enrolled_def)
  moreover have "demo_files ''AB'' ''c'' = Some (config_text (demo_enrolled ''AB''))" "demo_files ''AB'' ''b'' = None"
    by (simp_all add: demo_files_def)
  ultimately have "fst (leo_config_load (demo_files ''AB'') (Some ''c'') out) = LEO_ERR_CONFIG" for out
    by (simp add: leo_config_load_def)
  moreover have "leo_enroll (demo_enroll ''AB'') demo_boot ''b'' ''c'' = Some (Inr (demo_enrolled ''AB'', demo_files ''AB''))"
    by (rule demo_enroll_run) simp_all
  ultimately show ?thesis using \<open>demo_files ''AB'' ''b'' = None\<close> by blast
qed

abbreviation demo_fp :: cstring where "demo_fp \<equiv> replicate 64 (CHR ''a'')"



theorem enroll_exchange_sound_witness:
  "\<exists>hc. enroll_loop 15 [\<lparr>et_calls = [EN_Writeable True, EN_Established 200], et_service_ok = True, et_now = 16\<rparr>] (new_http ''ab'') = Some hc \<and>
     concat (map fst (hc_writes hc)) = ''ab''"
proof -
  let ?ts = "[\<lparr>et_calls = [EN_Writeable True, EN_Established 200], et_service_ok = True, et_now = 16\<rparr>]"
  obtain hc where hc: "enroll_loop 15 ?ts (new_http ''ab'') = Some hc"
    using enroll_exchange_sound [of 15 ?ts "''ab''"] by auto
  then have "(''ab'', True) \<in> set (hc_writes hc)"
    by (auto simp: new_http_def enroll_callback_def Let_def ENROLL_WRITE_CHUNK_def)
  with enroll_exchange_sound [of 15 ?ts "''ab''"] hc show ?thesis by blast
qed

end
