(* ===== verification/Agent.thy ===== *)
theory Agent
  imports Dispatch Enroll
begin

text \<open>
  The rest of \<^verbatim>\<open>agent/src/agent.c\<close>: the three periodic threads, the start and the stop of the agent, and
  how the slots of running commands behave when messages, command threads and the stop interleave
  (\<open>ag_step\<close>). The locale \<open>periodic_sender\<close> is what the three threads have in common.
\<close>

section \<open>Sleeping\<close>

text \<open>\<open>_interruptible_sleep\<close>: how often it waits, given the values of \<^verbatim>\<open>threads_stop\<close> and
  \<^verbatim>\<open>force_heartbeat_pending\<close> at each test of its loop; the list ends with the timeout.\<close>

fun interruptible_sleep :: "bool \<Rightarrow> (bool \<times> bool) list \<Rightarrow> nat" where
  "interruptible_sleep wake_on_force [] = 0"
| "interruptible_sleep wake_on_force ((stop, force) # obs) =
     (if stop \<or> (wake_on_force \<and> force) then 0 else Suc (interruptible_sleep wake_on_force obs))"

section \<open>The periodic threads\<close>

text \<open>One turn of a periodic thread: the agent as it is read at the head of the loop and after the
  sleep, and what the surroundings provide.\<close>

record 'e periodic_turn =
  pt_head :: leo_agent
  pt_woken :: leo_agent
  pt_env :: 'e

text \<open>The loop the three threads share, around the body of each: the agent after each turn and the
  answer of \<^verbatim>\<open>leo_conn_send\<close>, if it was called. \<open>None\<close> when the turns run out before \<^verbatim>\<open>threads_stop\<close>.\<close>

fun periodic ::
  "('e \<Rightarrow> 's \<Rightarrow> leo_agent \<Rightarrow> 's \<times> leo_agent \<times> leo_error option) \<Rightarrow> 'e periodic_turn list \<Rightarrow> 's \<Rightarrow>
   (leo_agent \<times> leo_error option) list option" where
  "periodic body [] s = None"
| "periodic body (t # ts) s =
     (if threads_stop (pt_head t) then Some []
      else if threads_stop (pt_woken t) then Some []
      else let (s, ag, rc) = body (pt_env t) s (pt_woken t) in
           map_option (\<lambda>outs. (ag, rc) # outs) (periodic body ts s))"

definition heartbeat_turn :: "proto_env \<Rightarrow> u64 \<Rightarrow> leo_agent \<Rightarrow> u64 \<times> leo_agent \<times> leo_error option" where
  "heartbeat_turn env seq ag =
     (let ag = ag\<lparr>force_heartbeat_pending := False\<rparr> in
      if \<not> leo_conn_is_connected (ag_conn ag) then (seq, ag, None)
      else let (rc, ag) = send_built (leo_proto_build_heartbeat env seq 512) ag in (seq + 1, ag, rc))"

definition heartbeat_thread :: "proto_env periodic_turn list \<Rightarrow> (leo_agent \<times> leo_error option) list option" where
  "heartbeat_thread ts = periodic heartbeat_turn ts 0"

text \<open>The snapshot is \<open>None\<close> when \<^verbatim>\<open>leo_metrics_collect\<close> fails.\<close>

definition metrics_turn :: "proto_env \<times> leo_metrics option \<Rightarrow> unit \<Rightarrow> leo_agent \<Rightarrow> unit \<times> leo_agent \<times> leo_error option" where
  "metrics_turn env u ag =
     (if \<not> leo_conn_is_connected (ag_conn ag) then ((), ag, None)
      else (case snd env of
              None \<Rightarrow> ((), ag, None)
            | Some m \<Rightarrow> let (rc, ag) = send_built (leo_proto_build_metrics (fst env) m LEO_MAX_MSG_SIZE) ag in ((), ag, rc)))"

definition metrics_thread :: "(proto_env \<times> leo_metrics option) periodic_turn list \<Rightarrow> (leo_agent \<times> leo_error option) list option" where
  "metrics_thread ts = periodic metrics_turn ts ()"

record patch_env =
  pe_proto :: proto_env
  pe_executable :: "cstring \<Rightarrow> bool"
  pe_apt :: "string option"
  pe_dnf :: "string option"

definition patch_turn :: "patch_env \<Rightarrow> unit \<Rightarrow> leo_agent \<Rightarrow> unit \<times> leo_agent \<times> leo_error option" where
  "patch_turn env u ag =
     (if \<not> leo_conn_is_connected (ag_conn ag) then ((), ag, None)
      else (case leo_patches_collect (pe_executable env) (pe_apt env) (pe_dnf env) (int LEO_INVENTORY_MAX_PATCHES) of
              None \<Rightarrow> ((), ag, None)
            | Some ps \<Rightarrow>
                let (rc, ag) = send_built (leo_proto_build_patch_inventory (pe_proto env) (Some ps) (int (length ps)) LEO_MAX_MSG_SIZE) ag
                in ((), ag, rc)))"

definition patch_thread :: "bool \<Rightarrow> patch_env periodic_turn list \<Rightarrow> (leo_agent \<times> leo_error option) list option" where
  "patch_thread calloc_ok ts = (if \<not> calloc_ok then Some [] else periodic patch_turn ts ())"

section \<open>Start\<close>

datatype agent_thread = Heartbeat_Thread | Metrics_Thread | Patch_Thread

datatype life_effect =
    Metrics_Init | Metrics_Destroy | Conn_Create | Conn_Destroy bool | Start_Thread agent_thread
  | Stop_Threads             \<comment> \<open>\<^verbatim>\<open>threads_stop = true\<close> and the broadcast\<close>
  | Join_Thread agent_thread | Rd_Stop_All bool | Sync_Destroy | Free_Agent

record start_env =
  se_calloc_ok :: bool
  se_enroll :: enroll_env
  se_metrics_ok :: bool
  se_conn_calloc :: bool
  se_conn_thread :: bool
  se_thread_ok :: "agent_thread \<Rightarrow> bool"
  se_conn_exits :: bool      \<comment> \<open>what \<^verbatim>\<open>leo_conn_destroy\<close> returns\<close>

definition new_agent :: leo_agent where
  "new_agent = \<lparr>ag_config = zero_config, ag_conn = None, ag_state = LEO_STATE_INIT, threads_stop = False,
                force_heartbeat_pending = False, exec_active_count = 0\<rparr>"

text \<open>The configuration, loaded or from enrollment; \<open>Inl\<close> when neither gives one.\<close>

definition agent_config :: "start_env \<Rightarrow> fs \<Rightarrow> cstring \<Rightarrow> (fs + (leo_config \<times> fs)) option" where
  "agent_config env files config_path =
     (case leo_config_load files (Some config_path) zero_config of
        (rc, cfg) \<Rightarrow>
          if rc = LEO_OK then Some (Inr (cfg, files))
          else map_option (\<lambda>out. case out of Inl (rc, files') \<Rightarrow> Inl files' | Inr r \<Rightarrow> Inr r)
                 (leo_enroll (se_enroll env) files LEO_BOOTSTRAP_FILE config_path))"

text \<open>The end of a start that failed once the connection exists.\<close>

definition start_undo :: "start_env \<Rightarrow> agent_thread list \<Rightarrow> life_effect list" where
  "start_undo env started =
     (if started = [] then [] else Stop_Threads # map Join_Thread started) @
     [Metrics_Destroy, Sync_Destroy, Conn_Destroy (se_conn_exits env)] @ (if se_conn_exits env then [Free_Agent] else [])"

fun start_threads :: "start_env \<Rightarrow> agent_thread list \<Rightarrow> agent_thread list \<Rightarrow> bool \<times> life_effect list" where
  "start_threads env started [] = (True, [])"
| "start_threads env started (t # ts) =
     (if \<not> se_thread_ok env t then (False, start_undo env started)
      else let (ok, eff) = start_threads env (started @ [t]) ts in (ok, Start_Thread t # eff))"

definition leo_agent_start ::
  "start_env \<Rightarrow> fs \<Rightarrow> cstring \<Rightarrow> (leo_agent option \<times> fs \<times> life_effect list) option" where
  "leo_agent_start env files config_path =
     (if \<not> se_calloc_ok env then Some (None, files, [])
      else
        (case agent_config env files config_path of
           None \<Rightarrow> None
         | Some (Inl files) \<Rightarrow> Some (None, files, [Sync_Destroy, Free_Agent])
         | Some (Inr (cfg, files)) \<Rightarrow>
             if \<not> se_metrics_ok env then Some (None, files, [Sync_Destroy, Free_Agent])
             else
               (case leo_conn_create (Some cfg) (se_conn_calloc env) (se_conn_thread env) of
                  None \<Rightarrow> Some (None, files, [Metrics_Init, Metrics_Destroy, Sync_Destroy, Free_Agent])
                | Some conn \<Rightarrow>
                    let (ok, eff) = start_threads env [] [Heartbeat_Thread, Metrics_Thread, Patch_Thread] in
                    Some (if ok then Some (new_agent\<lparr>ag_config := cfg, ag_conn := Some conn, ag_state := LEO_STATE_CONNECTING\<rparr>)
                          else None,
                          files, Metrics_Init # Conn_Create # eff))))"

section \<open>Stop\<close>

text \<open>What the stop meets: the values of \<^verbatim>\<open>exec_active_count\<close> read before the deadline (the first under
  the lock, the list ends with the timeout), whether the remote desktop thread ended, whether the
  connection's did.\<close>

record stop_env =
  st_counts :: "int list"
  st_rd_exits :: bool
  st_conn_exits :: bool

definition leo_agent_stop :: "stop_env \<Rightarrow> leo_agent option \<Rightarrow> leo_agent option \<times> life_effect list" where
  "leo_agent_stop env ag =
     (case ag of
        None \<Rightarrow> (None, [])
      | Some a \<Rightarrow>
          let a = a\<lparr>ag_state := LEO_STATE_STOPPING, threads_stop := True\<rparr>;
              joins = [Stop_Threads, Join_Thread Heartbeat_Thread, Join_Thread Metrics_Thread, Join_Thread Patch_Thread]
          in if \<not> list_ex (\<lambda>n. n \<le> 0) (st_counts env) then (Some a, joins)
             else if \<not> st_rd_exits env then (Some a, joins @ [Rd_Stop_All False])
             else if \<not> st_conn_exits env then (Some a, joins @ [Rd_Stop_All True, Conn_Destroy False])
             else (None, joins @ [Rd_Stop_All True, Conn_Destroy True, Metrics_Destroy, Sync_Destroy, Free_Agent]))"

definition leo_agent_get_state :: "leo_agent option \<Rightarrow> leo_agent_state" where
  "leo_agent_get_state ag = (case ag of Some a \<Rightarrow> ag_state a | None \<Rightarrow> LEO_STATE_INIT)"

section \<open>Slots, commands and the stop, interleaved\<close>

text \<open>The connection's thread dispatches messages one after the other: between taking a slot and
  starting the thread (or giving the slot back) it is in \<open>D_reserved\<close>. Command threads run and give
  their slot back. The stop goes through its phases; it may be abandoned in three places.\<close>

datatype disp_pc = D_idle | D_reserved
datatype stop_pc = S_running | S_joined | S_counted | S_rd_stopped | S_conn_gone | S_freed | S_abandoned

record ag_sys =
  as_count :: int            \<comment> \<open>\<^verbatim>\<open>exec_active_count\<close>\<close>
  as_live :: nat             \<comment> \<open>command threads that have not released their slot\<close>
  as_disp :: disp_pc
  as_wss :: bool             \<comment> \<open>the connection's thread runs\<close>
  as_stop :: stop_pc

definition ag_init :: "ag_sys \<Rightarrow> bool" where
  "ag_init s \<longleftrightarrow> s = \<lparr>as_count = 0, as_live = 0, as_disp = D_idle, as_wss = True, as_stop = S_running\<rparr>"

inductive ag_step :: "ag_sys \<Rightarrow> ag_sys \<Rightarrow> bool" where
  reserve: "as_wss s \<Longrightarrow> as_disp s = D_idle \<Longrightarrow> as_count s < LEO_EXEC_MAX_CONCURRENT \<Longrightarrow>
    ag_step s (s\<lparr>as_count := as_count s + 1, as_disp := D_reserved\<rparr>)"
| spawned: "as_disp s = D_reserved \<Longrightarrow> ag_step s (s\<lparr>as_live := Suc (as_live s), as_disp := D_idle\<rparr>)"
| given_back: "as_disp s = D_reserved \<Longrightarrow> ag_step s (s\<lparr>as_count := as_count s - 1, as_disp := D_idle\<rparr>)"
| finished: "0 < as_live s \<Longrightarrow> ag_step s (s\<lparr>as_live := as_live s - 1, as_count := as_count s - 1\<rparr>)"
| joined: "as_stop s = S_running \<Longrightarrow> ag_step s (s\<lparr>as_stop := S_joined\<rparr>)"
| counted: "as_stop s = S_joined \<Longrightarrow> as_count s \<le> 0 \<Longrightarrow> ag_step s (s\<lparr>as_stop := S_counted\<rparr>)"
| count_timeout: "as_stop s = S_joined \<Longrightarrow> 0 < as_count s \<Longrightarrow> ag_step s (s\<lparr>as_stop := S_abandoned\<rparr>)"
| rd_stopped: "as_stop s = S_counted \<Longrightarrow> ag_step s (s\<lparr>as_stop := S_rd_stopped\<rparr>)"
| rd_timeout: "as_stop s = S_counted \<Longrightarrow> ag_step s (s\<lparr>as_stop := S_abandoned\<rparr>)"
| wss_exits: "as_wss s \<Longrightarrow> as_disp s = D_idle \<Longrightarrow> as_stop s = S_rd_stopped \<Longrightarrow> ag_step s (s\<lparr>as_wss := False\<rparr>)"
| conn_gone: "as_stop s = S_rd_stopped \<Longrightarrow> \<not> as_wss s \<Longrightarrow> ag_step s (s\<lparr>as_stop := S_conn_gone\<rparr>)"
| conn_timeout: "as_stop s = S_rd_stopped \<Longrightarrow> as_wss s \<Longrightarrow> ag_step s (s\<lparr>as_stop := S_abandoned\<rparr>)"
| freed: "as_stop s = S_conn_gone \<Longrightarrow> ag_step s (s\<lparr>as_stop := S_freed\<rparr>)"

inductive_cases ag_stepE: "ag_step s s'"

definition reserved :: "ag_sys \<Rightarrow> int" where
  "reserved s = (case as_disp s of D_reserved \<Rightarrow> 1 | D_idle \<Rightarrow> 0)"

definition ag_inv :: "ag_sys \<Rightarrow> bool" where
  "ag_inv s \<longleftrightarrow>
     as_count s = int (as_live s) + reserved s \<and> as_count s \<le> LEO_EXEC_MAX_CONCURRENT \<and>
     (as_disp s = D_reserved \<longrightarrow> as_wss s) \<and> (as_stop s \<in> {S_conn_gone, S_freed} \<longrightarrow> \<not> as_wss s)"

lemma ag_inv_step: "ag_step s s' \<Longrightarrow> ag_inv s \<Longrightarrow> ag_inv s'"
  by (induction rule: ag_step.induct) (auto simp: ag_inv_def reserved_def agent_limits of_nat_diff split: disp_pc.splits)

interpretation agsys: invariant_system ag_init ag_step ag_inv
proof unfold_locales
  fix s assume "ag_init s"
  then show "ag_inv s" by (simp add: ag_init_def ag_inv_def reserved_def agent_limits)
qed (rule ag_inv_step)

text \<open>C4: in every interleaving of messages, commands and the stop, the counter is exactly the number
  of command threads plus the slot a dispatcher holds, never negative and never above four; and the
  agent is freed only after the connection's thread has ended, between two messages.\<close>

theorem exec_slots_exact:
  assumes "reach ag_init ag_step s"
  shows "as_count s = int (as_live s) + reserved s \<and> 0 \<le> as_count s \<and> as_count s \<le> 4 \<and> as_live s \<le> 4 \<and>
         (as_stop s = S_freed \<longrightarrow> \<not> as_wss s \<and> as_disp s = D_idle)"
  using agsys.always [OF assms] by (auto simp: ag_inv_def reserved_def agent_limits split: disp_pc.splits)

text \<open>The count that the stop waits for is read before the connection's thread is stopped: a command
  that arrives in between gets a thread, and the agent is freed under it.\<close>

theorem stop_frees_running_command:
  "\<exists>s. reach ag_init ag_step s \<and> as_stop s = S_freed \<and> 0 < as_live s"
proof -
  let ?s = "\<lambda>n live d w st. \<lparr>as_count = n, as_live = live, as_disp = d, as_wss = w, as_stop = st\<rparr>"
  have "reach ag_init ag_step (?s 0 0 D_idle True S_running)" by (rule reach.start) (simp add: ag_init_def)
  moreover have "ag_step (?s 0 0 D_idle True S_running) (?s 0 0 D_idle True S_joined)"
    using ag_step.joined [of "?s 0 0 D_idle True S_running"] by simp
  moreover have "ag_step (?s 0 0 D_idle True S_joined) (?s 0 0 D_idle True S_counted)"
    using ag_step.counted [of "?s 0 0 D_idle True S_joined"] by simp
  moreover have "ag_step (?s 0 0 D_idle True S_counted) (?s 1 0 D_reserved True S_counted)"
    using ag_step.reserve [of "?s 0 0 D_idle True S_counted"] by (simp add: agent_limits)
  moreover have "ag_step (?s 1 0 D_reserved True S_counted) (?s 1 1 D_idle True S_counted)"
    using ag_step.spawned [of "?s 1 0 D_reserved True S_counted"] by simp
  moreover have "ag_step (?s 1 1 D_idle True S_counted) (?s 1 1 D_idle True S_rd_stopped)"
    using ag_step.rd_stopped [of "?s 1 1 D_idle True S_counted"] by simp
  moreover have "ag_step (?s 1 1 D_idle True S_rd_stopped) (?s 1 1 D_idle False S_rd_stopped)"
    using ag_step.wss_exits [of "?s 1 1 D_idle True S_rd_stopped"] by simp
  moreover have "ag_step (?s 1 1 D_idle False S_rd_stopped) (?s 1 1 D_idle False S_conn_gone)"
    using ag_step.conn_gone [of "?s 1 1 D_idle False S_rd_stopped"] by simp
  moreover have "ag_step (?s 1 1 D_idle False S_conn_gone) (?s 1 1 D_idle False S_freed)"
    using ag_step.freed [of "?s 1 1 D_idle False S_conn_gone"] by simp
  ultimately have "reach ag_init ag_step (?s 1 1 D_idle False S_freed)" by (meson reach.move)
  then show ?thesis by (intro exI [of _ "?s 1 1 D_idle False S_freed"]) simp
qed

section \<open>The dispatcher refines the slots\<close>

definition is_thread :: "agent_effect \<Rightarrow> bool" where
  "is_thread e \<longleftrightarrow> (case e of Ag_Exec _ \<Rightarrow> True | Ag_Inventory _ \<Rightarrow> True | _ \<Rightarrow> False)"

definition threads_of :: "agent_effect list \<Rightarrow> nat" where
  "threads_of effs = length (filter is_thread effs)"

lemma request_slots:
  assumes "request_done i ag (ag', effs)"
  shows "exec_active_count ag' = exec_active_count ag + int (threads_of effs) \<and> threads_of effs \<le> 1 \<and>
         (threads_of effs = 1 \<longrightarrow> exec_active_count ag < LEO_EXEC_MAX_CONCURRENT)"
  using assms
  by (auto simp: request_done_def threads_of_def is_thread_def thread_wf_def split: if_splits agent_effect.splits)

lemma other_messages_no_slot:
  assumes "handle_msg env msg (ag, g) = Some ((ag', g'), effs)" "\<forall>t. msg_of_code (msg_type msg) = Some t \<longrightarrow> \<not> is_command t"
  shows "exec_active_count ag' = exec_active_count ag \<and> threads_of effs = 0"
proof -
  have rd: "fst st' = fst st \<and> threads_of effs' = 0" if "dispatch_remote_desktop_start env body st = Some (st', effs')" for body st st' effs'
    using that by (auto simp: dispatch_remote_desktop_start_def threads_of_def is_thread_def Let_def split: option.splits if_splits prod.splits)
  have iv: "exec_active_count a' = exec_active_count ag" if "hello_ack body ag = Some a' \<or> config_update body ag = Some a'" for body a'
    using that by (auto simp: hello_ack_def config_update_def Let_def split: option.splits)
  show ?thesis
  proof (cases "msg_of_code (msg_type msg)")
    case None
    with assms show ?thesis by (simp add: handle_msg_def threads_of_def)
  next
    case (Some t)
    then show ?thesis
      using assms iv rd [of "msg_body msg" "(ag, g)" "(ag', g')" effs]
      by (cases t) (auto simp: handle_msg_def is_command_def agent_only_def threads_of_def is_thread_def
          dispatch_remote_desktop_stop_def Let_def split: prod.splits)
  qed
qed

lemma message_slots:
  assumes "handle_msg env msg (ag, g) = Some ((ag', g'), effs)"
  shows "exec_active_count ag' = exec_active_count ag + int (threads_of effs) \<and> threads_of effs \<le> 1 \<and>
         (threads_of effs = 1 \<longrightarrow> exec_active_count ag < LEO_EXEC_MAX_CONCURRENT)"
proof (cases "\<exists>t. msg_of_code (msg_type msg) = Some t \<and> is_command t")
  case True
  with assms have "request_done (msg_id msg) ag (ag', effs)"
    by (auto simp: handle_msg_def is_command_def agent_only_def dest: command_done)
  then show ?thesis by (rule request_slots)
next
  case False
  with other_messages_no_slot [OF assms] show ?thesis by auto
qed

text \<open>C7: the handler implements the abstract slots: from an agent that an abstract state describes,
  handling any message is a sequence of abstract steps to a state that describes the agent
  afterwards, with one more command running exactly when the handler started a thread; and a
  command thread that ends, on either system, is the abstract step that gives a slot back.\<close>

theorem handler_refines_slots:
  assumes "as_count s = exec_active_count ag" "as_wss s" "as_disp s = D_idle"
  shows "(\<forall>ag' g' effs. handle_msg env msg (ag, g) = Some ((ag', g'), effs) \<longrightarrow>
            (\<exists>s'. ag_step\<^sup>*\<^sup>* s s' \<and> as_count s' = exec_active_count ag' \<and> as_disp s' = D_idle \<and>
                  as_live s' = as_live s + threads_of effs)) \<and>
         (\<forall>o1 ag'. 0 < as_live s \<and> exec_thread_on pf cenv ctx ag = Some (o1, ag') \<longrightarrow>
            (\<exists>s'. ag_step s s' \<and> as_count s' = exec_active_count ag' \<and> as_live s' = as_live s - 1))"
proof (intro conjI allI impI)
  fix ag' g' effs assume "handle_msg env msg (ag, g) = Some ((ag', g'), effs)"
  note m = message_slots [OF this]
  show "\<exists>s'. ag_step\<^sup>*\<^sup>* s s' \<and> as_count s' = exec_active_count ag' \<and> as_disp s' = D_idle \<and> as_live s' = as_live s + threads_of effs"
  proof (cases "threads_of effs = 1")
    case True
    let ?s1 = "s\<lparr>as_count := as_count s + 1, as_disp := D_reserved\<rparr>"
    let ?s2 = "?s1\<lparr>as_live := Suc (as_live ?s1), as_disp := D_idle\<rparr>"
    have "ag_step s ?s1" using assms m True by (intro ag_step.reserve) simp_all
    moreover have "ag_step ?s1 ?s2" by (rule ag_step.spawned) simp
    ultimately have "ag_step\<^sup>*\<^sup>* s ?s2" by (meson r_into_rtranclp rtranclp_trans)
    with True m assms show ?thesis by (intro exI [of _ ?s2]) simp
  next
    case False
    with m have "threads_of effs = 0" by simp
    with m assms show ?thesis by (intro exI [of _ s]) simp
  qed
next
  fix o1 ag' assume *: "0 < as_live s \<and> exec_thread_on pf cenv ctx ag = Some (o1, ag')"
  then have "exec_active_count ag' = exec_active_count ag - 1" by (auto simp: exec_thread_on_def)
  with * assms(1) show "\<exists>s'. ag_step s s' \<and> as_count s' = exec_active_count ag' \<and> as_live s' = as_live s - 1"
    using ag_step.finished [of s] by (intro exI [of _ "s\<lparr>as_live := as_live s - 1, as_count := as_count s - 1\<rparr>"]) simp
qed

section \<open>The periodic threads\<close>

text \<open>What the body of a periodic thread promises: it sends nothing while disconnected, and leaves
  everything but the connection and the pending heartbeat alone.\<close>

locale periodic_sender =
  fixes body :: "'e \<Rightarrow> 's \<Rightarrow> leo_agent \<Rightarrow> 's \<times> leo_agent \<times> leo_error option"
  assumes quiet_law: "body e s ag = (s', ag', rc) \<Longrightarrow> \<not> leo_conn_is_connected (ag_conn ag) \<Longrightarrow> rc = None \<and> ag_conn ag' = ag_conn ag"
    and keeps_law: "body e s ag = (s', ag', rc) \<Longrightarrow>
      ag_config ag' = ag_config ag \<and> ag_state ag' = ag_state ag \<and> threads_stop ag' = threads_stop ag \<and>
      exec_active_count ag' = exec_active_count ag"
begin

text \<open>A stop request ends the thread, at the turn that reads it; before that, one turn is one output.\<close>

lemma ends:
  assumes "t \<in> set ts" "threads_stop (pt_head t) \<or> threads_stop (pt_woken t)"
  shows "\<exists>outs. periodic body ts s = Some outs \<and> length outs < length ts"
  using assms(1)
proof (induction ts arbitrary: s)
  case (Cons u ts)
  show ?case
  proof (cases "threads_stop (pt_head u) \<or> threads_stop (pt_woken u)")
    case False
    with Cons.prems assms(2) have "t \<in> set ts" by auto
    obtain s1 ag rc where b: "body (pt_env u) s (pt_woken u) = (s1, ag, rc)" by (metis prod_cases3)
    from Cons.IH [OF \<open>t \<in> set ts\<close>, of s1] False b show ?thesis by auto
  qed auto
qed simp

lemma outputs:
  assumes "periodic body ts s = Some outs" "i < length outs"
  shows "ag_config (fst (outs ! i)) = ag_config (pt_woken (ts ! i)) \<and>
         (\<not> leo_conn_is_connected (ag_conn (pt_woken (ts ! i))) \<longrightarrow> snd (outs ! i) = None)"
  using assms
proof (induction ts arbitrary: s outs i)
  case (Cons u ts)
  obtain s1 ag rc where b: "body (pt_env u) s (pt_woken u) = (s1, ag, rc)" by (metis prod_cases3)
  from Cons.prems b obtain os where os: "periodic body ts s1 = Some os" "outs = (ag, rc) # os"
    by (auto split: if_splits)
  show ?case
  proof (cases i)
    case 0
    with os(2) quiet_law [OF b] keeps_law [OF b] show ?thesis by simp
  next
    case (Suc k)
    with Cons.IH [OF os(1), of k] os(2) Cons.prems(2) show ?thesis by simp
  qed
qed simp

end

lemma send_built_pair:
  "send_built m ag = (rc, ag') \<Longrightarrow>
     ag_config ag' = ag_config ag \<and> ag_state ag' = ag_state ag \<and> threads_stop ag' = threads_stop ag \<and>
     force_heartbeat_pending ag' = force_heartbeat_pending ag \<and> exec_active_count ag' = exec_active_count ag"
  by (metis send_built_keeps snd_conv)

interpretation heartbeats: periodic_sender heartbeat_turn
  by unfold_locales (auto simp: heartbeat_turn_def Let_def dest!: send_built_pair split: if_splits prod.splits)

interpretation metrics: periodic_sender metrics_turn
  by unfold_locales (auto simp: metrics_turn_def Let_def dest!: send_built_pair split: if_splits option.splits prod.splits)

interpretation patches: periodic_sender patch_turn
  by unfold_locales (auto simp: patch_turn_def Let_def dest!: send_built_pair split: if_splits option.splits prod.splits)

text \<open>C24: the three periodic threads end as soon as they read the stop request, at the head of the loop
  or after a sleep, and send nothing while the agent is disconnected.\<close>

theorem periodic_threads_end:
  "(\<forall>ts. (\<exists>t \<in> set ts. threads_stop (pt_head t) \<or> threads_stop (pt_woken t)) \<longrightarrow>
       (\<exists>outs. heartbeat_thread ts = Some outs \<and> length outs < length ts \<and>
          (\<forall>i < length outs. \<not> leo_conn_is_connected (ag_conn (pt_woken (ts ! i))) \<longrightarrow> snd (outs ! i) = None))) \<and>
   (\<forall>ts. (\<exists>t \<in> set ts. threads_stop (pt_head t) \<or> threads_stop (pt_woken t)) \<longrightarrow>
       (\<exists>outs. metrics_thread ts = Some outs \<and> length outs < length ts \<and>
          (\<forall>i < length outs. \<not> leo_conn_is_connected (ag_conn (pt_woken (ts ! i))) \<longrightarrow> snd (outs ! i) = None))) \<and>
   (\<forall>ts. (\<exists>t \<in> set ts. threads_stop (pt_head t) \<or> threads_stop (pt_woken t)) \<longrightarrow>
       (\<exists>outs. patch_thread True ts = Some outs \<and> length outs < length ts \<and>
          (\<forall>i < length outs. \<not> leo_conn_is_connected (ag_conn (pt_woken (ts ! i))) \<longrightarrow> snd (outs ! i) = None)))"
  unfolding heartbeat_thread_def metrics_thread_def patch_thread_def if_False not_True_eq_False
  using heartbeats.ends heartbeats.outputs metrics.ends metrics.outputs patches.ends patches.outputs
  by (intro conjI allI impI; elim bexE) metis+

text \<open>the heartbeats of a thread are numbered: the turn \<open>i\<close> of a run uses the number of earlier turns
  at which the agent was connected, counted from zero modulo \<open>2 ^ 64\<close>, so that consecutive
  heartbeats on the wire carry consecutive numbers.\<close>

theorem heartbeat_numbering:
  assumes "heartbeat_thread ts = Some outs" "i < length outs"
  shows "outs ! i = snd (heartbeat_turn (pt_env (ts ! i))
           (of_nat (length (filter (\<lambda>t. leo_conn_is_connected (ag_conn (pt_woken t))) (take i ts)))) (pt_woken (ts ! i)))"
proof -
  have gen: "outs ! i = snd (heartbeat_turn (pt_env (ts ! i))
      (seq + of_nat (length (filter (\<lambda>t. leo_conn_is_connected (ag_conn (pt_woken t))) (take i ts)))) (pt_woken (ts ! i)))"
    if "periodic heartbeat_turn ts seq = Some outs" "i < length outs" for ts seq outs i
    using that
  proof (induction ts arbitrary: seq outs i)
    case (Cons u ts)
    obtain seq1 ag rc where b: "heartbeat_turn (pt_env u) seq (pt_woken u) = (seq1, ag, rc)" by (metis prod_cases3)
    then have s1: "seq1 = seq + (if leo_conn_is_connected (ag_conn (pt_woken u)) then 1 else 0)"
      by (auto simp: heartbeat_turn_def Let_def split: if_splits prod.splits)
    from Cons.prems b obtain os where os: "periodic heartbeat_turn ts seq1 = Some os" "outs = (ag, rc) # os"
      by (auto split: if_splits)
    show ?case
    proof (cases i)
      case 0
      with os(2) b show ?thesis by simp
    next
      case (Suc k)
      with Cons.IH [OF os(1), of k] os(2) Cons.prems(2) s1 show ?thesis by (simp add: add.assoc)
    qed
  qed simp
  from gen [of ts 0] assms show ?thesis by (simp add: heartbeat_thread_def)
qed

section \<open>Start and stop\<close>


lemma agent_config_fits:
  assumes "agent_config env files path = Some (Inr (cfg, files'))"
  shows "config_fits cfg \<and> (leo_config_is_valid cfg \<and> files' = files \<or>
           leo_enroll (se_enroll env) files LEO_BOOTSTRAP_FILE path = Some (Inr (cfg, files')))"
proof (cases "fst (leo_config_load files (Some path) zero_config) = LEO_OK")
  case True
  with assms show ?thesis
    using cfg.load_fits [OF default_config_fits]
    by (auto simp: agent_config_def leo_config_load_cases Let_def split: option.splits if_splits)
next
  case False
  with assms obtain out where out: "leo_enroll (se_enroll env) files LEO_BOOTSTRAP_FILE path = Some out"
    and inr: "out = Inr (cfg, files')"
    by (cases "leo_enroll (se_enroll env) files LEO_BOOTSTRAP_FILE path")
       (auto simp: agent_config_def split: prod.splits if_splits sum.splits)
  from out inr have "config_fits cfg" by (auto intro: leo_enroll_fits)
  with out inr show ?thesis by simp
qed

text \<open>C11: an agent that starts has a configuration that fits its structure, valid and read from the
  file or obtained by enrollment, runs its three threads, has no command running, and is connecting
  to the endpoint its configuration names; a stop that completes joins every thread the start
  created, then ends the remote desktop and the connection, and frees the agent as its last act.\<close>

theorem agent_life_cycle:
  assumes start: "leo_agent_start env files path = Some (Some ag, files', eff)"
    and stop: "leo_agent_stop senv (Some ag1) = (None, eff')"
  shows "config_fits (ag_config ag) \<and>
         (leo_config_is_valid (ag_config ag) \<and> files' = files \<or>
          leo_enroll (se_enroll env) files LEO_BOOTSTRAP_FILE path = Some (Inr (ag_config ag, files'))) \<and>
         exec_active_count ag = 0 \<and> ag_state ag = LEO_STATE_CONNECTING \<and> \<not> threads_stop ag \<and>
         (\<exists>e. parse_endpoint (ws_endpoint (ag_config ag)) 256 256 = Some e \<and> ag_conn ag = Some (new_conn (ag_config ag) e)) \<and>
         (\<forall>t. Start_Thread t \<in> set eff \<and> Join_Thread t \<in> set (takeWhile (\<lambda>e. e \<noteq> Rd_Stop_All True) eff')) \<and>
         (\<exists>n \<in> set (st_counts senv). n \<le> 0) \<and>
         (\<exists>joins. eff' = joins @ [Rd_Stop_All True, Conn_Destroy True, Metrics_Destroy, Sync_Destroy, Free_Agent])"
proof -
  from start obtain conn where
    cfg: "agent_config env files path = Some (Inr (ag_config ag, files'))" and
    conn: "leo_conn_create (Some (ag_config ag)) (se_conn_calloc env) (se_conn_thread env) = Some conn" and
    ag: "ag = new_agent\<lparr>ag_config := ag_config ag, ag_conn := Some conn, ag_state := LEO_STATE_CONNECTING\<rparr>" and
    thr: "start_threads env [] [Heartbeat_Thread, Metrics_Thread, Patch_Thread] = (True, drop 2 eff)"
    by (auto simp: leo_agent_start_def Let_def split: if_splits option.splits sum.splits prod.splits)
  have "\<forall>t. Start_Thread t \<in> set eff"
  proof
    fix t
    from thr have "Start_Thread t \<in> set (drop 2 eff)" by (cases t) (auto split: if_splits dest!: sym [of _ "drop 2 eff"])
    then show "Start_Thread t \<in> set eff" by (rule in_set_dropD)
  qed
  moreover have "Join_Thread t \<in> set (takeWhile (\<lambda>e. e \<noteq> Rd_Stop_All True) eff')" for t
    using stop by (cases t) (auto simp: leo_agent_stop_def Let_def split: if_splits)
  moreover from conn have "\<exists>e. parse_endpoint (ws_endpoint (ag_config ag)) 256 256 = Some e \<and> conn = new_conn (ag_config ag) e"
    by (auto simp: leo_conn_create_def split: if_splits option.splits)
  moreover have "(\<exists>n \<in> set (st_counts senv). n \<le> 0) \<and>
      (\<exists>joins. eff' = joins @ [Rd_Stop_All True, Conn_Destroy True, Metrics_Destroy, Sync_Destroy, Free_Agent])"
    using stop by (auto simp: leo_agent_stop_def Let_def list_ex_iff split: if_splits)
  moreover from ag have "exec_active_count ag = 0 \<and> ag_state ag = LEO_STATE_CONNECTING \<and> \<not> threads_stop ag \<and> ag_conn ag = Some conn"
    by (metis new_agent_def leo_agent.select_convs leo_agent.update_convs leo_agent.surjective)
  ultimately show ?thesis using agent_config_fits [OF cfg] by blast
qed

section \<open>Sample runs\<close>

text \<open>One command has been dispatched and its thread runs.\<close>

definition demo_slots :: ag_sys where
  "demo_slots = \<lparr>as_count = 1, as_live = 1, as_disp = D_idle, as_wss = True, as_stop = S_running\<rparr>"

lemma demo_slots_reach: "reach ag_init ag_step demo_slots"
proof -
  let ?s0 = "\<lparr>as_count = 0, as_live = 0, as_disp = D_idle, as_wss = True, as_stop = S_running\<rparr>"
  let ?s1 = "\<lparr>as_count = 1, as_live = 0, as_disp = D_reserved, as_wss = True, as_stop = S_running\<rparr>"
  have "reach ag_init ag_step ?s0" by (rule reach.start) (simp add: ag_init_def)
  moreover have "ag_step ?s0 ?s1" using ag_step.reserve [of ?s0] by (simp add: agent_limits)
  moreover have "ag_step ?s1 demo_slots" using ag_step.spawned [of ?s1] by (simp add: demo_slots_def)
  ultimately show ?thesis by (meson reach.move)
qed

theorem exec_slots_exact_witness: "as_count demo_slots = int (as_live demo_slots) + reserved demo_slots \<and> as_count demo_slots = 1"
  using exec_slots_exact [OF demo_slots_reach] by (simp add: demo_slots_def)

theorem handler_refines_slots_witness:
  "\<exists>s'. ag_step\<^sup>*\<^sup>* demo_slots s' \<and> as_count s' = 2 \<and> as_live s' = 2"
proof -
  obtain ctx where h: "handle_msg demo_disp demo_exec_msg (demo_agent, no_session) =
      Some ((demo_agent\<lparr>exec_active_count := 2\<rparr>, no_session), [Ag_Exec ctx])" using demo_exec_handled by blast
  have "as_count demo_slots = exec_active_count demo_agent" "as_wss demo_slots" "as_disp demo_slots = D_idle"
    by (simp_all add: demo_slots_def demo_agent_def)
  from conjunct1 [OF handler_refines_slots [OF this]] h
  have "\<exists>s'. ag_step\<^sup>*\<^sup>* demo_slots s' \<and> as_count s' = 2 \<and> as_live s' = as_live demo_slots + threads_of [Ag_Exec ctx]" by fastforce
  then show ?thesis by (simp add: threads_of_def is_thread_def demo_slots_def numeral_2_eq_2)
qed

text \<open>Two turns of the heartbeat thread: one connected, one at which the stop is read.\<close>

definition hb_env :: proto_env where "hb_env = mute_env\<lparr>print_json := (\<lambda>_. Some ''{}'')\<rparr>"

definition demo_turns :: "proto_env periodic_turn list" where
  "demo_turns =
     [\<lparr>pt_head = demo_agent, pt_woken = demo_agent, pt_env = hb_env\<rparr>,
      \<lparr>pt_head = demo_agent, pt_woken = demo_agent\<lparr>threads_stop := True\<rparr>, pt_env = hb_env\<rparr>]"

theorem periodic_threads_end_witness: "\<exists>outs. heartbeat_thread demo_turns = Some outs \<and> length outs < 2"
proof -
  have "\<exists>t \<in> set demo_turns. threads_stop (pt_head t) \<or> threads_stop (pt_woken t)" by (simp add: demo_turns_def)
  with conjunct1 [OF periodic_threads_end] obtain outs
    where "heartbeat_thread demo_turns = Some outs" "length outs < length demo_turns" by blast
  then show ?thesis by (simp add: demo_turns_def)
qed

theorem heartbeat_numbering_witness:
  "\<exists>o1. heartbeat_thread demo_turns = Some [o1] \<and> o1 = snd (heartbeat_turn hb_env 0 demo_agent)"
proof -
  have run: "heartbeat_thread demo_turns = Some [snd (heartbeat_turn hb_env 0 demo_agent)]"
    by (simp add: heartbeat_thread_def demo_turns_def split: prod.splits) (simp add: demo_agent_def)
  with heartbeat_numbering [OF this, of 0] show ?thesis by (simp add: demo_turns_def)
qed

text \<open>Starts from a saved configuration, with every thread created or with the third refused.\<close>

definition demo_saved :: leo_config where "demo_saved = demo_enrolled demo_fp"

definition demo_start :: "bool \<Rightarrow> start_env" where
  "demo_start patch_ok =
     \<lparr>se_calloc_ok = True, se_enroll = demo_enroll demo_fp, se_metrics_ok = True, se_conn_calloc = True, se_conn_thread = True,
      se_thread_ok = (\<lambda>t. t = Patch_Thread \<longrightarrow> patch_ok), se_conn_exits = True\<rparr>"

lemma demo_start_fields [simp]:
  "se_calloc_ok (demo_start b)" "se_metrics_ok (demo_start b)" "se_conn_calloc (demo_start b)" "se_conn_thread (demo_start b)"
  "se_thread_ok (demo_start b) t \<longleftrightarrow> (t = Patch_Thread \<longrightarrow> b)"
  by (simp_all add: demo_start_def)

lemma demo_start_config:
  "agent_config (demo_start b) [''c'' \<mapsto> config_text demo_saved] ''c'' =
     Some (Inr (demo_saved, [''c'' \<mapsto> config_text demo_saved]))"
proof -
  have safe: "ini_safe demo_fp" by (simp add: ini_safe_def trim_no_space isspace_def byte_of_def NL_def NUL_def)
  have "ini_load config_set INI_LINE_MAX (config_text demo_saved) default_config = demo_saved"
    unfolding demo_saved_def by (rule config_text_loads) (simp_all add: demo_enrolled_safe safe)
  moreover have "leo_config_is_valid demo_saved"
    by (simp add: leo_config_is_valid_def demo_saved_def demo_enrolled_def default_config_def leo_intervals)
  ultimately show ?thesis by (simp add: agent_config_def leo_config_load_cases)
qed

lemma demo_start_conn: "\<exists>e. leo_conn_create (Some demo_saved) True True = Some (new_conn demo_saved e)"
proof -
  have "parse_endpoint ''wss://h/ws'' 256 256 \<noteq> None" by code_simp
  then show ?thesis by (auto simp: leo_conn_create_def demo_saved_def demo_enrolled_def)
qed


theorem agent_life_cycle_witness:
  "\<exists>ag files' eff. leo_agent_start (demo_start True) [''c'' \<mapsto> config_text demo_saved] ''c'' = Some (Some ag, files', eff) \<and>
     config_fits (ag_config ag) \<and> ag_state ag = LEO_STATE_CONNECTING"
proof -
  obtain ag eff where run: "leo_agent_start (demo_start True) [''c'' \<mapsto> config_text demo_saved] ''c'' =
       Some (Some ag, [''c'' \<mapsto> config_text demo_saved], eff)"
    using demo_start_conn by (auto simp: leo_agent_start_def demo_start_config)
  let ?senv = "\<lparr>st_counts = [1, 0], st_rd_exits = True, st_conn_exits = True\<rparr>"
  obtain eff' where "leo_agent_stop ?senv (Some ag) = (None, eff')" by (simp add: leo_agent_stop_def)
  from agent_life_cycle [OF run this] run show ?thesis by blast
qed

end
