(* ===== verification/Rd_Input.thy ===== *)
theory Rd_Input
  imports Rd_Wire
begin

text \<open>
  The two implementations of the input interface of \<^verbatim>\<open>agent/src/remote_desktop.h\<close>:
  \<^verbatim>\<open>agent/platform/linux/input_linux.c\<close> (X11, XTest) and \<^verbatim>\<open>agent/platform/windows/input_win.c\<close> (SendInput).
  The keys of the protocol, X11's key symbols and Windows' virtual keys are named by the identifiers of
  the C enumerations without their prefixes (\<^verbatim>\<open>LEO_KEY_\<close>, \<^verbatim>\<open>XK_\<close>, \<^verbatim>\<open>VK_\<close>); the tables are the \<^verbatim>\<open>switch\<close> of each file. What is injected is a list of events.
  The locale \<open>input_backend\<close> is the contract both fulfil.
\<close>

section \<open>Keys\<close>

text \<open>\<^verbatim>\<open>leo_rd_key_t\<close>: the position in the list is the code on the wire.\<close>

definition LEO_KEYS :: "cstring list" where
  "LEO_KEYS =
     [''UNKNOWN'', ''A'', ''B'', ''C'', ''D'', ''E'', ''F'', ''G'', ''H'', ''I'', ''J'', ''K'', ''L'', ''M'', ''N'',
      ''O'', ''P'', ''Q'', ''R'', ''S'', ''T'', ''U'', ''V'', ''W'', ''X'', ''Y'', ''Z'', ''0'', ''1'', ''2'',
      ''3'', ''4'', ''5'', ''6'', ''7'', ''8'', ''9'', ''ENTER'', ''ESCAPE'', ''BACKSPACE'', ''TAB'', ''SPACE'',
      ''MINUS'', ''EQUAL'', ''LEFTBRACKET'', ''RIGHTBRACKET'', ''BACKSLASH'', ''SEMICOLON'', ''QUOTE'', ''GRAVE'',
      ''COMMA'', ''PERIOD'', ''SLASH'', ''CAPSLOCK'', ''F1'', ''F2'', ''F3'', ''F4'', ''F5'', ''F6'', ''F7'',
      ''F8'', ''F9'', ''F10'', ''F11'', ''F12'', ''PRINTSCREEN'', ''SCROLLLOCK'', ''PAUSE'', ''INSERT'', ''HOME'',
      ''PAGEUP'', ''DELETE'', ''END'', ''PAGEDOWN'', ''RIGHT'', ''LEFT'', ''DOWN'', ''UP'', ''NUMLOCK'', ''LCTRL'',
      ''LSHIFT'', ''LALT'', ''LMETA'', ''RCTRL'', ''RSHIFT'', ''RALT'', ''RMETA'']"

definition KEYSYMS :: "(cstring \<times> cstring) list" where
  "KEYSYMS =
     [(''A'', ''a''), (''B'', ''b''), (''C'', ''c''), (''D'', ''d''), (''E'', ''e''), (''F'', ''f''),
      (''G'', ''g''), (''H'', ''h''), (''I'', ''i''), (''J'', ''j''), (''K'', ''k''), (''L'', ''l''),
      (''M'', ''m''), (''N'', ''n''), (''O'', ''o''), (''P'', ''p''), (''Q'', ''q''), (''R'', ''r''),
      (''S'', ''s''), (''T'', ''t''), (''U'', ''u''), (''V'', ''v''), (''W'', ''w''), (''X'', ''x''),
      (''Y'', ''y''), (''Z'', ''z''), (''0'', ''0''), (''1'', ''1''), (''2'', ''2''), (''3'', ''3''),
      (''4'', ''4''), (''5'', ''5''), (''6'', ''6''), (''7'', ''7''), (''8'', ''8''), (''9'', ''9''),
      (''ENTER'', ''Return''), (''ESCAPE'', ''Escape''), (''BACKSPACE'', ''BackSpace''), (''TAB'', ''Tab''),
      (''SPACE'', ''space''), (''MINUS'', ''minus''), (''EQUAL'', ''equal''), (''LEFTBRACKET'', ''bracketleft''),
      (''RIGHTBRACKET'', ''bracketright''), (''BACKSLASH'', ''backslash''), (''SEMICOLON'', ''semicolon''),
      (''QUOTE'', ''apostrophe''), (''GRAVE'', ''grave''), (''COMMA'', ''comma''), (''PERIOD'', ''period''),
      (''SLASH'', ''slash''), (''CAPSLOCK'', ''Caps_Lock''), (''F1'', ''F1''), (''F2'', ''F2''), (''F3'', ''F3''),
      (''F4'', ''F4''), (''F5'', ''F5''), (''F6'', ''F6''), (''F7'', ''F7''), (''F8'', ''F8''), (''F9'', ''F9''),
      (''F10'', ''F10''), (''F11'', ''F11''), (''F12'', ''F12''), (''PRINTSCREEN'', ''Print''),
      (''SCROLLLOCK'', ''Scroll_Lock''), (''PAUSE'', ''Pause''), (''INSERT'', ''Insert''), (''HOME'', ''Home''),
      (''PAGEUP'', ''Page_Up''), (''DELETE'', ''Delete''), (''END'', ''End''), (''PAGEDOWN'', ''Page_Down''),
      (''RIGHT'', ''Right''), (''LEFT'', ''Left''), (''DOWN'', ''Down''), (''UP'', ''Up''),
      (''NUMLOCK'', ''Num_Lock''), (''LCTRL'', ''Control_L''), (''RCTRL'', ''Control_R''),
      (''LSHIFT'', ''Shift_L''), (''RSHIFT'', ''Shift_R''), (''LALT'', ''Alt_L''), (''RALT'', ''Alt_R''),
      (''LMETA'', ''Super_L''), (''RMETA'', ''Super_R'')]"

text \<open>The virtual keys of the letters and digits are their characters.\<close>

definition VIRTUAL_KEYS :: "(cstring \<times> cstring) list" where
  "VIRTUAL_KEYS =
     [(''A'', ''A''), (''B'', ''B''), (''C'', ''C''), (''D'', ''D''), (''E'', ''E''), (''F'', ''F''),
      (''G'', ''G''), (''H'', ''H''), (''I'', ''I''), (''J'', ''J''), (''K'', ''K''), (''L'', ''L''),
      (''M'', ''M''), (''N'', ''N''), (''O'', ''O''), (''P'', ''P''), (''Q'', ''Q''), (''R'', ''R''),
      (''S'', ''S''), (''T'', ''T''), (''U'', ''U''), (''V'', ''V''), (''W'', ''W''), (''X'', ''X''),
      (''Y'', ''Y''), (''Z'', ''Z''), (''0'', ''0''), (''1'', ''1''), (''2'', ''2''), (''3'', ''3''),
      (''4'', ''4''), (''5'', ''5''), (''6'', ''6''), (''7'', ''7''), (''8'', ''8''), (''9'', ''9''),
      (''ENTER'', ''RETURN''), (''ESCAPE'', ''ESCAPE''), (''BACKSPACE'', ''BACK''), (''TAB'', ''TAB''),
      (''SPACE'', ''SPACE''), (''MINUS'', ''OEM_MINUS''), (''EQUAL'', ''OEM_PLUS''), (''LEFTBRACKET'', ''OEM_4''),
      (''RIGHTBRACKET'', ''OEM_6''), (''BACKSLASH'', ''OEM_5''), (''SEMICOLON'', ''OEM_1''), (''QUOTE'', ''OEM_7''),
      (''GRAVE'', ''OEM_3''), (''COMMA'', ''OEM_COMMA''), (''PERIOD'', ''OEM_PERIOD''), (''SLASH'', ''OEM_2''),
      (''CAPSLOCK'', ''CAPITAL''), (''F1'', ''F1''), (''F2'', ''F2''), (''F3'', ''F3''), (''F4'', ''F4''),
      (''F5'', ''F5''), (''F6'', ''F6''), (''F7'', ''F7''), (''F8'', ''F8''), (''F9'', ''F9''), (''F10'', ''F10''),
      (''F11'', ''F11''), (''F12'', ''F12''), (''PRINTSCREEN'', ''SNAPSHOT''), (''SCROLLLOCK'', ''SCROLL''),
      (''PAUSE'', ''PAUSE''), (''INSERT'', ''INSERT''), (''HOME'', ''HOME''), (''PAGEUP'', ''PRIOR''),
      (''DELETE'', ''DELETE''), (''END'', ''END''), (''PAGEDOWN'', ''NEXT''), (''RIGHT'', ''RIGHT''),
      (''LEFT'', ''LEFT''), (''DOWN'', ''DOWN''), (''UP'', ''UP''), (''NUMLOCK'', ''NUMLOCK''),
      (''LCTRL'', ''LCONTROL''), (''RCTRL'', ''RCONTROL''), (''LSHIFT'', ''LSHIFT''), (''RSHIFT'', ''RSHIFT''),
      (''LALT'', ''LMENU''), (''RALT'', ''RMENU''), (''LMETA'', ''LWIN''), (''RMETA'', ''RWIN'')]"

definition key_of_code :: "int \<Rightarrow> cstring option" where
  "key_of_code k = (if 0 \<le> k \<and> nat k < length LEO_KEYS then Some (LEO_KEYS ! nat k) else None)"

text \<open>\<open>None\<close> is \<^verbatim>\<open>NoSymbol\<close>, the \<^verbatim>\<open>default\<close> of the switch.\<close>

definition keysym_for :: "int \<Rightarrow> cstring option" where
  "keysym_for key = (case key_of_code key of Some k \<Rightarrow> map_of KEYSYMS k | None \<Rightarrow> None)"

definition vk_for_key :: "int \<Rightarrow> cstring option" where
  "vk_for_key key = (case key_of_code key of Some k \<Rightarrow> map_of VIRTUAL_KEYS k | None \<Rightarrow> None)"

section \<open>Linux\<close>

text \<open>The requests sent to the X server.\<close>

datatype x_event = X_Motion int int | X_Button int bool | X_Key nat bool

record x_input =
  xi_w :: int
  xi_h :: int
  xi_keycode :: "cstring \<Rightarrow> nat"     \<comment> \<open>\<^verbatim>\<open>XKeysymToKeycode\<close>; 0 when the symbol has no key\<close>

datatype x_effect = X_Open_Display | X_Close_Display

text \<open>Opening: allocation, the display, the XTest extension; what is left open when it fails.\<close>

definition x_input_open :: "bool \<Rightarrow> bool \<Rightarrow> bool \<Rightarrow> x_input \<Rightarrow> x_input option \<times> x_effect list" where
  "x_input_open calloc_ok display_ok xtest_ok dev =
     (if \<not> calloc_ok then (None, [])
      else if \<not> display_ok then (None, [])
      else if \<not> xtest_ok then (None, [X_Open_Display, X_Close_Display])
      else (Some dev, [X_Open_Display]))"

definition x_input_close :: "x_input option \<Rightarrow> x_effect list" where
  "x_input_close i = (case i of None \<Rightarrow> [] | Some _ \<Rightarrow> [X_Close_Display])"

definition x_input_move :: "x_input \<Rightarrow> int \<Rightarrow> int \<Rightarrow> x_event list" where
  "x_input_move i x y = [X_Motion (cdiv (x * (xi_w i - 1)) 65535) (cdiv (y * (xi_h i - 1)) 65535)]"

definition x_input_button :: "x_input \<Rightarrow> int \<Rightarrow> bool \<Rightarrow> x_event list" where
  "x_input_button i button down = (if button < 1 \<or> 3 < button then [] else [X_Button button down])"

definition x_input_scroll :: "x_input \<Rightarrow> int \<Rightarrow> x_event list" where
  "x_input_scroll i delta =
     (if delta = 0 then []
      else let btn = (if 0 < delta then 4 else 5);
               count = (if 0 < delta then delta else - delta);
               count = (if 10 < count then 10 else count)
           in concat (replicate (nat count) [X_Button btn True, X_Button btn False]))"

definition x_input_key :: "x_input \<Rightarrow> int \<Rightarrow> bool \<Rightarrow> x_event list" where
  "x_input_key i key down =
     (case keysym_for key of
        None \<Rightarrow> []
      | Some ks \<Rightarrow> let kc = xi_keycode i ks in if kc = 0 then [] else [X_Key kc down])"

definition x_inject :: "x_input \<Rightarrow> rd_action \<Rightarrow> x_event list" where
  "x_inject i a =
     (case a of RD_Move x y \<Rightarrow> x_input_move i x y | RD_Button b d \<Rightarrow> x_input_button i b d
      | RD_Scroll n \<Rightarrow> x_input_scroll i n | RD_Key k d \<Rightarrow> x_input_key i k d)"

section \<open>Windows\<close>

datatype win_event = W_Move int int | W_Button int bool | W_Wheel u32 | W_Key cstring bool

definition WHEEL_DELTA :: int where "WHEEL_DELTA = 120"

definition win_input_move :: "int \<Rightarrow> int \<Rightarrow> win_event list" where
  "win_input_move x y = [W_Move x y]"

definition win_input_button :: "int \<Rightarrow> bool \<Rightarrow> win_event list" where
  "win_input_button button down = (if button \<in> {1, 2, 3} then [W_Button button down] else [])"

definition win_input_scroll :: "int \<Rightarrow> win_event list" where
  "win_input_scroll delta = (if delta = 0 then [] else [W_Wheel (word_of_int (delta * WHEEL_DELTA))])"

definition win_input_key :: "int \<Rightarrow> bool \<Rightarrow> win_event list" where
  "win_input_key key down = (case vk_for_key key of None \<Rightarrow> [] | Some vk \<Rightarrow> [W_Key vk down])"

definition win_inject :: "rd_action \<Rightarrow> win_event list" where
  "win_inject a =
     (case a of RD_Move x y \<Rightarrow> win_input_move x y | RD_Button b d \<Rightarrow> win_input_button b d
      | RD_Scroll n \<Rightarrow> win_input_scroll n | RD_Key k d \<Rightarrow> win_input_key k d)"

definition win_input_open :: "bool \<Rightarrow> int \<Rightarrow> int \<Rightarrow> bool" where
  "win_input_open calloc_ok w h \<longleftrightarrow> calloc_ok \<and> \<not> (w \<le> 0 \<or> h \<le> 0)"

section \<open>The contract\<close>

text \<open>What \<^verbatim>\<open>remote_desktop.h\<close> asks of a platform: only the three mouse buttons and the keys of the
  protocol have an effect, a key that has one is released by the same event with the other direction,
  and a movement of the wheel by nothing does nothing.\<close>

locale input_backend =
  fixes inject :: "rd_action \<Rightarrow> 'e list"
    and up :: "'e \<Rightarrow> 'e"               \<comment> \<open>the release that ends a press\<close>
  assumes button_law: "b < 1 \<or> 3 < b \<Longrightarrow> inject (RD_Button b d) = []"
    and key_law: "key_of_code k \<in> {None, Some ''UNKNOWN''} \<Longrightarrow> inject (RD_Key k d) = []"
    and press_law: "inject (RD_Button b False) = map up (inject (RD_Button b True))"
      "inject (RD_Key k False) = map up (inject (RD_Key k True))"
    and still_law: "inject (RD_Scroll 0) = []"
begin

text \<open>A message that is no input of the protocol injects nothing, whatever its bytes.\<close>

lemma foreign_message:
  assumes "data \<noteq> []" "data ! 0 \<notin> {RD_WIRE_INPUT_MOVE, RD_WIRE_INPUT_BUTTON, RD_WIRE_INPUT_SCROLL, RD_WIRE_INPUT_KEY}"
  shows "concat (map inject (handle_input_message True True data)) = []"
  using assms by (simp add: handle_input_message_def)

text \<open>Pressing and releasing a key or a button: every event is followed by its release.\<close>

lemma press_release:
  "concat (map inject (handle_input_message True True [RD_WIRE_INPUT_KEY, k, 1] @ handle_input_message True True [RD_WIRE_INPUT_KEY, k, 0])) =
     (let es = inject (RD_Key (uint k) True) in es @ map up es)"
  "concat (map inject (handle_input_message True True [RD_WIRE_INPUT_BUTTON, k, 1] @ handle_input_message True True [RD_WIRE_INPUT_BUTTON, k, 0])) =
     (let es = inject (RD_Button (uint k) True) in es @ map up es)"
  using press_law by (simp_all add: handle_input_message_def wire_types Let_def)

lemma unknown_key:
  assumes "uint k = 0 \<or> int (length LEO_KEYS) \<le> uint k"
  shows "concat (map inject (handle_input_message True True (RD_WIRE_INPUT_KEY # k # rest))) = []"
proof -
  have "LEO_KEYS ! 0 = ''UNKNOWN''" "0 < length LEO_KEYS" by (simp_all add: LEO_KEYS_def)
  with assms have "key_of_code (uint k) \<in> {None, Some ''UNKNOWN''}" by (auto simp: key_of_code_def nat_less_iff simp del: nat_uint_eq)
  with key_law show ?thesis by (auto simp: handle_input_message_def wire_types)
qed

end

fun x_up :: "x_event \<Rightarrow> x_event" where
  "x_up (X_Button b d) = X_Button b False"
| "x_up (X_Key k d) = X_Key k False"
| "x_up (X_Motion x y) = X_Motion x y"

fun win_up :: "win_event \<Rightarrow> win_event" where
  "win_up (W_Button b d) = W_Button b False"
| "win_up (W_Key k d) = W_Key k False"
| "win_up e = e"

lemma unknown_unmapped: "map_of KEYSYMS ''UNKNOWN'' = None" "map_of VIRTUAL_KEYS ''UNKNOWN'' = None"
  by code_simp+

interpretation x11: input_backend "x_inject i" x_up for i
  by unfold_locales
     (auto simp: x_inject_def x_input_button_def x_input_key_def x_input_scroll_def keysym_for_def unknown_unmapped Let_def split: option.splits)

interpretation win32: input_backend win_inject win_up
  by unfold_locales
     (auto simp: win_inject_def win_input_button_def win_input_key_def win_input_scroll_def vk_for_key_def unknown_unmapped split: option.splits)

section \<open>What a message can inject\<close>

lemma scaled_in_screen:
  assumes "0 \<le> x" "x \<le> 65535" "0 < w"
  shows "0 \<le> cdiv (x * (w - 1)) 65535 \<and> cdiv (x * (w - 1)) 65535 < w"
proof -
  have "x * (w - 1) \<le> 65535 * (w - 1)" using assms by (intro mult_right_mono) simp_all
  then have "x * (w - 1) div 65535 \<le> 65535 * (w - 1) div 65535" by (rule zdiv_mono1) simp
  then show ?thesis using assms by (simp add: cdiv_def pos_imp_zdiv_nonneg_iff)
qed

lemma be16_range: "0 \<le> be16 a b \<and> be16 a b \<le> 65535"
proof -
  have "uint a < 256" "uint b < 256" "0 \<le> uint a" "0 \<le> uint b" using uint_bounded [of a] uint_bounded [of b] by auto
  then show ?thesis by (simp add: be16_def)
qed

definition x_event_ok :: "x_input \<Rightarrow> x_event \<Rightarrow> bool" where
  "x_event_ok i e \<longleftrightarrow>
     (case e of
        X_Motion px py \<Rightarrow> 0 \<le> px \<and> px < xi_w i \<and> 0 \<le> py \<and> py < xi_h i
      | X_Button b d \<Rightarrow> 1 \<le> b \<and> b \<le> 5
      | X_Key kc d \<Rightarrow> kc \<noteq> 0 \<and> (\<exists>ks \<in> snd ` set KEYSYMS. kc = xi_keycode i ks))"

text \<open>on Linux, whatever bytes an input message holds, it injects at most twenty events, each of
  them a motion inside the screen, one of the five buttons, or a key that one of the protocol's keys
  stands for; the corners of the protocol's coordinates are the corners of the screen.\<close>

theorem x_input_bounded:
  assumes "data \<noteq> []" "0 < xi_w i" "0 < xi_h i"
  shows "length (concat (map (x_inject i) (handle_input_message c True data))) \<le> 20 \<and>
         (\<forall>e \<in> set (concat (map (x_inject i) (handle_input_message c True data))). x_event_ok i e) \<and>
         x_inject i (RD_Move 0 0) = [X_Motion 0 0] \<and> x_inject i (RD_Move 65535 65535) = [X_Motion (xi_w i - 1) (xi_h i - 1)]"
proof -
  have one: "length (x_inject i a) \<le> 20 \<and> (\<forall>e \<in> set (x_inject i a). x_event_ok i e)"
    if "\<And>x y. a = RD_Move x y \<Longrightarrow> 0 \<le> x \<and> x \<le> 65535 \<and> 0 \<le> y \<and> y \<le> 65535" for a
  proof (cases a)
    case (RD_Scroll n)
    have "nat (if 10 < k then 10 else k) * 2 \<le> 20" for k :: int by (simp add: nat_le_iff)
    with RD_Scroll show ?thesis
      by (auto simp: x_inject_def x_input_scroll_def x_event_ok_def Let_def length_concat sum_list_replicate split: if_splits)
  next
    case (RD_Key k d)
    then show ?thesis
      by (auto simp: x_inject_def x_input_key_def keysym_for_def x_event_ok_def Let_def split: option.splits dest!: map_of_SomeD) force
  qed (use that assms scaled_in_screen in \<open>auto simp: x_inject_def x_input_move_def x_input_button_def x_event_ok_def\<close>)
  have "handle_input_message c True data = [] \<or>
      (\<exists>a. handle_input_message c True data = [a] \<and> (\<forall>x y. a = RD_Move x y \<longrightarrow> 0 \<le> x \<and> x \<le> 65535 \<and> 0 \<le> y \<and> y \<le> 65535))"
    using be16_range by (auto simp: handle_input_message_def)
  then have "length (concat (map (x_inject i) (handle_input_message c True data))) \<le> 20 \<and>
      (\<forall>e \<in> set (concat (map (x_inject i) (handle_input_message c True data))). x_event_ok i e)"
  proof
    assume "\<exists>a. handle_input_message c True data = [a] \<and> (\<forall>x y. a = RD_Move x y \<longrightarrow> 0 \<le> x \<and> x \<le> 65535 \<and> 0 \<le> y \<and> y \<le> 65535)"
    then obtain a where a: "handle_input_message c True data = [a]"
      "\<And>x y. a = RD_Move x y \<Longrightarrow> 0 \<le> x \<and> x \<le> 65535 \<and> 0 \<le> y \<and> y \<le> 65535" by blast
    from one [OF a(2)] a(1) show ?thesis by simp
  qed simp
  moreover have "cdiv (65535 * (w - 1)) 65535 = w - 1" if "0 < w" for w using that by (simp add: cdiv_def)
  ultimately show ?thesis using assms by (simp add: x_inject_def x_input_move_def) (simp add: cdiv_def)
qed

lemma key_tables:
  "list_all (\<lambda>n. map_of KEYSYMS n \<noteq> None) (tl LEO_KEYS)" "list_all (\<lambda>n. map_of VIRTUAL_KEYS n \<noteq> None) (tl LEO_KEYS)"
  by code_simp+

lemma key_tables_distinct: "distinct (map snd KEYSYMS)" "distinct (map snd VIRTUAL_KEYS)" "distinct LEO_KEYS"
  by code_simp+

lemma map_of_inject:
  assumes "distinct (map snd T)" "map_of T a = Some x" "map_of T b = Some x"
  shows "a = b"
proof -
  from assms(2,3) have "(a, x) \<in> set T" "(b, x) \<in> set T" by (auto dest: map_of_SomeD)
  moreover from assms(1) have "inj_on snd (set T)" by (simp add: distinct_map)
  ultimately show ?thesis by (metis inj_onD prod.inject snd_conv)
qed

text \<open>on both systems the keys of the protocol are told apart: every key but the unknown one has a
  symbol of its own.\<close>

theorem keys_distinct:
  assumes "0 < k" "k < 88" "0 < k'" "k' < 88"
  shows "keysym_for k \<noteq> None \<and> vk_for_key k \<noteq> None \<and> (keysym_for k = keysym_for k' \<longleftrightarrow> k = k') \<and> (vk_for_key k = vk_for_key k' \<longleftrightarrow> k = k')"
proof -
  have len: "length LEO_KEYS = 88" by code_simp
  have key: "key_of_code j = Some (LEO_KEYS ! nat j) \<and> LEO_KEYS ! nat j \<in> set (tl LEO_KEYS) \<and> nat j < 88" if "0 < j" "j < 88" for j
  proof -
    define n where "n = nat j - 1"
    then have n: "nat j = Suc n" using that(1) by simp
    then have "LEO_KEYS ! nat j = tl LEO_KEYS ! n" "n < length (tl LEO_KEYS)" using that len by (simp_all add: nth_tl)
    then have "LEO_KEYS ! nat j \<in> set (tl LEO_KEYS)" by (metis nth_mem)
    with that len show ?thesis by (simp add: key_of_code_def)
  qed
  have same: "LEO_KEYS ! nat k = LEO_KEYS ! nat k' \<longleftrightarrow> k = k'"
    using nth_eq_iff_index_eq [OF key_tables_distinct(3), of "nat k" "nat k'"] key [of k] key [of k'] assms len by auto
  show ?thesis
    using key [of k] key [of k'] key_tables same assms map_of_inject [OF key_tables_distinct(1)] map_of_inject [OF key_tables_distinct(2)]
    by (auto simp: keysym_for_def vk_for_key_def list_all_iff)
qed

text \<open>On Windows the wheel is not bounded: one message turns it by up to 32768 notches.\<close>

theorem win_scroll_unbounded:
  "concat (map win_inject (handle_input_message True True [RD_WIRE_INPUT_SCROLL, 0x7F, 0xFF])) = [W_Wheel (32767 * 120)]"
  by code_simp

lemma input_undone:
  "concat (map (x_inject i) (handle_input_message True True (t # rest))) = [] \<and>
   concat (map win_inject (handle_input_message True True (t # rest))) = []"
  if "t \<notin> {RD_WIRE_INPUT_MOVE, RD_WIRE_INPUT_BUTTON, RD_WIRE_INPUT_SCROLL, RD_WIRE_INPUT_KEY} \<or>
      (t = RD_WIRE_INPUT_KEY \<and> rest = k # rest' \<and> (uint k = 0 \<or> 88 \<le> uint k))"
proof -
  have len: "length LEO_KEYS = 88" by code_simp
  from that show ?thesis
    using x11.unknown_key [of k i rest'] win32.unknown_key [of k rest'] x11.foreign_message [of "t # rest" i]
      win32.foreign_message [of "t # rest"] by (auto simp: len)
qed


section \<open>Sample messages\<close>

definition demo_x :: x_input where
  "demo_x = \<lparr>xi_w = 1920, xi_h = 1080, xi_keycode = (\<lambda>_. 38)\<rparr>"

theorem x_input_bounded_witness:
  "list_all (x_event_ok demo_x) (concat (map (x_inject demo_x) (handle_input_message True True [RD_WIRE_INPUT_MOVE, 0x80, 0, 0xFF, 0xFF])))"
  using x_input_bounded [of "[RD_WIRE_INPUT_MOVE, 0x80, 0, 0xFF, 0xFF]" demo_x True] by (simp add: demo_x_def list_all_iff)

theorem keys_distinct_witness: "keysym_for 1 = Some ''a'' \<and> keysym_for 1 \<noteq> keysym_for 2"
proof -
  have "keysym_for 1 = Some ''a''" by code_simp
  with keys_distinct [of 1 2] show ?thesis by simp
qed


end
