(* ===== verification/Rd_Capture.thy ===== *)
theory Rd_Capture
  imports Rd_Wire Interfaces
begin

text \<open>
  The two implementations of the capture interface of \<^verbatim>\<open>agent/src/remote_desktop.h\<close>:
  \<^verbatim>\<open>agent/platform/linux/capture_linux.c\<close> (X11, with or without shared memory) and
  \<^verbatim>\<open>agent/platform/windows/capture_win.c\<close> (GDI). What the windowing system answers is an argument; what
  an operation takes from the system and gives back is a list of effects, which \<open>account\<close> balances. The locale \<open>capture_backend\<close> is the contract
  both fulfil.
\<close>

section \<open>Resources\<close>

datatype rd_resource =
  Res_Ctx | Res_Out_Buf
  | Res_Display | Res_Image | Res_Segment | Res_Map | Res_Attach        \<comment> \<open>X11\<close>
  | Res_Screen_DC | Res_Mem_DC | Res_Bitmap | Res_Selected              \<comment> \<open>GDI\<close>

type_synonym rd_effect = "rd_resource res_effect"

record rd_picture =
  fr_width :: int
  fr_height :: int
  fr_pixels :: bytes

section \<open>Linux\<close>

text \<open>What the X server and the allocator answer while the capture is opened.\<close>

record x_server =
  xs_calloc :: bool
  xs_display :: bool              \<comment> \<open>\<^verbatim>\<open>XOpenDisplay\<close>\<close>
  xs_lsb_first :: bool
  xs_depth :: int
  xs_masks :: "u32 \<times> u32 \<times> u32"
  xs_width :: int
  xs_height :: int
  xs_malloc :: bool
  xs_shm_extension :: bool
  xs_shm_image :: bool            \<comment> \<open>\<^verbatim>\<open>XShmCreateImage\<close>\<close>
  xs_shmget :: bool
  xs_shmat :: bool
  xs_shm_attach :: bool

record x_capture =
  xc_screen_w :: int
  xc_screen_h :: int
  xc_out_w :: int
  xc_out_h :: int
  xc_use_shm :: bool

definition visual_supported :: "x_server \<Rightarrow> bool" where
  "visual_supported xs =
     (if \<not> xs_lsb_first xs then False
      else if xs_depth xs \<noteq> 24 \<and> xs_depth xs \<noteq> 32 then False
      else xs_masks xs = (0x00FF0000, 0x0000FF00, 0x000000FF))"

text \<open>The segment is marked for removal (\<^verbatim>\<open>IPC_RMID\<close>) as soon as both sides are attached; that gives it
  back, the mapping alone keeps it alive.\<close>

definition try_setup_shm :: "x_server \<Rightarrow> bool \<times> rd_effect list" where
  "try_setup_shm xs =
     (if \<not> xs_shm_extension xs then (False, [])
      else if \<not> xs_shm_image xs then (False, [])
      else if \<not> xs_shmget xs then (False, [Acquire Res_Image, Release Res_Image])
      else if \<not> xs_shmat xs then
        (False, [Acquire Res_Image, Acquire Res_Segment, Release Res_Segment, Release Res_Image])
      else if \<not> xs_shm_attach xs then
        (False, [Acquire Res_Image, Acquire Res_Segment, Acquire Res_Map,
                 Release Res_Map, Release Res_Segment, Release Res_Image])
      else (True, [Acquire Res_Image, Acquire Res_Segment, Acquire Res_Map, Acquire Res_Attach, Release Res_Segment]))"

definition x_capture_open :: "x_server \<Rightarrow> int \<Rightarrow> int \<Rightarrow> x_capture option \<times> rd_effect list" where
  "x_capture_open xs max_width max_height =
     (if \<not> xs_calloc xs then (None, [])
      else if \<not> xs_display xs then (None, [Acquire Res_Ctx, Release Res_Ctx])
      else if \<not> visual_supported xs then
        (None, [Acquire Res_Ctx, Acquire Res_Display, Release Res_Display, Release Res_Ctx])
      else
        let (out_w, out_h) = leo_rd_compute_output_size (xs_width xs) (xs_height xs) max_width max_height in
        if \<not> xs_malloc xs then
          (None, [Acquire Res_Ctx, Acquire Res_Display, Release Res_Display, Release Res_Ctx])
        else
          let (shm, es) = try_setup_shm xs in
          (Some \<lparr>xc_screen_w = xs_width xs, xc_screen_h = xs_height xs, xc_out_w = out_w, xc_out_h = out_h, xc_use_shm = shm\<rparr>,
           [Acquire Res_Ctx, Acquire Res_Display, Acquire Res_Out_Buf] @ es))"

text \<open>One image of the screen, as \<^verbatim>\<open>XShmGetImage\<close> or \<^verbatim>\<open>XGetImage\<close> delivers it: its bytes and
  \<^verbatim>\<open>bytes_per_line\<close>, or nothing when the call fails.\<close>

type_synonym x_shot = "(bytes \<times> nat) option"

definition x_capture_grab :: "x_capture \<Rightarrow> x_shot \<Rightarrow> rd_picture option \<times> rd_effect list" where
  "x_capture_grab cap shot =
     (case shot of
        None \<Rightarrow> (None, [])
      | Some (data, bytes_per_line) \<Rightarrow>
          (Some \<lparr>fr_width = xc_out_w cap, fr_height = xc_out_h cap,
                 fr_pixels = leo_rd_repack_scale (nat (xc_out_w cap)) (nat (xc_out_h cap)) data
                               (nat (xc_screen_w cap)) (nat (xc_screen_h cap)) bytes_per_line\<rparr>,
           if xc_use_shm cap then [] else [Acquire Res_Image, Release Res_Image]))"

definition x_capture_close :: "x_capture \<Rightarrow> rd_effect list" where
  "x_capture_close cap =
     (if xc_use_shm cap then [Release Res_Attach, Release Res_Image, Release Res_Map] else []) @
     [Release Res_Out_Buf, Release Res_Display, Release Res_Ctx]"

section \<open>Windows\<close>

record win_screen =
  ws_calloc :: bool
  ws_x :: int
  ws_y :: int
  ws_width :: int
  ws_height :: int
  ws_get_dc :: bool
  ws_compatible_dc :: bool
  ws_bitmap :: bool               \<comment> \<open>the handle \<^verbatim>\<open>CreateDIBSection\<close> returns is not NULL\<close>
  ws_bits :: bool                 \<comment> \<open>the address of its pixels is not NULL\<close>
  ws_malloc :: bool

record win_capture =
  wc_virt_x :: int
  wc_virt_y :: int
  wc_virt_w :: int
  wc_virt_h :: int
  wc_out_w :: int
  wc_out_h :: int

definition win_capture_open :: "win_screen \<Rightarrow> int \<Rightarrow> int \<Rightarrow> win_capture option \<times> rd_effect list" where
  "win_capture_open ws max_width max_height =
     (if \<not> ws_calloc ws then (None, [])
      else if ws_width ws \<le> 0 \<or> ws_height ws \<le> 0 then (None, [Acquire Res_Ctx, Release Res_Ctx])
      else if \<not> ws_get_dc ws then (None, [Acquire Res_Ctx, Release Res_Ctx])
      else if \<not> ws_compatible_dc ws then
        (None, [Acquire Res_Ctx, Acquire Res_Screen_DC, Release Res_Screen_DC, Release Res_Ctx])
      else if \<not> ws_bitmap ws \<or> \<not> ws_bits ws then
        (None, [Acquire Res_Ctx, Acquire Res_Screen_DC, Acquire Res_Mem_DC] @ (if ws_bitmap ws then [Acquire Res_Bitmap] else []) @
               [Release Res_Mem_DC, Release Res_Screen_DC, Release Res_Ctx])
      else
        let (out_w, out_h) = leo_rd_compute_output_size (ws_width ws) (ws_height ws) max_width max_height in
        if \<not> ws_malloc ws then
          (None, [Acquire Res_Ctx, Acquire Res_Screen_DC, Acquire Res_Mem_DC, Acquire Res_Bitmap, Acquire Res_Selected,
                  Release Res_Selected, Release Res_Bitmap, Release Res_Mem_DC, Release Res_Screen_DC, Release Res_Ctx])
        else
          (Some \<lparr>wc_virt_x = ws_x ws, wc_virt_y = ws_y ws, wc_virt_w = ws_width ws, wc_virt_h = ws_height ws,
                 wc_out_w = out_w, wc_out_h = out_h\<rparr>,
           [Acquire Res_Ctx, Acquire Res_Screen_DC, Acquire Res_Mem_DC, Acquire Res_Bitmap, Acquire Res_Selected,
            Acquire Res_Out_Buf]))"

text \<open>The pixels of the bitmap after \<^verbatim>\<open>BitBlt\<close>, or nothing when it fails.\<close>

definition win_capture_grab :: "win_capture \<Rightarrow> bytes option \<Rightarrow> rd_picture option \<times> rd_effect list" where
  "win_capture_grab cap shot =
     (case shot of
        None \<Rightarrow> (None, [])
      | Some dib_bits \<Rightarrow>
          let stride = wc_virt_w cap * 4 in
          (Some \<lparr>fr_width = wc_out_w cap, fr_height = wc_out_h cap,
                 fr_pixels = leo_rd_repack_scale (nat (wc_out_w cap)) (nat (wc_out_h cap)) dib_bits
                               (nat (wc_virt_w cap)) (nat (wc_virt_h cap)) (nat stride)\<rparr>, []))"

definition win_capture_close :: "win_capture \<Rightarrow> rd_effect list" where
  "win_capture_close cap =
     [Release Res_Selected, Release Res_Bitmap, Release Res_Mem_DC, Release Res_Screen_DC, Release Res_Out_Buf, Release Res_Ctx]"

section \<open>The contract\<close>

text \<open>A session: open, any number of frames, close.\<close>

definition capture_session ::
  "('env \<Rightarrow> int \<Rightarrow> int \<Rightarrow> 'cap option \<times> rd_effect list) \<Rightarrow> ('cap \<Rightarrow> 'shot \<Rightarrow> rd_picture option \<times> rd_effect list) \<Rightarrow>
   ('cap \<Rightarrow> rd_effect list) \<Rightarrow> 'env \<Rightarrow> int \<Rightarrow> int \<Rightarrow> 'shot list \<Rightarrow> rd_effect list" where
  "capture_session open_capture grab close_capture e mw mh shots =
     (case open_capture e mw mh of
        (None, es) \<Rightarrow> es
      | (Some c, es) \<Rightarrow> es @ concat (map (\<lambda>s. snd (grab c s)) shots) @ close_capture c)"

text \<open>\<open>env_ok\<close> and \<open>shot_ok\<close> say what the windowing system documents; \<open>held\<close> is what an open capture keeps.\<close>

locale capture_backend =
  fixes open_capture :: "'env \<Rightarrow> int \<Rightarrow> int \<Rightarrow> 'cap option \<times> rd_effect list"
    and grab :: "'cap \<Rightarrow> 'shot \<Rightarrow> rd_picture option \<times> rd_effect list"
    and close_capture :: "'cap \<Rightarrow> rd_effect list"
    and env_ok :: "'env \<Rightarrow> bool"
    and shot_ok :: "'cap \<Rightarrow> 'shot \<Rightarrow> bool"
    and held :: "'cap \<Rightarrow> rd_resource list"
    and sizes_ok :: "int \<Rightarrow> int \<Rightarrow> 'cap \<Rightarrow> bool"
  assumes open_failed: "env_ok e \<Longrightarrow> open_capture e mw mh = (None, es) \<Longrightarrow> account [] es = Some []"
    and open_held: "open_capture e mw mh = (Some c, es) \<Longrightarrow> account [] es = Some (held c)"
    and open_sizes: "env_ok e \<Longrightarrow> open_capture e mw mh = (Some c, es) \<Longrightarrow> 1 \<le> mw \<Longrightarrow> mw < 2 ^ 31 \<Longrightarrow> 1 \<le> mh \<Longrightarrow> mh < 2 ^ 31 \<Longrightarrow> sizes_ok mw mh c"
    and grab_held: "account (held c) (snd (grab c s)) = Some (held c)"
    and grab_frame: "sizes_ok mw mh c \<Longrightarrow> shot_ok c s \<Longrightarrow> grab c s = (Some f, es) \<Longrightarrow>
          1 \<le> fr_width f \<and> fr_width f \<le> mw \<and> 1 \<le> fr_height f \<and> fr_height f \<le> mh \<and>
          int (length (fr_pixels f)) = fr_width f * fr_height f * 4"
    and close_held: "account (held c) (close_capture c) = Some []"
begin

lemma grabs_held: "account (held c) (concat (map (\<lambda>s. snd (grab c s)) shots)) = Some (held c)"
  by (induction shots) (simp_all add: account_append grab_held)

lemma session_balanced: "env_ok e \<Longrightarrow> account [] (capture_session open_capture grab close_capture e mw mh shots) = Some []"
  by (auto simp: capture_session_def account_append open_held grabs_held close_held dest: open_failed split: prod.splits option.splits)

lemma session_frames:
  assumes "env_ok e" "open_capture e mw mh = (Some c, es)" "1 \<le> mw" "mw < 2 ^ 31" "1 \<le> mh" "mh < 2 ^ 31"
    and "shot_ok c s" "grab c s = (Some f, es')"
  shows "1 \<le> fr_width f \<and> fr_width f \<le> mw \<and> 1 \<le> fr_height f \<and> fr_height f \<le> mh \<and>
         int (length (fr_pixels f)) = fr_width f * fr_height f * 4"
  using grab_frame [OF open_sizes [OF assms(1-6)] assms(7,8)] .

end

section \<open>Both systems keep it\<close>

text \<open>A picture of \<open>w\<close> by \<open>h\<close> pixels of four bytes, with possibly padded lines.\<close>

definition picture_ok :: "int \<Rightarrow> int \<Rightarrow> bytes \<Rightarrow> nat \<Rightarrow> bool" where
  "picture_ok w h data stride \<longleftrightarrow> nat w * 4 \<le> stride \<and> length data = nat h * stride"

lemma picture_repacked:
  assumes "picture_ok w h data stride" "1 \<le> w" "1 \<le> h" "1 \<le> ow" "1 \<le> oh"
  shows "int (length (leo_rd_repack_scale (nat ow) (nat oh) data (nat w) (nat h) stride)) = ow * oh * 4"
proof -
  have "(nat h - 1) * stride + nat w * 4 \<le> nat h * stride"
  proof -
    obtain n where "nat h = Suc n" using assms(3) by (cases "nat h") auto
    then have "nat h * stride = (nat h - 1) * stride + stride" by simp
    with assms(1) show ?thesis by (simp add: picture_ok_def)
  qed
  then have "length (leo_rd_repack_scale (nat ow) (nat oh) data (nat w) (nat h) stride) = nat ow * nat oh * 4"
    using assms by (intro repack_length) (auto simp: picture_ok_def)
  with assms show ?thesis by simp
qed

definition x_env_ok :: "x_server \<Rightarrow> bool" where
  "x_env_ok xs \<longleftrightarrow> 1 \<le> xs_width xs \<and> 1 \<le> xs_height xs"

definition x_shot_ok :: "x_capture \<Rightarrow> x_shot \<Rightarrow> bool" where
  "x_shot_ok cap shot \<longleftrightarrow> (case shot of None \<Rightarrow> True | Some (data, stride) \<Rightarrow> picture_ok (xc_screen_w cap) (xc_screen_h cap) data stride)"

definition x_held :: "x_capture \<Rightarrow> rd_resource list" where
  "x_held cap = (if xc_use_shm cap then [Res_Attach, Res_Map, Res_Image] else []) @ [Res_Out_Buf, Res_Display, Res_Ctx]"

definition x_sizes_ok :: "int \<Rightarrow> int \<Rightarrow> x_capture \<Rightarrow> bool" where
  "x_sizes_ok mw mh cap \<longleftrightarrow> 1 \<le> xc_screen_w cap \<and> 1 \<le> xc_screen_h cap \<and>
     1 \<le> xc_out_w cap \<and> xc_out_w cap \<le> mw \<and> 1 \<le> xc_out_h cap \<and> xc_out_h cap \<le> mh"

text \<open>\<^verbatim>\<open>CreateDIBSection\<close> returns a bitmap and its pixels, or neither.\<close>

definition win_env_ok :: "win_screen \<Rightarrow> bool" where
  "win_env_ok ws \<longleftrightarrow> ws_bitmap ws = ws_bits ws"

definition win_shot_ok :: "win_capture \<Rightarrow> bytes option \<Rightarrow> bool" where
  "win_shot_ok cap shot \<longleftrightarrow>
     (case shot of None \<Rightarrow> True | Some bits \<Rightarrow> picture_ok (wc_virt_w cap) (wc_virt_h cap) bits (nat (wc_virt_w cap * 4)))"

definition win_held :: "win_capture \<Rightarrow> rd_resource list" where
  "win_held cap = [Res_Out_Buf, Res_Selected, Res_Bitmap, Res_Mem_DC, Res_Screen_DC, Res_Ctx]"

definition win_sizes_ok :: "int \<Rightarrow> int \<Rightarrow> win_capture \<Rightarrow> bool" where
  "win_sizes_ok mw mh cap \<longleftrightarrow> 1 \<le> wc_virt_w cap \<and> 1 \<le> wc_virt_h cap \<and>
     1 \<le> wc_out_w cap \<and> wc_out_w cap \<le> mw \<and> 1 \<le> wc_out_h cap \<and> wc_out_h cap \<le> mh"

interpretation xcap: capture_backend x_capture_open x_capture_grab x_capture_close x_env_ok x_shot_ok x_held x_sizes_ok
proof
  fix e mw mh es c s f
  show "x_env_ok e \<Longrightarrow> x_capture_open e mw mh = (None, es) \<Longrightarrow> account [] es = Some []"
    by (auto simp: x_capture_open_def try_setup_shm_def split: if_splits prod.splits)
  show "x_capture_open e mw mh = (Some c, es) \<Longrightarrow> account [] es = Some (x_held c)"
    by (auto simp: x_capture_open_def try_setup_shm_def x_held_def split: if_splits prod.splits)
  show "x_env_ok e \<Longrightarrow> x_capture_open e mw mh = (Some c, es) \<Longrightarrow> 1 \<le> mw \<Longrightarrow> mw < 2 ^ 31 \<Longrightarrow> 1 \<le> mh \<Longrightarrow> mh < 2 ^ 31 \<Longrightarrow> x_sizes_ok mw mh c"
    using output_size_bounds [of "xs_width e" "xs_height e" mw mh]
    by (auto simp: x_capture_open_def x_env_ok_def x_sizes_ok_def split: if_splits prod.splits)
  show "account (x_held c) (snd (x_capture_grab c s)) = Some (x_held c)"
    by (auto simp: x_capture_grab_def x_held_def split: option.splits)
  show "account (x_held c) (x_capture_close c) = Some []"
    by (simp add: x_held_def x_capture_close_def)
  show "x_sizes_ok mw mh c \<Longrightarrow> x_shot_ok c s \<Longrightarrow> x_capture_grab c s = (Some f, es) \<Longrightarrow>
      1 \<le> fr_width f \<and> fr_width f \<le> mw \<and> 1 \<le> fr_height f \<and> fr_height f \<le> mh \<and>
      int (length (fr_pixels f)) = fr_width f * fr_height f * 4"
    using picture_repacked [of "xc_screen_w c" "xc_screen_h c"]
    by (auto simp: x_capture_grab_def x_sizes_ok_def x_shot_ok_def split: option.splits)
qed

interpretation wincap: capture_backend win_capture_open win_capture_grab win_capture_close win_env_ok win_shot_ok win_held win_sizes_ok
proof
  fix e mw mh es c s f
  show "win_env_ok e \<Longrightarrow> win_capture_open e mw mh = (None, es) \<Longrightarrow> account [] es = Some []"
    by (auto simp: win_capture_open_def win_env_ok_def split: if_splits prod.splits)
  show "win_capture_open e mw mh = (Some c, es) \<Longrightarrow> account [] es = Some (win_held c)"
    by (auto simp: win_capture_open_def win_held_def split: if_splits prod.splits)
  show "win_env_ok e \<Longrightarrow> win_capture_open e mw mh = (Some c, es) \<Longrightarrow> 1 \<le> mw \<Longrightarrow> mw < 2 ^ 31 \<Longrightarrow> 1 \<le> mh \<Longrightarrow> mh < 2 ^ 31 \<Longrightarrow> win_sizes_ok mw mh c"
    using output_size_bounds [of "ws_width e" "ws_height e" mw mh]
    by (auto simp: win_capture_open_def win_sizes_ok_def split: if_splits prod.splits)
  show "account (win_held c) (snd (win_capture_grab c s)) = Some (win_held c)"
    by (simp add: win_capture_grab_def Let_def split: option.splits)
  show "account (win_held c) (win_capture_close c) = Some []"
    by (simp add: win_held_def win_capture_close_def)
  show "win_sizes_ok mw mh c \<Longrightarrow> win_shot_ok c s \<Longrightarrow> win_capture_grab c s = (Some f, es) \<Longrightarrow>
      1 \<le> fr_width f \<and> fr_width f \<le> mw \<and> 1 \<le> fr_height f \<and> fr_height f \<le> mh \<and>
      int (length (fr_pixels f)) = fr_width f * fr_height f * 4"
    using picture_repacked [of "wc_virt_w c" "wc_virt_h c"]
    by (auto simp: win_capture_grab_def win_sizes_ok_def win_shot_ok_def Let_def split: option.splits)
qed


text \<open>every frame either system delivers has exactly the bytes of its size, and the size is within
  what the session asked for, provided the image of the screen has four bytes per pixel.\<close>

theorem captured_frames_fit:
  assumes "1 \<le> mw" "mw < 2 ^ 31" "1 \<le> mh" "mh < 2 ^ 31"
    and "x_env_ok xs \<and> x_capture_open xs mw mh = (Some c, es) \<and> x_shot_ok c s \<and> x_capture_grab c s = (Some f, es') \<or>
         win_env_ok ws \<and> win_capture_open ws mw mh = (Some wc, es) \<and> win_shot_ok wc b \<and> win_capture_grab wc b = (Some f, es')"
  shows "1 \<le> fr_width f \<and> fr_width f \<le> mw \<and> 1 \<le> fr_height f \<and> fr_height f \<le> mh \<and>
         int (length (fr_pixels f)) = fr_width f * fr_height f * 4"
  using assms xcap.session_frames [of xs mw mh c es s f es'] wincap.session_frames [of ws mw mh wc es b f es'] by blast

text \<open>The check of the visual looks at its depth and masks, not at the bytes of a pixel: a server that
  stores depth 24 in three bytes passes it, and its image is read past its end.\<close>

theorem packed_pixels_pass:
  "\<exists>c. x_capture_open \<lparr>xs_calloc = True, xs_display = True, xs_lsb_first = True, xs_depth = 24,
       xs_masks = (0x00FF0000, 0x0000FF00, 0x000000FF), xs_width = 2, xs_height = 1, xs_malloc = True,
       xs_shm_extension = False, xs_shm_image = False, xs_shmget = False, xs_shmat = False, xs_shm_attach = False\<rparr> 640 480 =
     (Some c, [Acquire Res_Ctx, Acquire Res_Display, Acquire Res_Out_Buf]) \<and>
     length (fr_pixels (the (fst (x_capture_grab c (Some ([1, 2, 3, 4, 5, 6], 6)))))) < 2 * 1 * 4"
  by (simp add: x_capture_open_def visual_supported_def leo_rd_compute_output_size_def try_setup_shm_def x_capture_grab_def
      leo_rd_repack_scale_def copy_at_def)

section \<open>Sample sessions\<close>

definition demo_xs :: x_server where
  "demo_xs = \<lparr>xs_calloc = True, xs_display = True, xs_lsb_first = True, xs_depth = 24,
     xs_masks = (0x00FF0000, 0x0000FF00, 0x000000FF), xs_width = 1, xs_height = 1, xs_malloc = True,
     xs_shm_extension = True, xs_shm_image = True, xs_shmget = True, xs_shmat = True, xs_shm_attach = True\<rparr>"

definition demo_ws :: win_screen where
  "demo_ws = \<lparr>ws_calloc = True, ws_x = 0, ws_y = 0, ws_width = 1, ws_height = 1, ws_get_dc = True, ws_compatible_dc = True,
     ws_bitmap = True, ws_bits = True, ws_malloc = False\<rparr>"


theorem captured_frames_fit_witness:
  "\<exists>c es f. x_capture_open demo_xs 640 480 = (Some c, es) \<and> x_capture_grab c (Some ([1, 2, 3, 4], 4)) = (Some f, []) \<and>
     fr_width f \<le> 640 \<and> int (length (fr_pixels f)) = fr_width f * fr_height f * 4"
proof -
  obtain c es where c: "x_capture_open demo_xs 640 480 = (Some c, es)" "xc_use_shm c" "xc_screen_w c = 1" "xc_screen_h c = 1"
    by (simp add: demo_xs_def x_capture_open_def visual_supported_def try_setup_shm_def leo_rd_compute_output_size_def)
  obtain f where f: "x_capture_grab c (Some ([1, 2, 3, 4], 4)) = (Some f, [])" using c(2) by (simp add: x_capture_grab_def)
  have "x_env_ok demo_xs" "x_shot_ok c (Some ([1, 2, 3, 4], 4))"
    using c by (simp_all add: x_env_ok_def demo_xs_def x_shot_ok_def picture_ok_def)
  with captured_frames_fit [of 640 480 demo_xs c es "Some ([1, 2, 3, 4], 4)" f "[]"] c f show ?thesis by auto
qed

end
