(* ===== verification/Executor_Win.thy ===== *)
theory Executor_Win
  imports Executor
begin

text \<open>
  \<^verbatim>\<open>agent/platform/windows/executor_win.c\<close>: the same public functions as the Linux executor, on
  \<^verbatim>\<open>CreateProcess\<close>. The command line is built in a buffer with its position, as the code does; the
  answers of the system are the record \<open>win_env\<close>. Handles, the environment block and the reader threads
  are effects, counted by \<open>account\<close>; \<open>Reap\<close> stands for the closing of the process handle. A wait or a
  reader that never returns makes the value \<open>None\<close>.
\<close>

section \<open>The command line\<close>

definition BSLASH :: char where "BSLASH = CHR 0x5C"
definition DQUOTE :: char where "DQUOTE = CHR 0x22"
definition HTAB :: char where "HTAB = CHR 0x09"
definition BLANK :: char where "BLANK = CHR '' ''"

lemmas cmd_chars = BSLASH_def DQUOTE_def HTAB_def BLANK_def

lemma cmd_chars_distinct [simp]:
  "BSLASH \<noteq> DQUOTE" "DQUOTE \<noteq> BSLASH" "BSLASH \<noteq> BLANK" "BLANK \<noteq> BSLASH" "BSLASH \<noteq> HTAB" "HTAB \<noteq> BSLASH"
  "DQUOTE \<noteq> BLANK" "BLANK \<noteq> DQUOTE" "DQUOTE \<noteq> HTAB" "HTAB \<noteq> DQUOTE"
  by (simp_all add: cmd_chars)

definition LEO_EXEC_CMDLINE_MAX :: nat where "LEO_EXEC_CMDLINE_MAX = 32768"

text \<open>The bytes written so far and \<^verbatim>\<open>*pos\<close>; the guarded \<^verbatim>\<open>dest[(*pos)++] = c\<close>.\<close>

type_synonym cl_state = "string \<times> nat"

fun put_char :: "nat \<Rightarrow> char \<Rightarrow> cl_state \<Rightarrow> cl_state" where
  "put_char sz c (dest, pos) = (if pos < sz then (dest @ [c], pos + 1) else (dest, pos))"

fun put_chars :: "nat \<Rightarrow> nat \<Rightarrow> char \<Rightarrow> cl_state \<Rightarrow> cl_state" where
  "put_chars sz 0 c st = st"
| "put_chars sz (Suc n) c st = put_chars sz n c (put_char sz c st)"

definition needs_quotes :: "cstring \<Rightarrow> bool" where
  "needs_quotes arg \<longleftrightarrow> arg = [] \<or> list_ex (\<lambda>c. c = BLANK \<or> c = HTAB \<or> c = DQUOTE) arg"

text \<open>The loop over the characters; the number is \<^verbatim>\<open>backslashes\<close>.\<close>

fun quoted_loop :: "nat \<Rightarrow> cstring \<Rightarrow> nat \<Rightarrow> cl_state \<Rightarrow> nat \<times> cl_state" where
  "quoted_loop sz [] n st = (n, st)"
| "quoted_loop sz (c # p) n st =
     (if c = BSLASH then quoted_loop sz p (n + 1) st
      else if c = DQUOTE then quoted_loop sz p 0 (put_char sz DQUOTE (put_chars sz (n * 2 + 1) BSLASH st))
      else quoted_loop sz p 0 (put_char sz c (put_chars sz n BSLASH st)))"

definition append_quoted_arg :: "nat \<Rightarrow> cl_state \<Rightarrow> cstring \<Rightarrow> cl_state" where
  "append_quoted_arg sz st arg =
     (let st = (if 0 < snd st then put_char sz BLANK st else st) in
      if \<not> needs_quotes arg
      then (if snd st + length arg < sz then (fst st @ arg, snd st + length arg) else (fst st, sz))
      else let (n, st) = quoted_loop sz arg 0 (put_char sz DQUOTE st)
           in put_char sz DQUOTE (put_chars sz (n * 2) BSLASH st))"

definition build_cmdline :: "nat \<Rightarrow> cstring list \<Rightarrow> cstring option" where
  "build_cmdline sz argv =
     (let st = foldl (append_quoted_arg sz) ([], 0) argv in if sz \<le> snd st then None else Some (fst st))"

section \<open>The environment and the output\<close>

text \<open>Where the block of \<^verbatim>\<open>GetEnvironmentStrings\<close> has its two NULs; \<open>None\<close> when it has none.\<close>

fun double_nul :: "string \<Rightarrow> nat option" where
  "double_nul (a # b # s) = (if a = NUL \<and> b = NUL then Some 0 else map_option Suc (double_nul (b # s)))"
| "double_nul _ = None"

text \<open>The inner \<open>None\<close> is NULL: the environment is inherited.\<close>

definition build_env_block :: "string option \<Rightarrow> bool \<Rightarrow> cstring list \<Rightarrow> string option option" where
  "build_env_block environ malloc_ok extra_env =
     (if extra_env = [] then Some None
      else case environ of
        None \<Rightarrow> Some None
      | Some base \<Rightarrow>
          (case double_nul base of
             None \<Rightarrow> None
           | Some i \<Rightarrow>
               if \<not> malloc_ok then Some None
               else Some (Some (take (i + 1) base @ concat (map (\<lambda>s. s @ [NUL]) extra_env) @ [NUL]))))"

text \<open>One entry per \<^verbatim>\<open>ReadFile\<close>: the bytes read, or a failure (the pipe is closed).\<close>

fun reader_thread :: "nat \<Rightarrow> string \<Rightarrow> string option list \<Rightarrow> string option" where
  "reader_thread buf_max buf [] = None"
| "reader_thread buf_max buf (None # rs) = Some buf"
| "reader_thread buf_max buf (Some chunk # rs) =
     (if chunk = [] then Some buf
      else reader_thread buf_max
             (if length buf < buf_max - 1 then buf @ take (buf_max - 1 - length buf) chunk else buf) rs)"

section \<open>Running a child\<close>

datatype win_handle = H_Stdout_R | H_Stdout_W | H_Stderr_R | H_Stderr_W | H_Nul | H_Env_Block
  | H_Process | H_Thread | H_Out_Reader | H_Err_Reader

datatype wait_rc = Wait_Object | Wait_Timeout | Wait_Failed

record win_env =
  we_pipe_out :: bool
  we_pipe_err :: bool
  we_nul :: bool
  we_environ :: "string option"
  we_malloc :: bool
  we_create_process :: bool
  we_out_thread :: bool
  we_err_thread :: bool
  we_out :: "string option list"
  we_err :: "string option list"
  we_wait :: "u32 \<Rightarrow> wait_rc option"   \<comment> \<open>\<^verbatim>\<open>WaitForSingleObject\<close>; \<open>None\<close>: it never returns\<close>
  we_exit :: u32
  we_temp_path :: "cstring option"
  we_pid :: u32
  we_counter :: u32
  we_tick :: u32
  we_fopen :: bool
  we_written :: bool

definition INFINITE :: u32 where "INFINITE = 0xFFFFFFFF"

definition wait_ms :: "int \<Rightarrow> u32" where
  "wait_ms timeout_secs = (if 0 < timeout_secs then word_of_int timeout_secs * 1000 else INFINITE)"

definition captured :: "bool \<Rightarrow> nat \<Rightarrow> string option list \<Rightarrow> string option" where
  "captured thread_ok buf_max rs = (if thread_ok then reader_thread buf_max [] rs else Some [])"

definition win_run_child ::
  "win_env \<Rightarrow> cstring \<Rightarrow> cstring list \<Rightarrow> int \<Rightarrow>
   (leo_error \<times> leo_exec_result \<times> exec_effect list \<times> win_handle res_effect list) option" where
  "win_run_child env cmdline extra_env timeout_secs =
     (let result = \<lparr>exit_code = - 1, stdout_buf = [], stderr_buf = []\<rparr> in
      if \<not> we_pipe_out env then Some (LEO_ERR_SYSTEM, result, [], [])
      else if \<not> we_pipe_err env then
        Some (LEO_ERR_SYSTEM, result, [],
              [Acquire H_Stdout_R, Acquire H_Stdout_W, Release H_Stdout_R, Release H_Stdout_W])
      else
        case build_env_block (we_environ env) (we_malloc env) extra_env of
          None \<Rightarrow> None
        | Some block \<Rightarrow>
            let opened = [Acquire H_Stdout_R, Acquire H_Stdout_W, Acquire H_Stderr_R, Acquire H_Stderr_W] @
                  (if we_nul env then [Acquire H_Nul] else []) @ (if block \<noteq> None then [Acquire H_Env_Block] else []);
                closed = [Release H_Stdout_W, Release H_Stderr_W] @ (if we_nul env then [Release H_Nul] else []) @
                  (if block \<noteq> None then [Release H_Env_Block] else [])
            in
            if \<not> we_create_process env then
              Some (LEO_ERR_SYSTEM, result, [], opened @ closed @ [Release H_Stdout_R, Release H_Stderr_R])
            else
              case we_wait env (wait_ms timeout_secs) of
                None \<Rightarrow> None
              | Some rc \<Rightarrow>
                  (case (captured (we_out_thread env) LEO_EXEC_STDOUT_MAX (we_out env),
                         captured (we_err_thread env) LEO_EXEC_STDERR_MAX (we_err env)) of
                     (Some so, Some se) \<Rightarrow>
                       Some (if rc = Wait_Timeout then LEO_ERR_TIMEOUT else LEO_OK,
                             \<lparr>exit_code = sint (we_exit env), stdout_buf = so, stderr_buf = se\<rparr>,
                             Spawn [cmdline] (case block of None \<Rightarrow> [] | Some b \<Rightarrow> [b]) #
                               (if rc = Wait_Timeout then [Sigkill] else []) @ [Reap],
                             opened @ [Acquire H_Process, Acquire H_Thread] @ closed @ [Release H_Thread] @
                               (if we_out_thread env then [Acquire H_Out_Reader] else []) @
                               (if we_err_thread env then [Acquire H_Err_Reader] else []) @
                               (if we_out_thread env then [Release H_Out_Reader] else []) @
                               (if we_err_thread env then [Release H_Err_Reader] else []) @
                               [Release H_Process, Release H_Stdout_R, Release H_Stderr_R])
                   | _ \<Rightarrow> None))"

section \<open>The public functions\<close>

definition WIN_ALLOWED_INTERPRETERS :: "cstring list" where
  "WIN_ALLOWED_INTERPRETERS = [''cmd'', ''powershell'']"

definition win_interpreter_allowed :: "cstring option \<Rightarrow> bool" where
  "win_interpreter_allowed interp = (case interp of None \<Rightarrow> False | Some s \<Rightarrow> list_ex ((=) s) WIN_ALLOWED_INTERPRETERS)"

definition WIN_MAX_PATH :: nat where "WIN_MAX_PATH = 260"

fun hex_digits :: "nat \<Rightarrow> nat \<Rightarrow> string" where
  "hex_digits 0 n = []"
| "hex_digits (Suc k) n = hex_digits k (n div 16) @ [hex_digit (n mod 16)]"

text \<open>\<^verbatim>\<open>%08lx\<close> and \<^verbatim>\<open>%04lx\<close> of a 32-bit number: eight digits, of which those above the fourth are left out
  when they are leading zeros.\<close>

definition hex8 :: "u32 \<Rightarrow> string" where "hex8 w = hex_digits 8 (unat w)"

definition hex4 :: "u32 \<Rightarrow> string" where
  "hex4 w = (let s = hex_digits 8 (unat w) in dropWhile ((=) (CHR ''0'')) (take 4 s) @ drop 4 s)"

definition temp_path :: "win_env \<Rightarrow> cstring \<Rightarrow> cstring \<Rightarrow> cstring" where
  "temp_path env dir ext =
     strncpy_buf WIN_MAX_PATH (dir @ ''leo_exec_'' @ hex8 (we_pid env) @ ''_'' @ hex4 (we_counter env) @ ''_'' @ hex8 (we_tick env) @ ext)"

definition win_write_script_tmp :: "win_env \<Rightarrow> cstring \<Rightarrow> cstring \<Rightarrow> cstring option \<times> exec_effect list" where
  "win_write_script_tmp env script ext =
     (case we_temp_path env of
        None \<Rightarrow> (None, [])
      | Some dir \<Rightarrow>
          if dir = [] \<or> WIN_MAX_PATH \<le> length dir then (None, [])
          else let path = temp_path env dir ext in
            if \<not> we_fopen env then (None, [])
            else if \<not> we_written env then (None, [Make_Temp path script, Unlink path])
            else (Some path, [Make_Temp path script]))"

definition script_argv :: "bool \<Rightarrow> cstring \<Rightarrow> cstring list" where
  "script_argv is_powershell tmppath =
     (if is_powershell then [''powershell.exe'', ''-NoProfile'', ''-ExecutionPolicy'', ''Bypass'', ''-File'', tmppath]
      else [''cmd.exe'', ''/c'', tmppath])"

definition win_exec_script ::
  "win_env \<Rightarrow> cstring option \<Rightarrow> cstring option \<Rightarrow> int \<Rightarrow> leo_exec_result \<Rightarrow>
   (leo_error \<times> leo_exec_result \<times> exec_effect list \<times> win_handle res_effect list) option" where
  "win_exec_script env interpreter script timeout_secs result =
     (case (interpreter, script) of
        (Some interp, Some src) \<Rightarrow>
          if \<not> win_interpreter_allowed interpreter then Some (LEO_ERR_PROTOCOL, result, [], [])
          else let is_powershell = (interp = ''powershell'');
                   ext = (if is_powershell then ''.ps1'' else ''.bat'') in
            (case win_write_script_tmp env src ext of
               (None, eff) \<Rightarrow> Some (LEO_ERR_SYSTEM, result, eff, [])
             | (Some path, eff) \<Rightarrow>
                 (case build_cmdline LEO_EXEC_CMDLINE_MAX (script_argv is_powershell path) of
                    None \<Rightarrow> Some (LEO_ERR_SYSTEM, result, eff @ [Unlink path], [])
                  | Some cmdline \<Rightarrow>
                      (case win_run_child env cmdline [] timeout_secs of
                         None \<Rightarrow> None
                       | Some (ret, r, eff', hs) \<Rightarrow> Some (ret, r, eff @ eff' @ [Unlink path], hs))))
      | _ \<Rightarrow> Some (LEO_ERR_SYSTEM, result, [], []))"

definition win_exec_argv ::
  "win_env \<Rightarrow> cstring list \<Rightarrow> cstring list \<Rightarrow> int \<Rightarrow> leo_exec_result \<Rightarrow>
   (leo_error \<times> leo_exec_result \<times> exec_effect list \<times> win_handle res_effect list) option" where
  "win_exec_argv env argv extra_env timeout_secs result =
     (if argv = [] then Some (LEO_ERR_SYSTEM, result, [], [])
      else case build_cmdline LEO_EXEC_CMDLINE_MAX argv of
        None \<Rightarrow> Some (LEO_ERR_SYSTEM, result, [], [])
      | Some cmdline \<Rightarrow> win_run_child env cmdline extra_env timeout_secs)"

section \<open>What a command line says\<close>

text \<open>The reference: the line as a function of the arguments, with no buffer.\<close>

fun quoted_body :: "nat \<Rightarrow> cstring \<Rightarrow> cstring" where
  "quoted_body n [] = replicate (2 * n) BSLASH"
| "quoted_body n (c # s) =
     (if c = BSLASH then quoted_body (n + 1) s
      else if c = DQUOTE then replicate (2 * n + 1) BSLASH @ DQUOTE # quoted_body 0 s
      else replicate n BSLASH @ c # quoted_body 0 s)"

definition quote_arg :: "cstring \<Rightarrow> cstring" where
  "quote_arg arg = (if needs_quotes arg then DQUOTE # quoted_body 0 arg @ [DQUOTE] else arg)"

definition command_line :: "cstring list \<Rightarrow> cstring" where
  "command_line argv = foldl (\<lambda>s a. (if s = [] then [] else s @ [BLANK]) @ quote_arg a) [] argv"

text \<open>A state of the buffer that stands for the text \<open>s\<close>: the text itself while it fits, a full buffer
  otherwise.\<close>

definition holds_line :: "nat \<Rightarrow> cstring \<Rightarrow> cl_state \<Rightarrow> bool" where
  "holds_line sz s st \<longleftrightarrow> (if length s < sz then st = (s, length s) else snd st = sz)"

lemma put_char_holds: "holds_line sz s st \<Longrightarrow> holds_line sz (s @ [c]) (put_char sz c st)"
  by (cases st) (auto simp: holds_line_def split: if_splits)

lemma put_chars_holds: "holds_line sz s st \<Longrightarrow> holds_line sz (s @ replicate n c) (put_chars sz n c st)"
proof (induction n arbitrary: s st)
  case (Suc n)
  from Suc.IH [OF put_char_holds [OF Suc.prems]] show ?case by (simp add: replicate_append_same)
qed simp

lemma quoted_loop_holds:
  assumes "holds_line sz s st" "quoted_loop sz p n st = (m, st')"
  shows "holds_line sz (s @ quoted_body n p) (put_chars sz (m * 2) BSLASH st')"
  using assms
proof (induction sz p n st arbitrary: s rule: quoted_loop.induct)
  case (1 sz n st)
  then show ?case using put_chars_holds [of sz s st "n * 2" BSLASH] by (simp add: mult.commute)
next
  case (2 sz c p n st)
  show ?case
  proof (cases "c = BSLASH")
    case True
    with 2 show ?thesis by simp
  next
    case False
    have "holds_line sz (s @ replicate (n * 2 + 1) BSLASH @ [DQUOTE]) (put_char sz DQUOTE (put_chars sz (n * 2 + 1) BSLASH st))"
      "holds_line sz (s @ replicate n BSLASH @ [c]) (put_char sz c (put_chars sz n BSLASH st))"
      using put_char_holds [OF put_chars_holds [OF "2.prems"(1)]] by (metis append.assoc)+
    with False 2 show ?thesis by (cases "c = DQUOTE") (force simp: mult.commute)+
  qed
qed

lemma append_plain_holds:
  "holds_line sz s st \<Longrightarrow>
   holds_line sz (s @ a) (if snd st + length a < sz then (fst st @ a, snd st + length a) else (fst st, sz))"
  by (cases st) (auto simp: holds_line_def split: if_splits)

lemma append_quoted_arg_holds:
  assumes "holds_line sz s st" "0 < sz"
  shows "holds_line sz ((if s = [] then [] else s @ [BLANK]) @ quote_arg a) (append_quoted_arg sz st a)"
proof -
  let ?s = "if s = [] then [] else s @ [BLANK]"
  let ?st = "if 0 < snd st then put_char sz BLANK st else st"
  have st: "holds_line sz ?s ?st"
    using assms put_char_holds [OF assms(1), of BLANK] by (auto simp: holds_line_def split: if_splits)
  show ?thesis
  proof (cases "needs_quotes a")
    case True
    obtain n st' where q: "quoted_loop sz a 0 (put_char sz DQUOTE ?st) = (n, st')" by (rule prod.exhaust)
    from put_char_holds [OF quoted_loop_holds [OF put_char_holds [OF st] q]] True q show ?thesis
      by (simp add: append_quoted_arg_def quote_arg_def)
  next
    case False
    then show ?thesis using append_plain_holds [OF st, of a] by (simp only: append_quoted_arg_def quote_arg_def Let_def if_True if_False not_False_eq_True)
  qed
qed

lemma build_cmdline_eq:
  assumes "0 < sz"
  shows "build_cmdline sz argv = (if length (command_line argv) < sz then Some (command_line argv) else None)"
proof -
  have "holds_line sz (foldl (\<lambda>s a. (if s = [] then [] else s @ [BLANK]) @ quote_arg a) s argv) (foldl (append_quoted_arg sz) st argv)"
    if "holds_line sz s st" for s st
    using that
  proof (induction argv arbitrary: s st)
    case (Cons a argv)
    from Cons.IH [OF append_quoted_arg_holds [OF Cons.prems assms]] show ?case by simp
  qed simp
  from this [of "[]" "([], 0)"] assms
  have "holds_line sz (command_line argv) (foldl (append_quoted_arg sz) ([], 0) argv)"
    by (simp add: command_line_def holds_line_def)
  then show ?thesis by (auto simp: build_cmdline_def holds_line_def Let_def split: if_splits)
qed

text \<open>How a program reads its arguments, by the rules \<^verbatim>\<open>CommandLineToArgvW\<close> documents: blanks and tabs
  separate outside quotes; \<open>2 n\<close> backslashes and a quote are \<open>n\<close> backslashes and open or close a quoted
  part, \<open>2 n + 1\<close> are \<open>n\<close> backslashes and a quote; other backslashes stand for themselves. The argument
  being read is \<open>None\<close> between arguments. The program's name ends at the first blank or tab.\<close>

fun read_args :: "bool \<Rightarrow> nat \<Rightarrow> cstring option \<Rightarrow> cstring \<Rightarrow> cstring list" where
  "read_args q n None [] = []"
| "read_args q n (Some a) [] = [a @ replicate n BSLASH]"
| "read_args q n cur (c # s) =
     (let a = (case cur of None \<Rightarrow> [] | Some a \<Rightarrow> a) in
      if c = BSLASH then read_args q (n + 1) (Some a) s
      else if c = DQUOTE then
        (if even n then read_args (\<not> q) 0 (Some (a @ replicate (n div 2) BSLASH)) s
         else read_args q 0 (Some (a @ replicate (n div 2) BSLASH @ [DQUOTE])) s)
      else if (c = BLANK \<or> c = HTAB) \<and> \<not> q then
        (case cur of None \<Rightarrow> read_args q 0 None s | Some _ \<Rightarrow> (a @ replicate n BSLASH) # read_args q 0 None s)
      else read_args q 0 (Some (a @ replicate n BSLASH @ [c])) s)"

definition documented_argv :: "cstring \<Rightarrow> cstring list" where
  "documented_argv line =
     (let sep = (\<lambda>c. c = BLANK \<or> c = HTAB) in takeWhile (\<lambda>c. \<not> sep c) line # read_args False 0 None (dropWhile (\<lambda>c. \<not> sep c) line))"

lemma backslashes_shift: "replicate n BSLASH @ BSLASH # s = replicate (Suc n) BSLASH @ s"
  by (induction n) simp_all

lemma read_backslashes: "read_args q n (Some a) (replicate k BSLASH @ s) = read_args q (n + k) (Some a) s"
  by (induction k arbitrary: n) simp_all

lemma read_quoted: "read_args True 0 (Some a) (quoted_body n s @ DQUOTE # r) = read_args False 0 (Some (a @ replicate n BSLASH @ s)) r"
proof (induction n s arbitrary: a rule: quoted_body.induct)
  case (2 n c s)
  then show ?case by (auto simp: read_backslashes backslashes_shift simp del: replicate.simps(2))
qed (simp add: read_backslashes)

lemma read_plain:
  assumes "list_all (\<lambda>c. c \<noteq> BLANK \<and> c \<noteq> HTAB \<and> c \<noteq> DQUOTE) s" "r = [] \<or> hd r = BLANK"
  shows "read_args False n (Some a) (s @ r) = (a @ replicate n BSLASH @ s) # read_args False 0 None r"
  using assms
proof (induction s arbitrary: n a)
  case Nil
  then show ?case by (cases r) auto
next
  case (Cons c s)
  then show ?case by (auto simp: backslashes_shift simp del: replicate.simps(2))
qed

lemma read_args_first: "c \<noteq> BLANK \<Longrightarrow> c \<noteq> HTAB \<Longrightarrow> read_args False 0 None (c # s) = read_args False 0 (Some []) (c # s)"
  by simp

lemma read_quote_arg:
  assumes "r = [] \<or> hd r = BLANK"
  shows "read_args False 0 None (quote_arg a @ r) = a # read_args False 0 None r"
proof (cases "needs_quotes a")
  case True
  have "read_args False 0 (Some b) r = b # read_args False 0 None r" for b using read_plain [of "[]" r 0 b] assms by simp
  with True show ?thesis by (simp add: quote_arg_def read_quoted)
next
  case False
  then obtain c s where a: "a = c # s" by (cases a) (auto simp: needs_quotes_def)
  with False have p: "list_all (\<lambda>c. c \<noteq> BLANK \<and> c \<noteq> HTAB \<and> c \<noteq> DQUOTE) a" by (auto simp: needs_quotes_def list_ex_iff list_all_iff)
  with read_plain [OF p assms, of 0 "[]"] a show ?thesis
    using read_args_first [of c "s @ r"] False by (simp add: quote_arg_def del: read_args.simps)
qed

lemma quote_arg_nonempty: "quote_arg a \<noteq> []"
  by (simp add: quote_arg_def needs_quotes_def)

lemma command_line_Cons: "command_line (a # as) = quote_arg a @ concat (map (\<lambda>x. BLANK # quote_arg x) as)"
proof -
  have "s \<noteq> [] \<Longrightarrow> foldl (\<lambda>s a. (if s = [] then [] else s @ [BLANK]) @ quote_arg a) s as = s @ concat (map (\<lambda>x. BLANK # quote_arg x) as)" for s
    by (induction as arbitrary: s) (simp_all add: quote_arg_nonempty)
  from this [OF quote_arg_nonempty] show ?thesis by (simp add: command_line_def)
qed

lemma read_arguments: "read_args False 0 None (concat (map (\<lambda>x. BLANK # quote_arg x) as)) = as"
proof (induction as)
  case (Cons a as)
  have "concat (map (\<lambda>x. BLANK # quote_arg x) as) = [] \<or> hd (concat (map (\<lambda>x. BLANK # quote_arg x) as)) = BLANK"
    by (cases as) simp_all
  from read_quote_arg [OF this, of a] Cons show ?case by simp
qed simp

lemma documented_command_line:
  assumes "\<not> needs_quotes prog"
  shows "documented_argv (command_line (prog # args)) = prog # args"
proof -
  have prog: "\<forall>c \<in> set prog. \<not> (c = BLANK \<or> c = HTAB)" using assms by (auto simp: needs_quotes_def list_ex_iff)
  let ?r = "concat (map (\<lambda>x. BLANK # quote_arg x) args)"
  have "command_line (prog # args) = prog @ ?r" using assms by (simp add: command_line_Cons quote_arg_def)
  moreover have "takeWhile (\<lambda>c. \<not> (c = BLANK \<or> c = HTAB)) (prog @ ?r) = prog" "dropWhile (\<lambda>c. \<not> (c = BLANK \<or> c = HTAB)) (prog @ ?r) = ?r"
    using prog by (cases args; simp add: takeWhile_append dropWhile_append)+
  ultimately show ?thesis by (simp add: documented_argv_def Let_def read_arguments)
qed

text \<open>C27: the command line given to \<^verbatim>\<open>CreateProcess\<close> is the one the quoting rules define, or none when it
  does not fit; a program that reads it by the documented rules gets exactly the arguments, whatever
  quotes, backslashes and blanks they contain.\<close>

theorem cmdline_roundtrip:
  assumes "\<not> needs_quotes prog" "0 < sz"
  shows "build_cmdline sz (prog # args) =
           (if length (command_line (prog # args)) < sz then Some (command_line (prog # args)) else None) \<and>
         documented_argv (command_line (prog # args)) = prog # args"
  using assms by (simp add: build_cmdline_eq documented_command_line)

section \<open>The environment block\<close>

definition env_block :: "cstring list \<Rightarrow> string" where
  "env_block strs = concat (map (\<lambda>s. s @ [NUL]) strs) @ [NUL]"

definition env_strings_ok :: "cstring list \<Rightarrow> bool" where
  "env_strings_ok strs \<longleftrightarrow> strs \<noteq> [] \<and> list_all (\<lambda>s. s \<noteq> [] \<and> NUL \<notin> set s) strs"

lemma double_nul_skip: "NUL \<notin> set s \<Longrightarrow> double_nul (s @ NUL # c # r) = map_option ((+) (length s)) (double_nul (NUL # c # r))"
proof (induction s)
  case Nil
  then show ?case by (cases "double_nul (NUL # c # r)") (simp_all del: double_nul.simps)
next
  case (Cons a s)
  then have "a \<noteq> NUL" by auto
  obtain b q where bq: "s @ NUL # c # r = b # q" by (cases s) auto
  with \<open>a \<noteq> NUL\<close> have "double_nul ((a # s) @ NUL # c # r) = map_option Suc (double_nul (s @ NUL # c # r))" by simp
  with Cons show ?case by (simp add: option.map_comp comp_def del: double_nul.simps)
qed

lemma double_nul_env:
  assumes "strs \<noteq> []" "list_all (\<lambda>s. s \<noteq> [] \<and> NUL \<notin> set s) strs"
  shows "double_nul (env_block strs) = Some (length (concat (map (\<lambda>s. s @ [NUL]) strs)) - 1)"
  using assms
proof (induction strs rule: list_nonempty_induct)
  case (single s)
  then show ?case using double_nul_skip [of s NUL "[]"] by (simp add: env_block_def)
next
  case (cons s strs)
  obtain c r where cr: "env_block strs = c # r" "c \<noteq> NUL"
    using cons.hyps cons.prems by (cases strs; cases "hd strs") (auto simp: env_block_def)
  have pos: "0 < length (concat (map (\<lambda>s. s @ [NUL]) strs))" using cons.hyps by (cases strs) simp_all
  have "env_block (s # strs) = s @ NUL # c # r" using cr(1) by (simp add: env_block_def)
  then have "double_nul (env_block (s # strs)) = map_option (\<lambda>n. length s + Suc n) (double_nul (env_block strs))"
    using double_nul_skip [of s c r] cons.prems cr by (simp add: option.map_comp comp_def)
  then show ?case using cons pos by simp
qed

lemma env_block_extended:
  assumes "env_strings_ok base" "extra \<noteq> []"
  shows "build_env_block (Some (env_block base)) True extra = Some (Some (env_block (base @ extra)))"
proof -
  let ?b = "concat (map (\<lambda>s. s @ [NUL]) base)"
  have "double_nul (env_block base) = Some (length ?b - 1)" "0 < length ?b"
    using assms(1) double_nul_env by (auto simp: env_strings_ok_def)
  then show ?thesis using assms(2) by (simp add: build_env_block_def) (simp add: env_block_def)
qed

section \<open>What the agent may rely on\<close>

text \<open>What was written to a pipe until its end; \<open>None\<close> when it is never closed.\<close>

fun pipe_bytes :: "string option list \<Rightarrow> string option" where
  "pipe_bytes [] = None"
| "pipe_bytes (None # rs) = Some []"
| "pipe_bytes (Some c # rs) = (if c = [] then Some [] else map_option ((@) c) (pipe_bytes rs))"

lemma reader_thread_eq:
  "length buf \<le> m - 1 \<Longrightarrow> reader_thread m buf rs = map_option (\<lambda>b. take (m - 1) (buf @ b)) (pipe_bytes rs)"
proof (induction m buf rs rule: reader_thread.induct)
  case (3 m buf chunk rs)
  have "(if length buf < m - 1 then buf @ take (m - 1 - length buf) chunk else buf) = take (m - 1) (buf @ chunk)"
    using "3.prems" by simp
  moreover have "take n (take n xs @ b) = take n (xs @ b)" for n and xs b :: string by (cases "n \<le> length xs") simp_all
  ultimately show ?case using 3 by (simp add: option.map_comp comp_def del: take_append)
qed simp_all

lemma captured_fits: "captured ok m rs = Some b \<Longrightarrow> 0 < m \<Longrightarrow> length b < m"
  by (auto simp: captured_def reader_thread_eq split: if_splits)

lemma win_run_child_done:
  assumes "win_run_child env cl ee t = Some (e, r, eff, hs)"
  shows "result_fits r" "tidy eff" "account [] hs = Some []"
    "e \<in> {LEO_OK, LEO_ERR_SYSTEM, LEO_ERR_TIMEOUT}" "e = LEO_ERR_TIMEOUT \<longleftrightarrow> Sigkill \<in> set eff"
    "Spawn a x \<in> set eff \<Longrightarrow> a = [cl]" "Make_Temp p y \<notin> set eff" "ee = [] \<Longrightarrow> Spawn a x \<in> set eff \<Longrightarrow> x = []"
proof -
  show "result_fits r" using assms captured_fits
    by (auto simp: win_run_child_def result_fits_def Let_def split: if_splits option.splits)
  show "account [] hs = Some []"
    using assms by (cases "we_nul env"; cases "we_out_thread env"; cases "we_err_thread env")
      (auto simp: win_run_child_def Let_def split: if_splits option.splits)
qed (use assms in \<open>auto simp: win_run_child_def tidy_def build_env_block_def Let_def split: if_splits option.splits\<close>)

text \<open>The public functions without the record of their handles.\<close>

definition without_handles :: "('e \<times> 'r \<times> 'f \<times> 'h) option \<Rightarrow> ('e \<times> 'r \<times> 'f) option" where
  "without_handles = map_option (\<lambda>(e, r, eff, hs). (e, r, eff))"

lemma win_exec_argv_done:
  assumes "win_exec_argv env argv ee t r0 = Some (e, r, eff, hs)"
  shows "result_fits r0 \<Longrightarrow> result_fits r" "tidy eff" "account [] hs = Some []" "e \<in> {LEO_OK, LEO_ERR_SYSTEM, LEO_ERR_TIMEOUT}"
  using assms win_run_child_done(1-4) [of env _ ee t e r eff hs]
  by (auto simp: win_exec_argv_def tidy_def split: if_splits option.splits)

lemma win_exec_script_cases:
  assumes "win_exec_script env i s t r0 = Some (e, r, eff, hs)"
  obtains (refused) "e = LEO_ERR_PROTOCOL" "r = r0" "eff = []" "hs = []" "\<exists>interp src. i = Some interp \<and> s = Some src \<and> interp \<notin> set WIN_ALLOWED_INTERPRETERS"
  | (failed) "e = LEO_ERR_SYSTEM" "r = r0" "tidy eff" "hs = []" "\<And>a x. Spawn a x \<notin> set eff" "Sigkill \<notin> set eff" "i = None \<or> s = None \<or> the i \<in> set WIN_ALLOWED_INTERPRETERS"
  | (ran) interp src path eff' where "i = Some interp" "interp \<in> set WIN_ALLOWED_INTERPRETERS" "s = Some src"
      "eff = Make_Temp path src # eff' @ [Unlink path]"
      "win_run_child env (command_line (script_argv (interp = ''powershell'') path)) [] t = Some (e, r, eff', hs)"
  using assms
  by (auto simp: win_exec_script_def win_write_script_tmp_def win_interpreter_allowed_def list_ex_iff Let_def build_cmdline_eq
      LEO_EXEC_CMDLINE_MAX_def tidy_def split: option.splits if_splits)

interpretation win_script: command_runner "\<lambda>(i, s) t r. without_handles (win_exec_script env i s t r)" for env
proof unfold_locales
  fix cmd t r e r' eff
  assume "(case cmd of (i, s) \<Rightarrow> \<lambda>t r. without_handles (win_exec_script env i s t r)) t r = Some (e, r', eff)"
  then obtain i s hs where *: "win_exec_script env i s t r = Some (e, r', eff, hs)" by (cases cmd) (auto simp: without_handles_def)
  show "result_fits r \<Longrightarrow> result_fits r'" by (rule win_exec_script_cases [OF *]) (auto dest: win_run_child_done(1))
  show "tidy eff" by (rule win_exec_script_cases [OF *]) (auto simp: tidy_def dest!: win_run_child_done(2))
  show "e \<in> {LEO_OK, LEO_ERR_PROTOCOL, LEO_ERR_SYSTEM, LEO_ERR_TIMEOUT}"
    by (rule win_exec_script_cases [OF *]) (auto dest: win_run_child_done(4))
qed

interpretation win_argv: command_runner "\<lambda>(argv, ee) t r. without_handles (win_exec_argv env argv ee t r)" for env
  by unfold_locales (auto simp: without_handles_def dest: win_exec_argv_done)

lemma script_argv_read:
  "documented_argv (command_line (script_argv ps path)) = script_argv ps path"
proof -
  have "\<not> needs_quotes ''powershell.exe''" "\<not> needs_quotes ''cmd.exe''" by code_simp+
  then show ?thesis by (simp add: script_argv_def documented_command_line)
qed

text \<open>C28: on Windows too a script runs only through an allowed interpreter: the child reads from its
  command line the interpreter, its fixed options and the temporary file, whatever the directory of that
  file is called; any other interpreter is refused before anything is done. The child is terminated
  exactly on a timeout, the temporary file is removed, every handle, the environment block and the
  reader threads are given back on every path, and the captured output fits its buffers.\<close>

theorem win_exec_script_contained:
  assumes "win_exec_script env i s t r0 = Some (e, r, eff, hs)"
  shows "(\<forall>argv ee. Spawn argv ee \<in> set eff \<longrightarrow>
            (\<exists>interp src path line. i = Some interp \<and> interp \<in> {''cmd'', ''powershell''} \<and> s = Some src \<and> Make_Temp path src \<in> set eff \<and>
               argv = [line] \<and> documented_argv line = script_argv (interp = ''powershell'') path \<and> ee = [])) \<and>
         (e = LEO_ERR_PROTOCOL \<longleftrightarrow> (\<exists>interp src. i = Some interp \<and> s = Some src \<and> interp \<notin> {''cmd'', ''powershell''})) \<and>
         (e = LEO_ERR_PROTOCOL \<longrightarrow> eff = [] \<and> r = r0) \<and> (e = LEO_ERR_TIMEOUT \<longleftrightarrow> Sigkill \<in> set eff) \<and>
         tidy eff \<and> account [] hs = Some [] \<and> (result_fits r0 \<longrightarrow> result_fits r)"
proof -
  have std: "tidy eff" "result_fits r0 \<longrightarrow> result_fits r"
    using win_script.tidy_law [of env "(i, s)" t r0 e r eff] win_script.fits_law [of env "(i, s)" t r0 e r eff] assms
    by (simp_all add: without_handles_def)
  have allowed: "set WIN_ALLOWED_INTERPRETERS = {''cmd'', ''powershell''}" by (simp add: WIN_ALLOWED_INTERPRETERS_def)
  show ?thesis
  proof (rule win_exec_script_cases [OF assms], goal_cases)
    case (3 interp src path eff')
    note child = win_run_child_done [OF 3(5)]
    have "\<And>argv ee. Spawn argv ee \<in> set eff \<Longrightarrow> argv = [command_line (script_argv (interp = ''powershell'') path)] \<and> ee = []"
      using 3(4) child(6,8) by auto
    moreover have "(e = LEO_ERR_TIMEOUT \<longleftrightarrow> Sigkill \<in> set eff) \<and> e \<noteq> LEO_ERR_PROTOCOL" using child(4,5) 3(4) by auto
    moreover have in2: "interp \<in> {''cmd'', ''powershell''}" using 3(2) allowed by blast
    moreover have "Spawn argv ee \<in> set eff \<Longrightarrow>
        \<exists>interp src path line. i = Some interp \<and> interp \<in> {''cmd'', ''powershell''} \<and> s = Some src \<and> Make_Temp path src \<in> set eff \<and>
           argv = [line] \<and> documented_argv line = script_argv (interp = ''powershell'') path \<and> ee = []" for argv ee
      using calculation(1) [of argv ee] script_argv_read 3(1,3,4) in2 by (metis list.set_intros(1))
    ultimately show ?case using std child(3) 3(1) by blast
  qed (use std in \<open>unfold allowed, auto\<close>)
qed

text \<open>a child whose pipes are closed is reported with the first 16383 bytes it wrote to its output
  and the first 4095 of its errors, however \<^verbatim>\<open>ReadFile\<close> cut them; every byte is read, so that a child
  never blocks on a full pipe. The call returns exactly when the wait returns and both pipes end.\<close>

theorem win_exec_captures_output:
  assumes "we_pipe_out env" "we_pipe_err env" "we_create_process env" "we_out_thread env" "we_err_thread env"
    and "build_cmdline LEO_EXEC_CMDLINE_MAX argv = Some line" "argv \<noteq> []" "build_env_block (we_environ env) (we_malloc env) ee = Some block"
  shows "map_option (\<lambda>(e, r, eff, hs). r) (win_exec_argv env argv ee t r0) =
           (case (we_wait env (wait_ms t), pipe_bytes (we_out env), pipe_bytes (we_err env)) of
              (Some rc, Some so, Some se) \<Rightarrow>
                Some \<lparr>exit_code = sint (we_exit env), stdout_buf = take 16383 so, stderr_buf = take 4095 se\<rparr>
            | _ \<Rightarrow> None)"
proof -
  have "captured True LEO_EXEC_STDOUT_MAX rs = map_option (take 16383) (pipe_bytes rs)"
    "captured True LEO_EXEC_STDERR_MAX rs = map_option (take 4095) (pipe_bytes rs)" for rs
    by (simp_all add: captured_def reader_thread_eq exec_sizes)
  with assms show ?thesis by (simp add: win_exec_argv_def win_run_child_def Let_def split: option.split)
qed

text \<open>A timeout does not bound the call: a process the child started keeps the pipe open, and the
  reader waits for it.\<close>

theorem win_timeout_blocks:
  "win_exec_argv \<lparr>we_pipe_out = True, we_pipe_err = True, we_nul = True, we_environ = None, we_malloc = True, we_create_process = True,
     we_out_thread = True, we_err_thread = True, we_out = [Some ''x''], we_err = [None], we_wait = (\<lambda>_. Some Wait_Timeout), we_exit = 1,
     we_temp_path = None, we_pid = 1, we_counter = 1, we_tick = 1, we_fopen = True, we_written = True\<rparr> [''cmd.exe''] [] 5 r0 = None"
  by (simp add: win_exec_argv_def build_cmdline_eq LEO_EXEC_CMDLINE_MAX_def command_line_def quote_arg_def needs_quotes_def cmd_chars
      win_run_child_def build_env_block_def captured_def)

section \<open>Sample runs\<close>

definition demo_win :: win_env where
  "demo_win = \<lparr>we_pipe_out = True, we_pipe_err = True, we_nul = True, we_environ = Some (env_block [''A=1'']), we_malloc = True,
     we_create_process = True, we_out_thread = True, we_err_thread = True, we_out = [Some ''hel'', Some ''lo'', None], we_err = [None],
     we_wait = (\<lambda>_. Some Wait_Object), we_exit = 0, we_temp_path = Some ''C:/Temp Dir/'', we_pid = 7, we_counter = 1, we_tick = 255,
     we_fopen = True, we_written = True\<rparr>"

theorem cmdline_roundtrip_witness:
  "build_cmdline 100 [''a.exe'', [DQUOTE], [BSLASH, BLANK, BSLASH], []] =
     Some (''a.exe '' @ [DQUOTE, BSLASH, DQUOTE, DQUOTE, BLANK, DQUOTE, BSLASH, BLANK, BSLASH, BSLASH, DQUOTE, BLANK, DQUOTE, DQUOTE]) \<and>
   documented_argv (command_line [''a.exe'', [DQUOTE], [BSLASH, BLANK, BSLASH], []]) = [''a.exe'', [DQUOTE], [BSLASH, BLANK, BSLASH], []]"
proof -
  have "\<not> needs_quotes ''a.exe''" by code_simp
  moreover have "command_line [''a.exe'', [DQUOTE], [BSLASH, BLANK, BSLASH], []] =
      ''a.exe '' @ [DQUOTE, BSLASH, DQUOTE, DQUOTE, BLANK, DQUOTE, BSLASH, BLANK, BSLASH, BSLASH, DQUOTE, BLANK, DQUOTE, DQUOTE]" by code_simp
  ultimately show ?thesis using cmdline_roundtrip [of "''a.exe''" 100 "[[DQUOTE], [BSLASH, BLANK, BSLASH], []]"] by simp
qed

lemma demo_win_child:
  "win_run_child demo_win line [] 5 =
     Some (LEO_OK, \<lparr>exit_code = 0, stdout_buf = ''hello'', stderr_buf = []\<rparr>, [Spawn [line] [], Reap],
       [Acquire H_Stdout_R, Acquire H_Stdout_W, Acquire H_Stderr_R, Acquire H_Stderr_W, Acquire H_Nul,
        Acquire H_Process, Acquire H_Thread, Release H_Stdout_W, Release H_Stderr_W, Release H_Nul, Release H_Thread,
        Acquire H_Out_Reader, Acquire H_Err_Reader, Release H_Out_Reader, Release H_Err_Reader,
        Release H_Process, Release H_Stdout_R, Release H_Stderr_R])"
  by (simp add: win_run_child_def build_env_block_def captured_def exec_sizes demo_win_def)

lemma demo_win_runs:
  "\<exists>r eff hs path. win_exec_script demo_win (Some ''cmd'') (Some ''dir'') 5 r0 = Some (LEO_OK, r, eff, hs) \<and>
     Spawn [command_line (script_argv False path)] [] \<in> set eff"
proof -
  define path where "path = temp_path demo_win ''C:/Temp Dir/'' ''.bat''"
  have "length (command_line (script_argv False path)) < 1000" unfolding path_def by code_simp
  then have line: "build_cmdline LEO_EXEC_CMDLINE_MAX (script_argv False path) = Some (command_line (script_argv False path))"
    by (simp add: build_cmdline_eq LEO_EXEC_CMDLINE_MAX_def)
  have "we_temp_path demo_win = Some ''C:/Temp Dir/''" "we_fopen demo_win" "we_written demo_win" by (simp_all add: demo_win_def)
  then have "win_write_script_tmp demo_win ''dir'' ''.bat'' = (Some path, [Make_Temp path ''dir''])"
    by (simp add: win_write_script_tmp_def WIN_MAX_PATH_def path_def Let_def)
  then show ?thesis
    by (simp add: win_exec_script_def win_interpreter_allowed_def WIN_ALLOWED_INTERPRETERS_def line demo_win_child) blast
qed

theorem win_exec_script_contained_witness:
  "\<exists>e r eff hs. win_exec_script demo_win (Some ''cmd'') (Some ''dir'') 5 \<lparr>exit_code = 0, stdout_buf = [], stderr_buf = []\<rparr> = Some (e, r, eff, hs) \<and>
     tidy eff \<and> account [] hs = Some [] \<and> (\<exists>line path. Spawn [line] [] \<in> set eff \<and> documented_argv line = [''cmd.exe'', ''/c'', path])"
proof -
  obtain r eff hs a x where run: "win_exec_script demo_win (Some ''cmd'') (Some ''dir'') 5 \<lparr>exit_code = 0, stdout_buf = [], stderr_buf = []\<rparr> = Some (LEO_OK, r, eff, hs)"
    "Spawn a x \<in> set eff" using demo_win_runs by blast
  with win_exec_script_contained [OF run(1)] show ?thesis by (fastforce simp: script_argv_def)
qed

theorem win_exec_captures_output_witness:
  "map_option (\<lambda>(e, r, eff, hs). r) (win_exec_argv demo_win [''cmd.exe''] [''B=2''] 5 \<lparr>exit_code = 0, stdout_buf = [], stderr_buf = []\<rparr>) =
     Some \<lparr>exit_code = 0, stdout_buf = ''hello'', stderr_buf = []\<rparr>"
proof -
  have line: "build_cmdline LEO_EXEC_CMDLINE_MAX [''cmd.exe''] = Some ''cmd.exe''"
    by (simp add: build_cmdline_eq LEO_EXEC_CMDLINE_MAX_def command_line_def quote_arg_def needs_quotes_def cmd_chars)
  have block: "build_env_block (we_environ demo_win) (we_malloc demo_win) [''B=2''] = Some (Some (env_block [''A=1'', ''B=2'']))"
    using env_block_extended [of "[''A=1'']" "[''B=2'']"] by (simp add: demo_win_def env_strings_ok_def NUL_def)
  show ?thesis using win_exec_captures_output [OF _ _ _ _ _ line _ block] by (simp add: demo_win_def)
qed

end
