(* ===== verification/Patches_Win.thy ===== *)
theory Patches_Win
  imports Executor_Win
begin

text \<open>
  \<^verbatim>\<open>agent/platform/windows/patches_win.c\<close>: listing and installing updates through the COM interface of
  the Windows Update Agent. What the calls answer is the record \<open>wu_env\<close>; references to COM objects,
  BSTRs and the apartment are effects counted by \<open>account\<close>. A BSTR is the UTF-8 text it converts to.
  The value \<open>None\<close> stands for the undefined cast of a size that no 64-bit integer holds.
\<close>

section \<open>Updates\<close>

record wu_update =
  wu_title :: "cstring option"
  wu_msrc :: "cstring option"
  wu_size :: "dbl option"                     \<comment> \<open>\<^verbatim>\<open>MaxDownloadSize\<close>, converted to \<^verbatim>\<open>double\<close>\<close>
  wu_kbs :: "cstring option list option"      \<comment> \<open>\<^verbatim>\<open>KBArticleIDs\<close>; an item may be refused\<close>
  wu_identity :: "cstring option option"      \<comment> \<open>\<^verbatim>\<open>Identity\<close> and its \<^verbatim>\<open>UpdateID\<close>\<close>

datatype com_ref = Com_Apartment | Com_Session | Com_Searcher | Com_Search_Result | Com_Updates | Com_To_Install
  | Com_Downloader | Com_Download_Result | Com_Installer | Com_Install_Result | Com_Update | Com_KBs | Com_Identity
  | Com_Bstr | Com_Token

type_synonym com_effects = "com_ref res_effect list"

text \<open>\<^verbatim>\<open>WideCharToMultiByte\<close> fails when the text and its NUL do not fit; \<open>cutf\<close> is what it leaves in the
  buffer then.\<close>

type_synonym cut_text = "cstring \<Rightarrow> nat \<Rightarrow> cstring"

definition bstr_to_utf8 :: "cut_text \<Rightarrow> cstring option \<Rightarrow> nat \<Rightarrow> cstring" where
  "bstr_to_utf8 cutf src out_sz =
     (case src of
        None \<Rightarrow> []
      | Some s \<Rightarrow> if length s < out_sz then s else take (out_sz - 1) (cutf s out_sz))"

definition severity_from_msrc :: "cut_text \<Rightarrow> cstring option \<Rightarrow> leo_patch_severity" where
  "severity_from_msrc cutf msrc =
     (let buf = bstr_to_utf8 cutf msrc 32 in
      if buf = [] then LEO_PATCH_SEVERITY_IMPORTANT
      else if strcasecmp_eq buf ''Critical'' then LEO_PATCH_SEVERITY_CRITICAL
      else if strcasecmp_eq buf ''Important'' then LEO_PATCH_SEVERITY_IMPORTANT
      else LEO_PATCH_SEVERITY_OPTIONAL)"

text \<open>The first KB, or else the \<^verbatim>\<open>UpdateID\<close>.\<close>

definition kb_id :: "cut_text \<Rightarrow> wu_update \<Rightarrow> cstring" where
  "kb_id cutf u =
     (case wu_kbs u of
        Some (Some kb # _) \<Rightarrow> strncpy_buf LEO_PATCH_ID_MAX_LEN (''KB'' @ bstr_to_utf8 cutf (Some kb) 32)
      | _ \<Rightarrow> [])"

definition update_id :: "cut_text \<Rightarrow> wu_update \<Rightarrow> cstring" where
  "update_id cutf u =
     (if kb_id cutf u = []
      then (case wu_identity u of Some uid \<Rightarrow> bstr_to_utf8 cutf uid LEO_PATCH_ID_MAX_LEN | None \<Rightarrow> [])
      else kb_id cutf u)"

definition update_size :: "wu_update \<Rightarrow> u64 option" where
  "update_size u =
     (case wu_size u of
        None \<Rightarrow> Some 0
      | Some d \<Rightarrow> if dbl_lt (Dfin 0) d then map_option of_nat (u64_of_dbl d) else Some 0)"

definition fill_refs :: "cut_text \<Rightarrow> wu_update \<Rightarrow> com_effects" where
  "fill_refs cutf u =
     (if wu_title u \<noteq> None then held_briefly Com_Bstr [] else []) @
     (if wu_msrc u \<noteq> None then held_briefly Com_Bstr [] else []) @
     (case wu_kbs u of
        None \<Rightarrow> []
      | Some kbs \<Rightarrow> held_briefly Com_KBs (if kbs \<noteq> [] \<and> hd kbs \<noteq> None then held_briefly Com_Bstr [] else [])) @
     (if kb_id cutf u = []
      then (case wu_identity u of
              None \<Rightarrow> []
            | Some uid \<Rightarrow> held_briefly Com_Identity (if uid \<noteq> None then held_briefly Com_Bstr [] else []))
      else [])"

definition fill_patch_from_update :: "cut_text \<Rightarrow> wu_update \<Rightarrow> (leo_patch \<times> com_effects) option" where
  "fill_patch_from_update cutf u =
     (case update_size u of
        None \<Rightarrow> None
      | Some size_bytes \<Rightarrow>
          Some (\<lparr>patch_id = update_id cutf u, patch_title = bstr_to_utf8 cutf (wu_title u) LEO_PATCH_TITLE_MAX_LEN,
                 patch_severity = severity_from_msrc cutf (wu_msrc u), patch_size_bytes = size_bytes\<rparr>, fill_refs cutf u))"

section \<open>Search\<close>

datatype co_init = Co_Ok | Co_Changed_Mode | Co_Failed u32

record wu_env =
  wa_init :: co_init
  wa_session :: bool
  wa_searcher :: bool
  wa_search :: bool
  wa_updates :: "wu_update option list option"   \<comment> \<open>\<^verbatim>\<open>get_Updates\<close> and each \<^verbatim>\<open>get_Item\<close>\<close>
  wa_cut :: cut_text
  wa_clsid :: bool
  wa_collection :: bool
  wa_add :: "wu_update \<Rightarrow> bool"                  \<comment> \<open>\<^verbatim>\<open>IUpdateCollection_Add\<close>\<close>
  wa_downloader :: bool
  wa_download :: bool
  wa_dl_result :: bool
  wa_installer :: bool
  wa_install :: bool
  wa_inst_result :: bool
  wa_code :: int                                 \<comment> \<open>\<^verbatim>\<open>OperationResultCode\<close>\<close>
  wa_reboot_required :: bool
  wa_token :: bool
  wa_luid :: bool

definition wu_search :: "wu_env \<Rightarrow> bool \<times> com_effects" where
  "wu_search env =
     (if \<not> wa_searcher env then (False, [])
      else if \<not> wa_search env then (False, [Acquire Com_Searcher] @ held_briefly Com_Bstr [] @ [Release Com_Searcher])
      else (True, [Acquire Com_Searcher] @ held_briefly Com_Bstr [] @ [Acquire Com_Search_Result]))"

section \<open>Collection\<close>

fun collect_updates ::
  "cut_text \<Rightarrow> nat \<Rightarrow> wu_update option list \<Rightarrow> leo_patch list \<Rightarrow> (leo_patch list \<times> com_effects) option" where
  "collect_updates cutf m [] out = Some (out, [])"
| "collect_updates cutf m (x # us) out =
     (if m \<le> length out then Some (out, [])
      else case x of
        None \<Rightarrow> collect_updates cutf m us out
      | Some u \<Rightarrow>
          (case fill_patch_from_update cutf u of
             None \<Rightarrow> None
           | Some (p, es) \<Rightarrow>
               map_option (\<lambda>(ps, es'). (ps, held_briefly Com_Update es @ es'))
                 (collect_updates cutf m us (if patch_id p \<noteq> [] then out @ [p] else out))))"

text \<open>The number of patches is the length of the list; the inner \<open>None\<close> is the return value -1.\<close>

definition win_patches_collect :: "wu_env \<Rightarrow> int \<Rightarrow> (leo_patch list option \<times> com_effects) option" where
  "win_patches_collect env max_items =
     (if max_items \<le> 0 then Some (None, [])
      else case wa_init env of
        Co_Failed hr \<Rightarrow> Some (Some [], [])
      | ini \<Rightarrow>
          let found = (if wa_session env \<and> fst (wu_search env) then wa_updates env else None) in
          map_option (\<lambda>(ps, es).
              (Some ps,
               (if ini = Co_Ok then [Acquire Com_Apartment] else []) @
               (if wa_session env
                then [Acquire Com_Session] @ snd (wu_search env) @
                     (if found \<noteq> None then held_briefly Com_Updates es else []) @
                     (if fst (wu_search env) then [Release Com_Search_Result, Release Com_Searcher] else []) @
                     [Release Com_Session]
                else []) @
               (if ini = Co_Ok then [Release Com_Apartment] else [])))
            (case found of None \<Rightarrow> Some ([], []) | Some us \<Rightarrow> collect_updates (wa_cut env) (nat max_items) us []))"

section \<open>Installation\<close>

datatype wu_effect = Wu_Accept_Eula wu_update | Wu_Download "wu_update list" | Wu_Install "wu_update list"
  | Wu_Enable_Shutdown | Wu_Shutdown nat

definition create_update_collection :: "wu_env \<Rightarrow> bool" where
  "create_update_collection env \<longleftrightarrow> wa_clsid env \<and> wa_collection env"

definition id_in_list :: "cstring \<Rightarrow> cstring list \<Rightarrow> int \<Rightarrow> bool" where
  "id_in_list i ids count \<longleftrightarrow> list_ex ((=) i) (take (nat count) ids)"

text \<open>The loop over what was found: the updates that match.\<close>

fun select_updates ::
  "cut_text \<Rightarrow> cstring list \<Rightarrow> int \<Rightarrow> wu_update option list \<Rightarrow> (wu_update list \<times> com_effects) option" where
  "select_updates cutf ids count [] = Some ([], [])"
| "select_updates cutf ids count (None # us) = select_updates cutf ids count us"
| "select_updates cutf ids count (Some u # us) =
     (case fill_patch_from_update cutf u of
        None \<Rightarrow> None
      | Some (tmp, es) \<Rightarrow>
          map_option (\<lambda>(sel, es').
              (if patch_id tmp \<noteq> [] \<and> id_in_list (patch_id tmp) ids count then u # sel else sel, held_briefly Com_Update es @ es'))
            (select_updates cutf ids count us))"

text \<open>The privilege is asked for and the token closed; nothing is reported when that fails.\<close>

definition enable_shutdown_privilege :: "wu_env \<Rightarrow> wu_effect list \<times> com_effects" where
  "enable_shutdown_privilege env =
     (if \<not> wa_token env then ([], [])
      else if \<not> wa_luid env then ([], held_briefly Com_Token [])
      else ([Wu_Enable_Shutdown], held_briefly Com_Token []))"

definition EACUTE :: cstring where "EACUTE = [CHR 0xC3, CHR 0xA9]"
definition UP_EACUTE :: cstring where "UP_EACUTE = [CHR 0xC3, CHR 0x89]"

definition MSG_SELECT_NONE :: cstring where
  "MSG_SELECT_NONE =
     ''Aucun des patchs demand'' @ EACUTE @ ''s n'' @ [CHR 0x27] @ ''a '' @ EACUTE @ ''t'' @ EACUTE @ '' retrouv'' @ EACUTE @
     '' dans la recherche Windows Update (inventaire p'' @ EACUTE @ ''rim'' @ EACUTE @ '' ?)''"

definition failed_with :: "cstring \<Rightarrow> leo_exec_result" where
  "failed_with msg = \<lparr>exit_code = - 1, stdout_buf = [], stderr_buf = strncpy_buf LEO_EXEC_STDERR_MAX msg\<rparr>"

text \<open>The step after the search: download, installation, report, restart. The references it takes are
  released by \<^verbatim>\<open>cleanup\<close>, in the order of the code.\<close>

definition install_report :: "wu_env \<Rightarrow> nat \<Rightarrow> leo_exec_result" where
  "install_report env matched =
     \<lparr>exit_code = (if wa_code env = 2 \<or> wa_code env = 3 then 0 else - 1),
      stdout_buf = strncpy_buf LEO_EXEC_STDOUT_MAX
        (show_nat matched @ '' patch(s) trait'' @ EACUTE @ ''(s), r'' @ EACUTE @ ''sultat='' @ show_int (wa_code env) @
         '', red'' @ EACUTE @ ''marrage requis='' @ (if wa_reboot_required env then ''oui'' else ''non'')),
      stderr_buf = []\<rparr>"

definition install_selected :: "wu_env \<Rightarrow> wu_update list \<Rightarrow> bool \<Rightarrow> leo_exec_result \<times> wu_effect list \<times> com_effects" where
  "install_selected env sel reboot_after =
     (let to_install = filter (wa_add env) sel in
      if sel = [] then (failed_with MSG_SELECT_NONE, [], [])
      else if \<not> wa_downloader env then (failed_with (''CreateUpdateDownloader a '' @ EACUTE @ ''chou'' @ EACUTE), [], [])
      else if \<not> wa_download env then
        (failed_with (UP_EACUTE @ ''chec du t'' @ EACUTE @ ''l'' @ EACUTE @ ''chargement des '' @ show_nat (length sel) @ '' patch(s)''),
         [Wu_Download to_install], [Acquire Com_Downloader, Release Com_Downloader])
      else
        let dl = (if wa_dl_result env then [Acquire Com_Download_Result] else []);
            dl' = (if wa_dl_result env then [Release Com_Download_Result] else []) @ [Release Com_Downloader] in
        if \<not> wa_installer env then
          (failed_with (''CreateUpdateInstaller a '' @ EACUTE @ ''chou'' @ EACUTE), [Wu_Download to_install],
           Acquire Com_Downloader # dl @ dl')
        else if \<not> wa_install env \<or> \<not> wa_inst_result env then
          (failed_with (UP_EACUTE @ ''chec de l'' @ [CHR 0x27] @ ''installation des '' @ show_nat (length sel) @ '' patch(s)''),
           [Wu_Download to_install, Wu_Install to_install],
           Acquire Com_Downloader # dl @ [Acquire Com_Installer, Release Com_Installer] @ dl')
        else
          let reboot = ((wa_code env = 2 \<or> wa_code env = 3) \<and> reboot_after \<and> wa_reboot_required env);
              (priv, token) = (if reboot then enable_shutdown_privilege env else ([], [])) in
          (install_report env (length sel),
           [Wu_Download to_install, Wu_Install to_install] @ (if reboot then priv @ [Wu_Shutdown 60] else []),
           Acquire Com_Downloader # dl @ [Acquire Com_Installer, Acquire Com_Install_Result] @ token @
             [Release Com_Install_Result, Release Com_Installer] @ dl'))"

definition install_found ::
  "wu_env \<Rightarrow> cstring list \<Rightarrow> int \<Rightarrow> bool \<Rightarrow> (leo_exec_result \<times> wu_effect list \<times> com_effects) option" where
  "install_found env ids count reboot_after =
     (let all = (if wa_updates env \<noteq> None then [Acquire Com_Updates] else []);
          coll = (if create_update_collection env then [Acquire Com_To_Install] else []);
          close = (if create_update_collection env then [Release Com_To_Install] else []) @
                  (if wa_updates env \<noteq> None then [Release Com_Updates] else []) in
      case wa_updates env of
        None \<Rightarrow> Some (failed_with (''Impossible de pr'' @ EACUTE @ ''parer la liste des patchs '' @ [CHR 0xC3, CHR 0xA0] @ '' installer''), [],
                      all @ coll @ close)
      | Some us \<Rightarrow>
          if \<not> create_update_collection env
          then Some (failed_with (''Impossible de pr'' @ EACUTE @ ''parer la liste des patchs '' @ [CHR 0xC3, CHR 0xA0] @ '' installer''), [],
                     all @ coll @ close)
          else (case select_updates (wa_cut env) ids count us of
                  None \<Rightarrow> None
                | Some (sel, es) \<Rightarrow>
                    let (r, effs, refs) = install_selected env sel reboot_after in
                    Some (r, map Wu_Accept_Eula sel @ effs, all @ coll @ es @ refs @ close)))"

definition win_patches_install ::
  "wu_env \<Rightarrow> cstring list option \<Rightarrow> int \<Rightarrow> bool \<Rightarrow> int \<Rightarrow> leo_exec_result \<Rightarrow>
   (leo_error \<times> leo_exec_result \<times> wu_effect list \<times> com_effects) option" where
  "win_patches_install env ids count reboot_after timeout_secs result =
     (case ids of
        None \<Rightarrow> Some (LEO_ERR_SYSTEM, result, [], [])
      | Some xs \<Rightarrow>
          if count \<le> 0 then Some (LEO_ERR_SYSTEM, result, [], [])
          else case wa_init env of
            Co_Failed hr \<Rightarrow>
              Some (LEO_OK, failed_with (''CoInitializeEx a '' @ EACUTE @ ''chou'' @ EACUTE @ '' (hr=0x'' @ hex8 hr @ '')''), [], [])
          | ini \<Rightarrow>
              let enter = (if ini = Co_Ok then [Acquire Com_Apartment] else []);
                  leave = (if ini = Co_Ok then [Release Com_Apartment] else []) in
              if \<not> wa_session env then
                Some (LEO_OK, failed_with (''Impossible de cr'' @ EACUTE @ ''er une session Windows Update''), [], enter @ leave)
              else if \<not> fst (wu_search env) then
                Some (LEO_OK, failed_with (UP_EACUTE @ ''chec de la recherche des mises '' @ [CHR 0xC3, CHR 0xA0] @ '' jour''), [],
                      enter @ [Acquire Com_Session] @ snd (wu_search env) @ [Release Com_Session] @ leave)
              else map_option (\<lambda>(r, effs, refs).
                     (LEO_OK, r, effs,
                      enter @ [Acquire Com_Session] @ snd (wu_search env) @ refs @
                        [Release Com_Search_Result, Release Com_Searcher, Release Com_Session] @ leave))
                   (install_found env xs count reboot_after))"

section \<open>References\<close>

lemma fill_refs_balanced: "balanced (fill_refs cutf u)"
  unfolding fill_refs_def by (intro balanced_append) (auto split: option.splits intro!: balanced_held_briefly)

lemma fill_patch_eq:
  "fill_patch_from_update cutf u = Some (p, es) \<Longrightarrow> patch_id p = update_id cutf u \<and> balanced es"
  by (auto simp: fill_patch_from_update_def fill_refs_balanced split: option.splits)

lemma select_updates_eq:
  assumes "select_updates cutf ids count us = Some (sel, es)"
  shows "sel = [u \<leftarrow> map the (filter (\<lambda>x. x \<noteq> None) us). update_id cutf u \<noteq> [] \<and> id_in_list (update_id cutf u) ids count] \<and> balanced es"
  using assms
proof (induction cutf ids count us arbitrary: sel es rule: select_updates.induct)
  case (3 cutf ids count u us)
  then show ?case by (auto dest!: fill_patch_eq split: option.splits)
qed simp_all

lemma collect_updates_eq:
  assumes "collect_updates cutf m us out = Some (ps, es)"
  shows "balanced es \<and> (length out \<le> m \<longrightarrow> length ps \<le> m) \<and>
         (\<exists>k. map patch_id ps = map patch_id out @ filter (\<lambda>i. i \<noteq> []) (map (update_id cutf) (map the (filter (\<lambda>x. x \<noteq> None) (take k us)))))"
  using assms
proof (induction cutf m us out arbitrary: ps es rule: collect_updates.induct)
  case (1 cutf m out)
  then show ?case by auto
next
  case (2 cutf m x us out)
  show ?case
  proof (cases "m \<le> length out")
    case True
    with 2 show ?thesis by (auto intro: exI [of _ 0])
  next
    case False
    show ?thesis
    proof (cases x)
      case None
      with False 2(1) [OF False None] 2(3) obtain k where "balanced es" "length ps \<le> m"
        "map patch_id ps = map patch_id out @ filter (\<lambda>i. i \<noteq> []) (map (update_id cutf) (map the (filter (\<lambda>x. x \<noteq> None) (take k us))))"
        by auto
      with None show ?thesis by (auto intro: exI [of _ "Suc k"])
    next
      case (Some u)
      with False 2(3) obtain p es1 es2 where p: "fill_patch_from_update cutf u = Some (p, es1)" "es = held_briefly Com_Update es1 @ es2"
        "collect_updates cutf m us (if patch_id p \<noteq> [] then out @ [p] else out) = Some (ps, es2)"
        by (auto split: option.splits)
      from 2(2) [OF False Some p(1) refl p(3)] False obtain k where k: "balanced es2" "length ps \<le> m"
        "map patch_id ps = map patch_id (if patch_id p \<noteq> [] then out @ [p] else out) @
           filter (\<lambda>i. i \<noteq> []) (map (update_id cutf) (map the (filter (\<lambda>x. x \<noteq> None) (take k us))))"
        by (auto split: if_splits)
      with fill_patch_eq [OF p(1)] Some p(2) show ?thesis by (auto intro: exI [of _ "Suc k"])
    qed
  qed
qed

text \<open>What \<^verbatim>\<open>wu_search\<close> takes when it succeeds.\<close>

lemma wu_search_refs:
  "fst (wu_search env) \<Longrightarrow> account held (snd (wu_search env) @ rest) = account (Com_Search_Result # Com_Searcher # held) rest"
  "\<not> fst (wu_search env) \<Longrightarrow> balanced (snd (wu_search env))"
  by (auto simp: wu_search_def held_briefly_def balanced_def split: if_splits)

lemma install_selected_refs: "balanced (snd (snd (install_selected env sel reboot_after)))"
  by (auto simp: install_selected_def enable_shutdown_privilege_def held_briefly_def balanced_def Let_def)

lemma install_found_refs: "install_found env ids count reboot_after = Some (r, effs, refs) \<Longrightarrow> balanced refs"
proof (cases "wa_updates env")
  case (Some us)
  assume i: "install_found env ids count reboot_after = Some (r, effs, refs)"
  show ?thesis
  proof (cases "create_update_collection env")
    case True
    with i Some obtain sel es refs' where "select_updates (wa_cut env) ids count us = Some (sel, es)"
      "balanced refs'" "refs = [Acquire Com_Updates, Acquire Com_To_Install] @ es @ refs' @ [Release Com_To_Install, Release Com_Updates]"
      using install_selected_refs [of env _ reboot_after]
      by (auto simp: install_found_def split: option.splits prod.splits) (metis snd_conv)
    with select_updates_eq show ?thesis by (fastforce simp: balanced_def account_append)
  qed (use i Some in \<open>auto simp: install_found_def balanced_def\<close>)
qed (auto simp: install_found_def balanced_def)

section \<open>What is listed and installed\<close>

definition found_updates :: "wu_env \<Rightarrow> wu_update list" where
  "found_updates env = (case wa_updates env of None \<Rightarrow> [] | Some us \<Rightarrow> map the (filter (\<lambda>x. x \<noteq> None) us))"

definition requested_updates :: "wu_env \<Rightarrow> cstring list \<Rightarrow> int \<Rightarrow> wu_update list" where
  "requested_updates env ids count =
     [u \<leftarrow> found_updates env. update_id (wa_cut env) u \<noteq> [] \<and> id_in_list (update_id (wa_cut env) u) ids count]"

definition installed_ok :: "wu_env \<Rightarrow> bool" where
  "installed_ok env \<longleftrightarrow> wa_install env \<and> wa_inst_result env \<and> (wa_code env = 2 \<or> wa_code env = 3)"

lemma failed_with_result [simp]: "result_fits (failed_with msg)" "exit_code (failed_with msg) = - 1"
  by (simp_all add: failed_with_def result_fits_def strncpy_buf_length)

lemma install_report_fits: "result_fits (install_report env n)"
  by (simp add: install_report_def result_fits_def strncpy_buf_length)

lemma install_selected_failed:
  assumes "install_selected env sel reboot_after = (r, effs, refs)"
    and "\<not> (sel \<noteq> [] \<and> wa_downloader env \<and> wa_download env \<and> wa_installer env \<and> wa_install env \<and> wa_inst_result env)"
  shows "result_fits r \<and> exit_code r = - 1 \<and> set effs \<subseteq> {Wu_Download (filter (wa_add env) sel), Wu_Install (filter (wa_add env) sel)} \<and>
         (effs \<noteq> [] \<longrightarrow> sel \<noteq> []) \<and> ((\<exists>us. Wu_Install us \<in> set effs) \<longrightarrow> \<not> installed_ok env)"
  using assms unfolding install_selected_def Let_def installed_ok_def
  by (cases "sel = []"; cases "wa_downloader env"; cases "wa_download env"; cases "wa_installer env") auto

lemma install_selected_done:
  assumes "install_selected env sel reboot_after = (r, effs, refs)"
    and "sel \<noteq> [] \<and> wa_downloader env \<and> wa_download env \<and> wa_installer env \<and> wa_install env \<and> wa_inst_result env"
  shows "r = install_report env (length sel) \<and>
         (\<exists>xs. effs = [Wu_Download (filter (wa_add env) sel), Wu_Install (filter (wa_add env) sel)] @ xs \<and>
            set xs \<subseteq> {Wu_Enable_Shutdown, Wu_Shutdown 60} \<and> (xs \<noteq> [] \<longrightarrow> installed_ok env \<and> reboot_after \<and> wa_reboot_required env))"
  using assms by (auto simp: install_selected_def Let_def installed_ok_def enable_shutdown_privilege_def split: if_splits)

lemma install_selected_spec:
  assumes "install_selected env sel reboot_after = (r, effs, refs)"
  shows "result_fits r \<and> (\<forall>us. Wu_Download us \<in> set effs \<or> Wu_Install us \<in> set effs \<longrightarrow> us = filter (wa_add env) sel \<and> sel \<noteq> []) \<and>
         (exit_code r = 0 \<longleftrightarrow> (\<exists>us. Wu_Install us \<in> set effs) \<and> installed_ok env) \<and>
         (\<forall>n. Wu_Shutdown n \<in> set effs \<longrightarrow> n = 60 \<and> reboot_after \<and> wa_reboot_required env \<and> exit_code r = 0)"
proof (cases "sel \<noteq> [] \<and> wa_downloader env \<and> wa_download env \<and> wa_installer env \<and> wa_install env \<and> wa_inst_result env")
  case True
  from install_selected_done [OF assms this] obtain xs where r: "r = install_report env (length sel)"
    "effs = [Wu_Download (filter (wa_add env) sel), Wu_Install (filter (wa_add env) sel)] @ xs"
    "set xs \<subseteq> {Wu_Enable_Shutdown, Wu_Shutdown 60}" "xs \<noteq> [] \<longrightarrow> installed_ok env \<and> reboot_after \<and> wa_reboot_required env" by blast
  have "exit_code r = 0 \<longleftrightarrow> installed_ok env" using True r(1) by (simp add: install_report_def installed_ok_def)
  with r True show ?thesis by (auto simp: install_report_fits)
next
  case False
  from install_selected_failed [OF assms this] show ?thesis by auto
qed

text \<open>The stages: before the search result, or with it.\<close>

lemma win_patches_install_cases:
  assumes "win_patches_install env (Some ids) count reboot_after t r0 = Some (e, r, effs, refs)" "0 < count"
  shows "e = LEO_OK \<and> account [] refs = Some [] \<and>
         ((\<exists>msg. r = failed_with msg \<and> effs = []) \<or> (\<exists>refs'. install_found env ids count reboot_after = Some (r, effs, refs')))"
proof -
  have search: "account [] (enter @ [Acquire Com_Session] @ snd (wu_search env) @ [Release Com_Session] @ leave) = Some []"
    if "\<not> fst (wu_search env)" "(enter, leave) = ([], []) \<or> (enter, leave) = ([Acquire Com_Apartment], [Release Com_Apartment])" for enter leave
    using that by (auto simp: balanced_account [OF wu_search_refs(2)])
  have full: "account [] (enter @ [Acquire Com_Session] @ snd (wu_search env) @ refs' @
      [Release Com_Search_Result, Release Com_Searcher, Release Com_Session] @ leave) = Some []"
    if "fst (wu_search env)" "balanced refs'" "(enter, leave) = ([], []) \<or> (enter, leave) = ([Acquire Com_Apartment], [Release Com_Apartment])"
    for enter leave refs'
    using that by (auto simp: wu_search_refs(1) balanced_account)
  show ?thesis
  proof (cases "wa_init env")
    case Co_Ok
    then show ?thesis
      using assms search [of "[Acquire Com_Apartment]" "[Release Com_Apartment]"] full [of _ "[Acquire Com_Apartment]" "[Release Com_Apartment]"]
      by (auto simp: win_patches_install_def Let_def dest: install_found_refs split: if_splits)
  next
    case Co_Changed_Mode
    then show ?thesis
      using assms search [of "[]" "[]"] full [of _ "[]" "[]"]
      by (auto simp: win_patches_install_def Let_def dest: install_found_refs split: if_splits)
  next
    case (Co_Failed hr)
    then show ?thesis using assms by (auto simp: win_patches_install_def)
  qed
qed


definition patch_fits :: "leo_patch \<Rightarrow> bool" where
  "patch_fits p \<longleftrightarrow> patch_id p \<noteq> [] \<and> length (patch_id p) < LEO_PATCH_ID_MAX_LEN \<and> length (patch_title p) < LEO_PATCH_TITLE_MAX_LEN"

lemma bstr_to_utf8_length: "0 < n \<Longrightarrow> length (bstr_to_utf8 cutf s n) < n"
  by (auto simp: bstr_to_utf8_def split: option.splits)

lemma fill_patch_fits:
  assumes "fill_patch_from_update cutf u = Some (p, es)" "patch_id p \<noteq> []"
  shows "patch_fits p"
proof -
  have "length (update_id cutf u) < LEO_PATCH_ID_MAX_LEN"
    using bstr_to_utf8_length [of LEO_PATCH_ID_MAX_LEN cutf] strncpy_buf_length [of LEO_PATCH_ID_MAX_LEN]
    by (auto simp: update_id_def kb_id_def LEO_PATCH_ID_MAX_LEN_def split: option.splits list.splits)
  with assms show ?thesis
    by (auto simp: fill_patch_from_update_def patch_fits_def LEO_PATCH_TITLE_MAX_LEN_def bstr_to_utf8_length split: option.splits)
qed

lemma collect_updates_fits:
  "collect_updates cutf m us out = Some (ps, es) \<Longrightarrow> list_all patch_fits out \<Longrightarrow> list_all patch_fits ps"
proof (induction cutf m us out arbitrary: ps es rule: collect_updates.induct)
  case (2 cutf m x us out)
  show ?case
  proof (cases "m \<le> length out \<or> x = None")
    case False
    then obtain u where u: "x = Some u" "\<not> m \<le> length out" by auto
    with 2(3) obtain p es1 es2 where p: "fill_patch_from_update cutf u = Some (p, es1)"
      "collect_updates cutf m us (if patch_id p \<noteq> [] then out @ [p] else out) = Some (ps, es2)"
      by (auto split: option.splits)
    from 2(2) [OF u(2,1) p(1) refl p(2)] 2(4) fill_patch_fits [OF p(1)] show ?thesis by (simp split: if_splits)
  qed (use 2 in \<open>auto split: if_splits\<close>)
qed simp

lemma win_patches_collect_cases:
  assumes "win_patches_collect env n = Some (Some ps, es)"
  shows "account [] es = Some [] \<and>
         (ps = [] \<or> (\<exists>us es'. wa_updates env = Some us \<and> collect_updates (wa_cut env) (nat n) us [] = Some (ps, es')))"
proof -
  define found where "found = (if wa_session env \<and> fst (wu_search env) then wa_updates env else None)"
  show ?thesis
  proof (cases "wa_init env")
    case (Co_Failed hr)
    with assms show ?thesis by (auto simp: win_patches_collect_def split: if_splits)
  next
    case Co_Ok
    with assms obtain es' where c: "(case found of None \<Rightarrow> Some ([], []) | Some us \<Rightarrow> collect_updates (wa_cut env) (nat n) us []) = Some (ps, es')"
      and es: "es = [Acquire Com_Apartment] @ (if wa_session env then [Acquire Com_Session] @ snd (wu_search env) @
         (if found \<noteq> None then held_briefly Com_Updates es' else []) @
         (if fst (wu_search env) then [Release Com_Search_Result, Release Com_Searcher] else []) @ [Release Com_Session] else []) @ [Release Com_Apartment]"
      by (auto simp: win_patches_collect_def Let_def found_def split: if_splits)
    have "balanced es'" using c collect_updates_eq by (fastforce split: option.splits)
    then show ?thesis
      using c es by (cases "fst (wu_search env)")
        (auto simp: found_def wu_search_refs(1) balanced_account [OF wu_search_refs(2)] balanced_account [OF balanced_held_briefly] split: option.splits if_splits)
  next
    case Co_Changed_Mode
    with assms obtain es' where c: "(case found of None \<Rightarrow> Some ([], []) | Some us \<Rightarrow> collect_updates (wa_cut env) (nat n) us []) = Some (ps, es')"
      and es: "es = (if wa_session env then [Acquire Com_Session] @ snd (wu_search env) @
         (if found \<noteq> None then held_briefly Com_Updates es' else []) @
         (if fst (wu_search env) then [Release Com_Search_Result, Release Com_Searcher] else []) @ [Release Com_Session] else [])"
      by (auto simp: win_patches_collect_def Let_def found_def split: if_splits)
    have "balanced es'" using c collect_updates_eq by (fastforce split: option.splits)
    then show ?thesis
      using c es by (cases "fst (wu_search env)")
        (auto simp: found_def wu_search_refs(1) balanced_account [OF wu_search_refs(2)] balanced_account [OF balanced_held_briefly] split: option.splits if_splits)
  qed
qed

text \<open>a list of patches has at most the number asked for, each with an identifier and within its
  buffers, and every COM reference is released; and what is listed can be installed: a later
  installation that meets the same search result and is given the listed identifiers selects updates
  with exactly these identifiers.\<close>

theorem win_listed_installable:
  assumes "win_patches_collect env n = Some (Some ps, es)"
  shows "int (length ps) \<le> n \<and> list_all patch_fits ps \<and> account [] es = Some [] \<and>
         set (map (update_id (wa_cut env)) (requested_updates env (map patch_id ps) (int (length ps)))) = set (map patch_id ps)"
proof -
  from assms have n: "0 < n" by (auto simp: win_patches_collect_def split: if_splits)
  note c = win_patches_collect_cases [OF assms]
  show ?thesis
  proof (cases "ps = []")
    case True
    with c n show ?thesis by (simp add: requested_updates_def id_in_list_def)
  next
    case False
    with c obtain us es' where us: "wa_updates env = Some us" "collect_updates (wa_cut env) (nat n) us [] = Some (ps, es')" by auto
    let ?ids = "\<lambda>us. map (update_id (wa_cut env)) (map the (filter (\<lambda>x. x \<noteq> None) us))"
    from collect_updates_eq [OF us(2)] obtain k where k: "length ps \<le> nat n" "map patch_id ps = filter (\<lambda>i. i \<noteq> []) (?ids (take k us))" by auto
    have "set (take k us) \<subseteq> set us" by (rule set_take_subset)
    then have "set (map patch_id ps) \<subseteq> set (filter (\<lambda>i. i \<noteq> []) (?ids us))" unfolding k(2) by auto
    moreover have "set (map (update_id (wa_cut env)) (requested_updates env ids (int (length ids)))) = set (filter (\<lambda>i. i \<noteq> []) (?ids us)) \<inter> set ids" for ids
      by (auto simp: requested_updates_def found_updates_def us(1) id_in_list_def list_ex_iff)
    ultimately have "set (map (update_id (wa_cut env)) (requested_updates env (map patch_id ps) (int (length (map patch_id ps))))) = set (map patch_id ps)"
      by blast
    then show ?thesis using c k(1) n collect_updates_fits [OF us(2)] by simp
  qed
qed

section \<open>A sample search\<close>

definition demo_update :: wu_update where
  "demo_update = \<lparr>wu_title = Some ''Security update'', wu_msrc = Some ''critical'', wu_size = Some (Dfin 1024),
     wu_kbs = Some [Some ''5034441''], wu_identity = None\<rparr>"

definition demo_wu :: wu_env where
  "demo_wu = \<lparr>wa_init = Co_Ok, wa_session = True, wa_searcher = True, wa_search = True, wa_updates = Some [None, Some demo_update],
     wa_cut = (\<lambda>s n. []), wa_clsid = True, wa_collection = True, wa_add = (\<lambda>_. True), wa_downloader = True, wa_download = True,
     wa_dl_result = True, wa_installer = True, wa_install = True, wa_inst_result = True, wa_code = 2, wa_reboot_required = True,
     wa_token = True, wa_luid = True\<rparr>"

lemma demo_update_filled:
  "fill_patch_from_update (wa_cut demo_wu) demo_update =
     Some (\<lparr>patch_id = ''KB5034441'', patch_title = ''Security update'', patch_severity = LEO_PATCH_SEVERITY_CRITICAL, patch_size_bytes = 1024\<rparr>,
           fill_refs (wa_cut demo_wu) demo_update)"
proof -
  have "update_id (wa_cut demo_wu) demo_update = ''KB5034441''"
    by (simp add: update_id_def kb_id_def demo_update_def bstr_to_utf8_def strncpy_buf_def LEO_PATCH_ID_MAX_LEN_def)
  moreover have "severity_from_msrc (wa_cut demo_wu) (wu_msrc demo_update) = LEO_PATCH_SEVERITY_CRITICAL"
    by (simp add: severity_from_msrc_def demo_update_def bstr_to_utf8_def strcasecmp_eq_def) code_simp
  moreover have "update_size demo_update = Some 1024" by (simp add: update_size_def demo_update_def trunc_rat_def)
  ultimately show ?thesis by (simp add: fill_patch_from_update_def) (simp add: demo_update_def bstr_to_utf8_def LEO_PATCH_TITLE_MAX_LEN_def)
qed


theorem win_listed_installable_witness:
  "\<exists>p es. win_patches_collect demo_wu 5 = Some (Some [p], es) \<and> patch_fits p \<and> account [] es = Some [] \<and>
     set (map (update_id (wa_cut demo_wu)) (requested_updates demo_wu [patch_id p] 1)) = {patch_id p}"
proof -
  have up: "wa_updates demo_wu = Some [None, Some demo_update]" by (simp add: demo_wu_def)
  have "wa_init demo_wu = Co_Ok" "wa_session demo_wu" "fst (wu_search demo_wu)" by (simp_all add: demo_wu_def wu_search_def)
  then obtain p es where run: "win_patches_collect demo_wu 5 = Some (Some [p], es)"
    by (simp add: win_patches_collect_def up demo_update_filled)
  from win_listed_installable [OF run] run show ?thesis by auto
qed

end
