(* ===== verification/Commands_Win.thy ===== *)
theory Commands_Win
  imports Commands Patches_Win
begin

text \<open>
  The thread of \<^verbatim>\<open>agent/src/agent.c\<close> that runs one command, in the program built for Windows: the same
  code, calling the functions of \<^verbatim>\<open>executor.h\<close> and \<^verbatim>\<open>patches.h\<close> that \<open>Executor_Win\<close> and \<open>Patches_Win\<close>
  model. A child is started with one command line; \<open>win_given\<close> is the argument list it reads from it.
\<close>

section \<open>The functions of the system\<close>

record win_cmd =
  wcm_exec :: "nat \<Rightarrow> win_env"
  wcm_updates :: wu_env

text \<open>The updates are installed by the update service: that starts no child of the agent.\<close>

definition win_platform :: "win_cmd \<Rightarrow> platform" where
  "win_platform w =
     \<lparr>pf_script = (\<lambda>i s t r. without_handles (win_exec_script (wcm_exec w 0) i s t r)),
      pf_argv = (\<lambda>k argv ee t r. without_handles (win_exec_argv (wcm_exec w k) argv ee t r)),
      pf_patches = (\<lambda>ids n b t r. map_option (\<lambda>(e, r', wu, refs). (e, r', [])) (win_patches_install (wcm_updates w) ids n b t r))\<rparr>"

definition win_exec_thread :: "win_cmd \<Rightarrow> cmd_env \<Rightarrow> exec_ctx \<Rightarrow> leo_agent \<Rightarrow> (cmd_outcome \<times> leo_agent) option" where
  "win_exec_thread w env = exec_thread_on (win_platform w) env"

section \<open>What a command may do\<close>

definition win_given :: "cstring list \<Rightarrow> cstring list" where
  "win_given a = documented_argv (hd a)"

definition win_scripts :: "cstring \<Rightarrow> cstring list set" where
  "win_scripts interp = {script_argv (interp = ''powershell'') path | path. interp \<in> set WIN_ALLOWED_INTERPRETERS}"

lemma spawned_iff: "a \<in> set (spawned eff) \<longleftrightarrow> (\<exists>ee. Spawn a ee \<in> set eff)"
  by (induction eff) (auto split: exec_effect.splits)

lemma plain_program_read:
  assumes "plain_program argv"
  shows "win_given [command_line argv] = argv"
proof -
  obtain prog args where argv: "argv = prog # args" "prog \<in> {''apt-get'', ''shutdown'', ''systemctl''}"
    using assms by (cases argv) (auto simp: plain_program_def)
  have "\<not> needs_quotes ''apt-get''" "\<not> needs_quotes ''shutdown''" "\<not> needs_quotes ''systemctl''" by code_simp+
  with argv show ?thesis by (auto simp: win_given_def documented_command_line)
qed

lemma win_child_within:
  assumes "win_run_child env line ee t = Some (e, r, eff, hs)"
  shows "ran_within win_given {win_given [line]} e r eff"
  using win_run_child_done [OF assms] by (fastforce simp: ran_within_def spawned_iff)

lemma win_patches_fits:
  assumes "win_patches_install env (Some ids) count b t r0 = Some (e, r, effs, refs)" "e = LEO_OK"
  shows "result_fits r"
proof -
  have "0 < count" using assms by (simp add: win_patches_install_def split: if_splits)
  from win_patches_install_cases [OF assms(1) this] show ?thesis
    using install_selected_spec [of env _ b r]
    by (auto simp: install_found_def Let_def split: option.splits if_splits prod.splits)
qed

interpretation win_exec: exec_platform "win_platform w" win_given win_scripts "\<lambda>ids. {}" for w
proof unfold_locales
  fix i s t r rc r' eff
  assume "pf_script (win_platform w) (Some i) s t r = Some (rc, r', eff)"
  then obtain hs where run: "win_exec_script (wcm_exec w 0) (Some i) s t r = Some (rc, r', eff, hs)"
    by (auto simp: win_platform_def without_handles_def)
  show "ran_within win_given (win_scripts i) rc r' eff"
  proof (rule win_exec_script_cases [OF run], goal_cases)
    case (3 interp src path eff')
    from win_child_within [OF 3(5)] show ?case
      using 3(1,2,4) by (auto simp: ran_within_def tidy_def win_scripts_def win_given_def script_argv_read spawned_iff)
  qed (auto simp: ran_within_def spawned_iff)
next
  fix k argv ee t r rc r' eff
  assume "pf_argv (win_platform w) k argv ee t r = Some (rc, r', eff)" and plain: "plain_program argv"
  then obtain hs where run: "win_exec_argv (wcm_exec w k) argv ee t r = Some (rc, r', eff, hs)"
    by (auto simp: win_platform_def without_handles_def)
  then show "ran_within win_given {argv} rc r' eff"
    using plain win_child_within plain_program_read [OF plain]
    by (fastforce simp: win_exec_argv_def build_cmdline_eq LEO_EXEC_CMDLINE_MAX_def ran_within_def plain_program_def split: if_splits)
next
  fix ids b t r rc r' eff
  assume "pf_patches (win_platform w) (Some ids) (int (length ids)) b t r = Some (rc, r', eff)"
  then show "ran_within win_given {} rc r' eff" by (auto simp: win_platform_def ran_within_def dest: win_patches_fits)
qed

section \<open>A sample run\<close>

definition demo_win_cmd :: win_cmd where
  "demo_win_cmd = \<lparr>wcm_exec = (\<lambda>_. demo_win), wcm_updates = demo_wu\<rparr>"

definition demo_script_ctx :: exec_ctx where
  "demo_script_ctx = zero_ctx\<lparr>ctx_cmd_id := ''c1'', ctx_timeout_secs := 5, ctx_kind := EXEC_KIND_SCRIPT, ctx_interpreter := ''cmd'', ctx_script := Some ''dir''\<rparr>"

lemma demo_script_run:
  "\<exists>o1 ag' a. win_exec_thread demo_win_cmd demo_cmd_env demo_script_ctx demo_agent = Some (o1, ag') \<and> a \<in> set (spawned (co_effects o1))"
proof -
  obtain r eff hs a x where "win_exec_script demo_win (Some ''cmd'') (Some ''dir'') 5 (ce_result demo_cmd_env) = Some (LEO_OK, r, eff, hs)"
    "Spawn a x \<in> set eff" using demo_win_runs by blast
  then show ?thesis
    by (auto simp: win_exec_thread_def exec_thread_on_def run_command_def run_script_def demo_script_ctx_def zero_ctx_def win_platform_def
        demo_win_cmd_def without_handles_def spawned_iff)
qed

end
