(* ===== verification/Crypto_Win.thy ===== *)
theory Crypto_Win
  imports Crypto
begin

text \<open>
  \<^verbatim>\<open>agent/platform/windows/crypto_win.c\<close>: PEM files and fingerprints on Windows. Paths, their separator and
  the creation of directories differ from Linux; the reading and writing of a file and the digests are the
  same C text in both files. Both systems fulfil the contract \<open>cert_store\<close>.
\<close>

section \<open>Paths and directories\<close>

definition BSL :: char where "BSL = CHR 0x5C"

definition WIN_CERTS_DIR :: cstring where
  "WIN_CERTS_DIR = ''C:'' @ [BSL] @ ''ProgramData'' @ [BSL] @ ''LeoOne'' @ [BSL] @ ''certs'' @ [BSL]"

definition WIN_CLIENT_CERT_FILE :: cstring where "WIN_CLIENT_CERT_FILE = WIN_CERTS_DIR @ ''client_cert.pem''"
definition WIN_CLIENT_KEY_FILE :: cstring where "WIN_CLIENT_KEY_FILE = WIN_CERTS_DIR @ ''client_key.pem''"

text \<open>The directories asked for, up to and including the first that is refused (\<open>can_mkdir\<close>:
  \<^verbatim>\<open>CreateDirectoryA\<close> succeeds or reports \<^verbatim>\<open>ERROR_ALREADY_EXISTS\<close>).\<close>

function win_mkdir_loop :: "disk \<Rightarrow> cstring \<Rightarrow> nat \<Rightarrow> nat \<Rightarrow> bool \<times> cstring list" where
  "win_mkdir_loop d tmp start i =
     (if length tmp < i then (True, [])
      else if i = length tmp \<or> tmp ! i = BSL then
        (if i = start then win_mkdir_loop d tmp start (Suc i)
         else if \<not> can_mkdir d (take i tmp) then (False, [take i tmp])
         else let (ok, made) = win_mkdir_loop d tmp start (Suc i) in (ok, take i tmp # made))
      else win_mkdir_loop d tmp start (Suc i))"
  by pat_completeness auto
termination by (relation "measure (\<lambda>(d, tmp, start, i). Suc (length tmp) - i)") auto

declare win_mkdir_loop.simps [simp del]

definition win_mkdir_p :: "disk \<Rightarrow> cstring \<Rightarrow> bool \<times> cstring list" where
  "win_mkdir_p d path =
     (let tmp = strncpy_buf 512 path;
          tmp = (if tmp \<noteq> [] \<and> last tmp = BSL then butlast tmp else tmp);
          start = (if 2 \<le> length tmp \<and> tmp ! 1 = CHR '':'' then 2 else 0)
      in win_mkdir_loop d tmp start start)"

section \<open>Files and fingerprints\<close>

definition win_read_file :: "disk \<Rightarrow> fs \<Rightarrow> cstring \<Rightarrow> nat \<Rightarrow> string option" where
  "win_read_file d files path buf_max =
     (case files path of
        None \<Rightarrow> None
      | Some bs \<Rightarrow> let buf = read_loop buf_max bs [] in if read_error d path then None else Some buf)"

definition win_write_file :: "disk \<Rightarrow> fs \<Rightarrow> cstring \<Rightarrow> cstring \<Rightarrow> bool \<times> fs" where
  "win_write_file d files path content =
     (if \<not> can_open_w d path then (False, files)
      else let len = length content; written = min len (can_fill d path len) in
           (if written \<noteq> len then False else True, files(path \<mapsto> take written content)))"

definition win_x509_sha256_hex :: "'cert openssl \<Rightarrow> 'cert \<Rightarrow> cstring option" where
  "win_x509_sha256_hex ossl cert =
     (case i2d_X509 ossl cert of
        None \<Rightarrow> None
      | Some der \<Rightarrow> if der = [] then None else map_option bytes_to_hex (EVP_sha256 ossl der))"

definition win_x509_fingerprint_matches :: "'cert openssl \<Rightarrow> 'cert option \<Rightarrow> cstring option \<Rightarrow> bool" where
  "win_x509_fingerprint_matches ossl cert expected_fp =
     (case (cert, expected_fp) of
        (Some c, Some fp) \<Rightarrow>
          length fp = 64 \<and>
          (case win_x509_sha256_hex ossl c of None \<Rightarrow> False | Some computed_fp \<Rightarrow> strcasecmp_eq computed_fp fp)
      | _ \<Rightarrow> False)"

definition win_verify_ca_fingerprint :: "'cert openssl \<Rightarrow> cstring option \<Rightarrow> cstring option \<Rightarrow> leo_error" where
  "win_verify_ca_fingerprint ossl ca_cert_pem expected_fp =
     (case (ca_cert_pem, expected_fp) of
        (Some pem, Some fp) \<Rightarrow>
          if length fp \<noteq> 64 then LEO_ERR_TLS
          else (case PEM_read_X509 ossl pem of
                  None \<Rightarrow> LEO_ERR_TLS
                | Some cert \<Rightarrow>
                    (case win_x509_sha256_hex ossl cert of
                       None \<Rightarrow> LEO_ERR_TLS
                     | Some computed_fp \<Rightarrow> if \<not> strcasecmp_eq computed_fp fp then LEO_ERR_TLS else LEO_OK))
      | _ \<Rightarrow> LEO_ERR_TLS)"

definition win_load_cert_key :: "disk \<Rightarrow> fs \<Rightarrow> nat option \<Rightarrow> nat option \<Rightarrow> leo_error \<times> (string \<times> string) option" where
  "win_load_cert_key d files cert_sz key_sz =
     (case (cert_sz, key_sz) of
        (Some csz, Some ksz) \<Rightarrow>
          if csz = 0 \<or> ksz = 0 then (LEO_ERR_TLS, None)
          else (case win_read_file d files WIN_CLIENT_CERT_FILE csz of
                  None \<Rightarrow> (LEO_ERR_TLS, None)
                | Some cert \<Rightarrow>
                    (case win_read_file d files WIN_CLIENT_KEY_FILE ksz of
                       None \<Rightarrow> (LEO_ERR_TLS, None)
                     | Some key \<Rightarrow> (LEO_OK, Some (cert, key))))
      | _ \<Rightarrow> (LEO_ERR_TLS, None))"

definition win_save_cert_key :: "disk \<Rightarrow> fs \<Rightarrow> cstring option \<Rightarrow> cstring option \<Rightarrow> leo_error \<times> fs" where
  "win_save_cert_key d files cert_pem key_pem =
     (case (cert_pem, key_pem) of
        (Some cert, Some key) \<Rightarrow>
          if \<not> fst (win_mkdir_p d WIN_CERTS_DIR) then (LEO_ERR_TLS, files)
          else let (ok, files) = win_write_file d files WIN_CLIENT_CERT_FILE cert in
               if \<not> ok then (LEO_ERR_TLS, files)
               else let (ok, files) = win_write_file d files WIN_CLIENT_KEY_FILE key in
                    if \<not> ok then (LEO_ERR_TLS, files) else (LEO_OK, files)
      | _ \<Rightarrow> (LEO_ERR_TLS, files))"

section \<open>The contract of both systems\<close>

lemma win_file_ops: "win_read_file = read_file" "win_write_file = write_file"
  by (auto simp: fun_eq_iff win_read_file_def read_file_def win_write_file_def write_file_def Let_def)

interpretation win_certs: cert_store win_save_cert_key win_load_cert_key WIN_CLIENT_CERT_FILE WIN_CLIENT_KEY_FILE
proof unfold_locales
  show "WIN_CLIENT_CERT_FILE \<noteq> WIN_CLIENT_KEY_FILE" by (simp add: WIN_CLIENT_CERT_FILE_def WIN_CLIENT_KEY_FILE_def)
qed (auto simp: win_save_cert_key_def win_load_cert_key_def win_file_ops write_file_def read_file_eq Let_def split: if_splits option.splits prod.splits)

section \<open>Both systems agree\<close>

lemma win_sha256_same: "win_x509_sha256_hex = x509_sha256_hex"
  by (auto simp: fun_eq_iff win_x509_sha256_hex_def x509_sha256_hex_def split: option.splits)

lemma win_fingerprint_same:
  "win_x509_fingerprint_matches ossl c fp = leo_crypto_x509_fingerprint_matches ossl c fp"
  "win_verify_ca_fingerprint ossl pem fp = leo_crypto_verify_ca_fingerprint ossl pem fp"
  by (auto simp: win_x509_fingerprint_matches_def leo_crypto_x509_fingerprint_matches_def win_verify_ca_fingerprint_def
      leo_crypto_verify_ca_fingerprint_def win_sha256_same split: option.splits)


section \<open>Directories are created parents first\<close>

definition win_prefixes :: "cstring \<Rightarrow> nat \<Rightarrow> cstring list" where
  "win_prefixes tmp i = map (\<lambda>k. take k tmp) (filter (\<lambda>k. k = length tmp \<or> tmp ! k = BSL) [i..<Suc (length tmp)])"

lemma win_prefixes_rec:
  "win_prefixes tmp i =
     (if length tmp < i then []
      else if i = length tmp \<or> tmp ! i = BSL then take i tmp # win_prefixes tmp (Suc i) else win_prefixes tmp (Suc i))"
  by (simp add: win_prefixes_def upt_rec [of i])

lemma win_mkdir_loop_eq:
  "start < i \<Longrightarrow> win_mkdir_loop d tmp start i =
     (list_all (can_mkdir d) (win_prefixes tmp i),
      takeWhile (can_mkdir d) (win_prefixes tmp i) @ take 1 (dropWhile (can_mkdir d) (win_prefixes tmp i)))"
proof (induction d tmp start i rule: win_mkdir_loop.induct)
  case (1 d tmp start i)
  show ?case
  proof (cases "i = length tmp \<or> tmp ! i = BSL")
    case True
    with 1 show ?thesis
      unfolding win_mkdir_loop.simps [of d tmp start i] win_prefixes_rec [of tmp i]
      by (cases "can_mkdir d (take i tmp)") (simp_all add: True)
  next
    case False
    with 1 show ?thesis
      unfolding win_mkdir_loop.simps [of d tmp start i] win_prefixes_rec [of tmp i] by simp
  qed
qed

text \<open>Below a drive letter every ancestor is asked for, outermost first, and the drive itself never.\<close>

theorem win_mkdir_p_parents_first:
  assumes "tmp = [drive, CHR '':'', BSL] @ rest" "rest \<noteq> []" "last rest \<noteq> BSL" "length tmp < 511"
  shows "win_mkdir_p d (tmp @ [BSL]) =
           (list_all (can_mkdir d) (win_prefixes tmp 3),
            takeWhile (can_mkdir d) (win_prefixes tmp 3) @ take 1 (dropWhile (can_mkdir d) (win_prefixes tmp 3)))"
proof -
  have len: "2 < length tmp" "tmp ! 1 = CHR '':''" "tmp ! 2 = BSL" using assms(1) by auto
  then have "win_mkdir_loop d tmp 2 2 = win_mkdir_loop d tmp 2 3"
    by (subst win_mkdir_loop.simps) (simp add: numeral_3_eq_3 numeral_2_eq_2)
  with win_mkdir_loop_eq [of 2 3 d tmp] len assms(4) show ?thesis by (simp add: win_mkdir_p_def strncpy_buf_id)
qed

section \<open>Concrete instances\<close>

theorem win_mkdir_p_parents_first_witness:
  "win_mkdir_p good_disk WIN_CERTS_DIR =
     (True, [''C:'' @ [BSL] @ ''ProgramData'', ''C:'' @ [BSL] @ ''ProgramData'' @ [BSL] @ ''LeoOne'',
             ''C:'' @ [BSL] @ ''ProgramData'' @ [BSL] @ ''LeoOne'' @ [BSL] @ ''certs''])"
proof -
  let ?rest = "''ProgramData'' @ [BSL] @ ''LeoOne'' @ [BSL] @ ''certs''"
  have dir: "WIN_CERTS_DIR = ([CHR ''C'', CHR '':'', BSL] @ ?rest) @ [BSL]" by (simp add: WIN_CERTS_DIR_def)
  have "win_prefixes ([CHR ''C'', CHR '':'', BSL] @ ?rest) 3 =
      [''C:'' @ [BSL] @ ''ProgramData'', ''C:'' @ [BSL] @ ''ProgramData'' @ [BSL] @ ''LeoOne'',
       ''C:'' @ [BSL] @ ''ProgramData'' @ [BSL] @ ''LeoOne'' @ [BSL] @ ''certs'']"
    by code_simp
  moreover have "can_mkdir good_disk p" for p by (simp add: good_disk_def)
  ultimately show ?thesis
    unfolding dir using win_mkdir_p_parents_first [of "[CHR ''C'', CHR '':'', BSL] @ ?rest" "CHR ''C''" ?rest good_disk]
    by (simp add: BSL_def)
qed

lemma good_disk_saves:
  "leo_crypto_save_cert_key good_disk files (Some c) (Some k) = (LEO_OK, files(LEO_CLIENT_CERT_FILE \<mapsto> c, LEO_CLIENT_KEY_FILE \<mapsto> k))"
  "win_save_cert_key good_disk files (Some c) (Some k) = (LEO_OK, files(WIN_CLIENT_CERT_FILE \<mapsto> c, WIN_CLIENT_KEY_FILE \<mapsto> k))"
proof -
  have "fst (win_mkdir_p good_disk WIN_CERTS_DIR)" by code_simp
  then show "win_save_cert_key good_disk files (Some c) (Some k) = (LEO_OK, files(WIN_CLIENT_CERT_FILE \<mapsto> c, WIN_CLIENT_KEY_FILE \<mapsto> k))"
    by (simp add: win_save_cert_key_def win_file_ops write_file_def Let_def) (simp add: good_disk_def)
qed (simp add: leo_crypto_save_cert_key_def write_file_def Let_def, simp add: good_disk_def)


end
