(* ===== verification/Enroll_Win.thy ===== *)
theory Enroll_Win
  imports Enroll Crypto_Win
begin

text \<open>
  \<^verbatim>\<open>agent/src/enroll.c\<close> as compiled for Windows: how the machine identifies itself, and enrollment with the
  Windows certificate store. What the API answers is the record \<open>win_machine\<close>; a text that does not fit the
  buffer makes \<^verbatim>\<open>GetComputerNameA\<close> and \<^verbatim>\<open>RegGetValueA\<close> fail.
\<close>

record win_machine =
  wm_computer :: "cstring option"
  wm_version :: "(u32 \<times> u32 \<times> u32) option"    \<comment> \<open>\<^verbatim>\<open>RtlGetVersion\<close>, when found and successful\<close>
  wm_crypto_key :: bool                                \<comment> \<open>the key with \<^verbatim>\<open>MachineGuid\<close> opens\<close>
  wm_guid :: "cstring option"
  wm_target :: target

definition win_detect_hostname :: "win_machine \<Rightarrow> nat \<Rightarrow> cstring" where
  "win_detect_hostname wm sz =
     (case wm_computer wm of
        Some name \<Rightarrow> if length name < sz then name else strncpy_buf sz ''unknown-host''
      | None \<Rightarrow> strncpy_buf sz ''unknown-host'')"

definition win_detect_os_version :: "win_machine \<Rightarrow> nat \<Rightarrow> cstring" where
  "win_detect_os_version wm sz =
     (case wm_version wm of
        Some (major, minor, build) \<Rightarrow>
          strncpy_buf sz (show_nat (unat major) @ ''.'' @ show_nat (unat minor) @ ''.'' @ show_nat (unat build))
      | None \<Rightarrow> strncpy_buf sz ''unknown'')"

definition win_detect_arch :: "win_machine \<Rightarrow> nat \<Rightarrow> cstring" where
  "win_detect_arch wm sz =
     strncpy_buf sz (case wm_target wm of T_x86_64 \<Rightarrow> ''amd64'' | T_aarch64 \<Rightarrow> ''arm64'' | T_other \<Rightarrow> ''unknown'')"

definition win_detect_hardware_id :: "win_machine \<Rightarrow> nat \<Rightarrow> cstring option" where
  "win_detect_hardware_id wm sz =
     (if \<not> wm_crypto_key wm then None
      else case wm_guid wm of
        None \<Rightarrow> None
      | Some guid \<Rightarrow> if sz \<le> length guid \<or> guid = [] then None else Some guid)"

definition win_machine_config :: "win_machine \<Rightarrow> leo_config" where
  "win_machine_config wm =
     default_config\<lparr>hostname := win_detect_hostname wm 256, os_version := win_detect_os_version wm 128,
                    arch := win_detect_arch wm 16, os_name := strncpy_buf 32 ''windows''\<rparr>"

definition win_enroll ::
  "win_machine \<Rightarrow> enroll_env \<Rightarrow> fs \<Rightarrow> cstring \<Rightarrow> cstring \<Rightarrow> ((leo_error \<times> fs) + (leo_config \<times> fs)) option" where
  "win_enroll wm env files =
     enroll_on (win_machine_config wm) (win_detect_hardware_id wm 37) win_save_cert_key env files"

section \<open>What enrollment leaves on a Windows machine\<close>

lemma win_detect_hostname_fits: "12 < sz \<Longrightarrow> length (win_detect_hostname wm sz) < sz"
  by (auto simp: win_detect_hostname_def strncpy_buf_length split: option.splits)

lemma win_identity_fits: "identity_fits (win_machine_config wm) (win_detect_hardware_id wm 37)"
proof -
  have "length (win_detect_hostname wm 256) < 256" by (rule win_detect_hostname_fits) simp
  moreover have "length (win_detect_os_version wm 128) < 128" "length (win_detect_arch wm 16) < 16"
    by (auto simp: win_detect_os_version_def win_detect_arch_def strncpy_buf_length split: option.splits)
  ultimately show ?thesis
    using default_config_fits
    by (auto simp: identity_fits_def win_machine_config_def config_fits_def strncpy_buf_length win_detect_hardware_id_def
        split: option.splits if_splits)
qed

interpretation win_enrolling: enrollment win_save_cert_key win_load_cert_key WIN_CLIENT_CERT_FILE WIN_CLIENT_KEY_FILE
  by unfold_locales


section \<open>A sample enrollment\<close>

definition demo_win_machine :: win_machine where
  "demo_win_machine = \<lparr>wm_computer = Some ''PC'', wm_version = Some (10, 0, 7), wm_crypto_key = True, wm_guid = Some ''g1'', wm_target = T_x86_64\<rparr>"


end
