(* ===== verification/Metrics.thy ===== *)
theory Metrics
  imports Scan Floating Config
begin

text \<open>
  \<^verbatim>\<open>agent/platform/linux/metrics_linux.c\<close>: the metrics read from \<^verbatim>\<open>/proc\<close>. The files are the map \<open>me_files\<close>,
  \<^verbatim>\<open>statvfs\<close> and the clock are arguments, and so is what an uninitialised variable holds: a line of
  \<^verbatim>\<open>/proc/stat\<close> with five to eight fields leaves some of them unset. The snapshot kept between two
  collections (\<^verbatim>\<open>g_prev_cpu\<close>) is passed along.
\<close>

section \<open>Processor times\<close>

definition MAX_CPUS :: nat where "MAX_CPUS = 256"

record cpu_stats =
  cs_user :: u64
  cs_nice :: u64
  cs_system :: u64
  cs_idle :: u64
  cs_iowait :: u64
  cs_irq :: u64
  cs_softirq :: u64
  cs_steal :: u64

definition zero_stats :: cpu_stats where
  "zero_stats = \<lparr>cs_user = 0, cs_nice = 0, cs_system = 0, cs_idle = 0, cs_iowait = 0, cs_irq = 0, cs_softirq = 0, cs_steal = 0\<rparr>"

record cpu_snapshot =
  sn_total :: cpu_stats
  sn_cores :: "cpu_stats list"
  sn_count :: int
  sn_valid :: bool

definition zero_snapshot :: cpu_snapshot where
  "zero_snapshot = \<lparr>sn_total = zero_stats, sn_cores = replicate MAX_CPUS zero_stats, sn_count = 0, sn_valid = False\<rparr>"

definition CPU_FORMAT :: "scan_dir list" where
  "CPU_FORMAT = SD_Word 15 # concat (replicate 10 [SD_Space, SD_ULL])"

definition cpu_field :: "(nat \<Rightarrow> u64) \<Rightarrow> scan_val list \<Rightarrow> nat \<Rightarrow> u64" where
  "cpu_field uninit vs i = (if i < length vs then word_of_int (num_val vs i) else uninit i)"

text \<open>One line; \<open>None\<close> when fewer than five fields were read.\<close>

definition cpu_line :: "(nat \<Rightarrow> u64) \<Rightarrow> cstring \<Rightarrow> (cstring \<times> cpu_stats) option" where
  "cpu_line uninit line =
     (let vs = fst (scanf CPU_FORMAT line); f = cpu_field uninit vs in
      if length vs < 5 then None
      else Some (str_val vs 0,
                 \<lparr>cs_user = f 1, cs_nice = f 2, cs_system = f 3, cs_idle = f 4, cs_iowait = f 5, cs_irq = f 6,
                  cs_softirq = f 7, cs_steal = f 8\<rparr>))"

fun cpu_lines :: "(nat \<Rightarrow> u64) \<Rightarrow> string list \<Rightarrow> int \<Rightarrow> cpu_snapshot \<Rightarrow> int \<times> cpu_snapshot" where
  "cpu_lines uninit [] core_idx snap = (core_idx, snap)"
| "cpu_lines uninit (l # ls) core_idx snap =
     (if \<not> strprefix ''cpu'' (c_str l) then (core_idx, snap)
      else
        (case cpu_line uninit (c_str l) of
           None \<Rightarrow> cpu_lines uninit ls core_idx snap
         | Some (label, st) \<Rightarrow>
             if label = ''cpu'' then cpu_lines uninit ls core_idx (snap\<lparr>sn_total := st\<rparr>)
             else if int MAX_CPUS \<le> core_idx + 1 then cpu_lines uninit ls (core_idx + 1) snap
             else cpu_lines uninit ls (core_idx + 1) (snap\<lparr>sn_cores := (sn_cores snap)[nat (core_idx + 1) := st]\<rparr>)))"

definition read_cpu_stats :: "fs \<Rightarrow> (nat \<Rightarrow> u64) \<Rightarrow> cpu_snapshot option" where
  "read_cpu_stats files uninit =
     (case files ''/proc/stat'' of
        None \<Rightarrow> None
      | Some bs \<Rightarrow>
          let (core_idx, snap) = cpu_lines uninit (read_lines 256 bs) (- 1) zero_snapshot in
          Some (snap\<lparr>sn_count := (if 0 \<le> core_idx then core_idx + 1 else 0), sn_valid := True\<rparr>))"

definition stats_idle :: "cpu_stats \<Rightarrow> u64" where
  "stats_idle s = cs_idle s + cs_iowait s"

definition stats_total :: "cpu_stats \<Rightarrow> u64" where
  "stats_total s = cs_user s + cs_nice s + cs_system s + cs_idle s + cs_iowait s + cs_irq s + cs_softirq s + cs_steal s"

definition cpu_usage :: "cpu_stats \<Rightarrow> cpu_stats \<Rightarrow> dbl" where
  "cpu_usage prev cur =
     (let total_delta = stats_total cur - stats_total prev; idle_delta = stats_idle cur - stats_idle prev in
      if total_delta = 0 then Dfin 0
      else Dfin (dround (dround (of_nat (round53 (unat (total_delta - idle_delta))) / of_nat (round53 (unat total_delta))) * 100)))"

section \<open>Memory\<close>

definition MEM_TOTAL_FORMAT :: "scan_dir list" where "MEM_TOTAL_FORMAT = lits ''MemTotal: '' @ [SD_ULL] @ lits '' kB''"
definition MEM_AVAILABLE_FORMAT :: "scan_dir list" where "MEM_AVAILABLE_FORMAT = lits ''MemAvailable: '' @ [SD_ULL] @ lits '' kB''"

definition scan_kb :: "scan_dir list \<Rightarrow> cstring \<Rightarrow> u64 option" where
  "scan_kb fmt line =
     (let vs = fst (scanf fmt line) in if length vs = 1 then Some (word_of_int (num_val vs 0) * 1024) else None)"

fun meminfo_loop :: "string list \<Rightarrow> u64 \<Rightarrow> u64 \<Rightarrow> u64 \<times> u64" where
  "meminfo_loop [] tot avail = (tot, avail)"
| "meminfo_loop (l # ls) tot avail =
     (let (tot, avail) =
            (case scan_kb MEM_TOTAL_FORMAT (c_str l) of
               Some b \<Rightarrow> (b, avail)
             | None \<Rightarrow> (case scan_kb MEM_AVAILABLE_FORMAT (c_str l) of Some b \<Rightarrow> (tot, b) | None \<Rightarrow> (tot, avail)))
      in if tot \<noteq> 0 \<and> avail \<noteq> 0 then (tot, avail) else meminfo_loop ls tot avail)"

text \<open>Total, available and used; nothing is written when the file cannot be opened.\<close>

definition read_meminfo :: "fs \<Rightarrow> (u64 \<times> u64 \<times> u64) option" where
  "read_meminfo files =
     (case files ''/proc/meminfo'' of
        None \<Rightarrow> None
      | Some bs \<Rightarrow>
          let (tot, avail) = meminfo_loop (read_lines 128 bs) 0 0 in
          Some (tot, avail, if avail < tot then tot - avail else 0))"

section \<open>Disks\<close>

definition IGNORE_FS :: "cstring list" where
  "IGNORE_FS =
     [''proc'', ''sysfs'', ''devtmpfs'', ''tmpfs'', ''devpts'', ''securityfs'', ''cgroup'', ''cgroup2'', ''pstore'', ''bpf'',
      ''tracefs'', ''debugfs'', ''fusectl'', ''hugetlbfs'', ''mqueue'', ''overlay'', ''squashfs'']"

definition MOUNT_FORMAT :: "scan_dir list" where
  "MOUNT_FORMAT =
     [SD_Word 255, SD_Space, SD_Word 255, SD_Space, SD_Word 63, SD_Space, SD_Word 511, SD_Space, SD_Int, SD_Space, SD_Int]"

text \<open>\<^verbatim>\<open>statvfs\<close>: \<^verbatim>\<open>f_frsize\<close>, \<^verbatim>\<open>f_blocks\<close> and \<^verbatim>\<open>f_bfree\<close>, or a failure.\<close>

type_synonym statvfs = "cstring \<Rightarrow> (u64 \<times> u64 \<times> u64) option"

definition add_mount :: "statvfs \<Rightarrow> scan_val list \<Rightarrow> u64 \<times> u64 \<Rightarrow> u64 \<times> u64" where
  "add_mount stat vs acc =
     (if str_val vs 2 \<in> set IGNORE_FS then acc
      else (case stat (str_val vs 1) of
              None \<Rightarrow> acc
            | Some (blk, blocks, bfree) \<Rightarrow> (fst acc + blk * blocks, snd acc + blk * (blocks - bfree))))"

lemma mount_progress: "length (fst (scanf MOUNT_FORMAT s)) = 6 \<Longrightarrow> length (snd (scanf MOUNT_FORMAT s)) < length s"
proof -
  assume *: "length (fst (scanf MOUNT_FORMAT s)) = 6"
  define ds where "ds = tl MOUNT_FORMAT"
  have fmt: "MOUNT_FORMAT = SD_Word 255 # ds" by (simp add: ds_def MOUNT_FORMAT_def)
  from * obtain w r where w: "scan_word 255 s = Some (w, r)"
    by (cases "scan_word 255 s") (auto simp: fmt scan_dir_def)
  then have "snd (scanf MOUNT_FORMAT s) = snd (scanf ds r)" by (simp add: fmt scan_dir_def split: prod.splits)
  with scanf_rest [of ds r] scan_word_rest [OF w] show ?thesis by simp
qed

function disk_loop :: "statvfs \<Rightarrow> string \<Rightarrow> u64 \<times> u64 \<Rightarrow> u64 \<times> u64" where
  "disk_loop stat s acc =
     (let (vs, r) = scanf MOUNT_FORMAT s in
      if length vs = 6 then disk_loop stat r (add_mount stat vs acc) else acc)"
  by pat_completeness auto
termination
proof (relation "measure (\<lambda>(stat, s, acc). length s)")
  fix stat s acc x vs r
  assume "x = scanf MOUNT_FORMAT s" "(vs, r) = x" and six: "length vs = 6"
  then have "scanf MOUNT_FORMAT s = (vs, r)" by simp
  with mount_progress [of s] six show "((stat, r, add_mount stat vs acc), stat, s, acc) \<in> measure (\<lambda>(stat, s, acc). length s)"
    by simp
qed simp

declare disk_loop.simps [simp del]

definition read_disk_usage :: "fs \<Rightarrow> statvfs \<Rightarrow> (u64 \<times> u64) option" where
  "read_disk_usage files stat = map_option (\<lambda>bs. disk_loop stat bs (0, 0)) (files ''/proc/mounts'')"

section \<open>Network and processes\<close>

definition NET_FORMAT :: "scan_dir list" where
  "NET_FORMAT = [SD_Space, SD_Until 31 (CHR '':''), SD_Lit (CHR '':'')] @ concat (replicate 9 [SD_Space, SD_ULL])"

definition add_interface :: "string \<Rightarrow> u64 \<times> u64 \<Rightarrow> u64 \<times> u64" where
  "add_interface l acc =
     (let vs = fst (scanf NET_FORMAT (c_str l)) in
      if length vs < 10 \<or> str_val vs 0 = ''lo'' then acc
      else (fst acc + word_of_int (num_val vs 1), snd acc + word_of_int (num_val vs 9)))"

definition read_net_stats :: "fs \<Rightarrow> (u64 \<times> u64) option" where
  "read_net_stats files =
     map_option (\<lambda>bs. fold add_interface (drop 2 (read_lines 512 bs)) (0, 0)) (files ''/proc/net/dev'')"

definition LOAD_FORMAT :: "scan_dir list" where
  "LOAD_FORMAT =
     [SD_Float, SD_Space, SD_Float, SD_Space, SD_Float, SD_Space, SD_ULL, SD_Lit (CHR ''/''), SD_ULL, SD_Space, SD_Int]"

definition read_process_count :: "fs \<Rightarrow> u32" where
  "read_process_count files =
     (case files ''/proc/loadavg'' of
        None \<Rightarrow> 0
      | Some bs \<Rightarrow> let vs = fst (scanf LOAD_FORMAT bs) in if 5 \<le> length vs then word_of_int (num_val vs 4) else 0)"

section \<open>Collecting\<close>

record metrics_env =
  me_files :: fs
  me_now :: u64
  me_uninit :: "nat \<Rightarrow> u64"
  me_statvfs :: statvfs

definition leo_metrics_init :: "metrics_env \<Rightarrow> cpu_snapshot \<Rightarrow> leo_error \<times> cpu_snapshot" where
  "leo_metrics_init env g =
     (LEO_OK, case read_cpu_stats (me_files env) (me_uninit env) of Some s \<Rightarrow> s | None \<Rightarrow> g)"

definition zero_metrics :: leo_metrics where
  "zero_metrics =
     \<lparr>cpu_total_percent = Dfin 0, cpu_per_core = replicate 256 (Dfin 0), cpu_core_count = 0, ram_total_bytes = 0,
      ram_used_bytes = 0, ram_available_bytes = 0, disk_total_bytes = 0, disk_used_bytes = 0, net_bytes_in = 0,
      net_bytes_out = 0, process_count = 0, timestamp_ms = 0\<rparr>"

definition collect_cpu :: "metrics_env \<Rightarrow> cpu_snapshot \<Rightarrow> leo_metrics \<Rightarrow> leo_metrics \<times> cpu_snapshot" where
  "collect_cpu env g out =
     (case read_cpu_stats (me_files env) (me_uninit env) of
        None \<Rightarrow> (out, g)
      | Some cur \<Rightarrow>
          if \<not> sn_valid g then (out, g)
          else
            let cores = (if sn_count cur < 256 then sn_count cur else 256) in
            (out\<lparr>cpu_total_percent := cpu_usage (sn_total g) (sn_total cur), cpu_core_count := cores,
                 cpu_per_core := map (\<lambda>i. cpu_usage (sn_cores g ! i) (sn_cores cur ! i)) [0..<nat cores] @
                                 drop (nat cores) (cpu_per_core out)\<rparr>, cur))"

definition leo_metrics_collect :: "metrics_env \<Rightarrow> cpu_snapshot \<Rightarrow> leo_error \<times> leo_metrics \<times> cpu_snapshot" where
  "leo_metrics_collect env g =
     (let files = me_files env;
          (out, g) = collect_cpu env g (zero_metrics\<lparr>timestamp_ms := me_now env\<rparr>);
          out = (case read_meminfo files of
                   Some (t, a, u) \<Rightarrow> out\<lparr>ram_total_bytes := t, ram_available_bytes := a, ram_used_bytes := u\<rparr> | None \<Rightarrow> out);
          out = (case read_disk_usage files (me_statvfs env) of
                   Some (t, u) \<Rightarrow> out\<lparr>disk_total_bytes := t, disk_used_bytes := u\<rparr> | None \<Rightarrow> out);
          out = (case read_net_stats files of Some (i, u) \<Rightarrow> out\<lparr>net_bytes_in := i, net_bytes_out := u\<rparr> | None \<Rightarrow> out)
      in (LEO_OK, out\<lparr>process_count := read_process_count files\<rparr>, g))"

definition leo_metrics_destroy :: "cpu_snapshot \<Rightarrow> cpu_snapshot" where
  "leo_metrics_destroy g = zero_snapshot"

text \<open>\<^verbatim>\<open>agent/src/metrics.c\<close>; \<open>None\<close> is NULL.\<close>

definition leo_metrics_is_valid :: "leo_metrics option \<Rightarrow> bool" where
  "leo_metrics_is_valid m = (case m of None \<Rightarrow> False | Some x \<Rightarrow> 0 < timestamp_ms x)"

section \<open>The percentage\<close>

definition nat_idle :: "cpu_stats \<Rightarrow> nat" where
  "nat_idle s = unat (cs_idle s) + unat (cs_iowait s)"

definition nat_total :: "cpu_stats \<Rightarrow> nat" where
  "nat_total s = unat (cs_user s) + unat (cs_nice s) + unat (cs_system s) + nat_idle s + unat (cs_irq s) +
     unat (cs_softirq s) + unat (cs_steal s)"

text \<open>No counter went back, and the sum of the later ones stays below \<open>2 ^ 53\<close> (ticks of 10 ms: millions
  of years).\<close>

definition counters_grow :: "cpu_stats \<Rightarrow> cpu_stats \<Rightarrow> bool" where
  "counters_grow p c \<longleftrightarrow>
     list_all (\<lambda>f. unat (f p) \<le> unat (f c))
       [cs_user, cs_nice, cs_system, cs_idle, cs_iowait, cs_irq, cs_softirq, cs_steal] \<and> nat_total c < 2 ^ 53"

lemma stats_sums:
  assumes "nat_total s < 2 ^ 64"
  shows "unat (stats_total s) = nat_total s" "unat (stats_idle s) = nat_idle s"
proof -
  have "stats_total s = of_nat (nat_total s)" "stats_idle s = of_nat (nat_idle s)"
    by (simp_all add: stats_total_def nat_total_def stats_idle_def nat_idle_def)
  moreover have "nat_idle s < 2 ^ 64" using assms by (simp add: nat_total_def)
  ultimately show "unat (stats_total s) = nat_total s" "unat (stats_idle s) = nat_idle s"
    using assms by (simp_all add: unsigned_of_nat take_bit_nat_eq_self)
qed

lemma usage_deltas:
  assumes "counters_grow p c"
  shows "unat (stats_total c - stats_total p) = nat_total c - nat_total p"
    "unat ((stats_total c - stats_total p) - (stats_idle c - stats_idle p)) = (nat_total c - nat_total p) - (nat_idle c - nat_idle p)"
    "nat_idle c - nat_idle p \<le> nat_total c - nat_total p" "nat_total c - nat_total p < 2 ^ 53"
proof -
  from assms have le: "nat_total p \<le> nat_total c" "nat_idle p \<le> nat_idle c" and small: "nat_total c < 2 ^ 64" "nat_total p < 2 ^ 64"
    by (simp_all add: counters_grow_def nat_total_def nat_idle_def)
  from assms have "nat_idle c + nat_total p \<le> nat_total c + nat_idle p" by (simp add: counters_grow_def nat_total_def nat_idle_def)
  moreover have "nat_total c < 2 ^ 53" using assms by (simp add: counters_grow_def)
  ultimately show i: "nat_idle c - nat_idle p \<le> nat_total c - nat_total p" "nat_total c - nat_total p < 2 ^ 53"
    using le by linarith+
  show t: "unat (stats_total c - stats_total p) = nat_total c - nat_total p"
    using le(1) small by (simp add: unat_sub word_le_nat_alt stats_sums)
  have "unat (stats_idle c - stats_idle p) = nat_idle c - nat_idle p"
    using le(2) small by (simp add: unat_sub word_le_nat_alt stats_sums)
  with t i(1) show "unat ((stats_total c - stats_total p) - (stats_idle c - stats_idle p)) =
      (nat_total c - nat_total p) - (nat_idle c - nat_idle p)"
    by (simp add: unat_sub word_le_nat_alt)
qed

lemma percent_rounding:
  assumes "0 \<le> q" "q \<le> 1"
  shows "0 \<le> dround (dround q * 100) \<and> dround (dround q * 100) \<le> 100 \<and> \<bar>dround (dround q * 100) - q * 100\<bar> \<le> 1 / 10 ^ 9"
proof (cases "q = 0")
  case False
  then have pos: "0 < q" using assms by simp
  have d1: "dround q \<le> 1" using dround_le_nat [of q 1] assms by simp
  then have "dround (dround q * 100) \<le> 100" using dround_le_nat [of "dround q * 100" 100] by simp
  moreover define k :: rat where "k = 1 / 2 ^ 53"
  moreover have "\<bar>dround q - q\<bar> \<le> k"
    using dround_error [OF pos] assms(2) by (simp add: k_def field_simps)
  moreover have "\<bar>dround (dround q * 100) - dround q * 100\<bar> \<le> 100 * k"
  proof (cases "0 < dround q")
    case True
    then have "\<bar>dround (dround q * 100) - dround q * 100\<bar> \<le> dround q * 100 / 2 ^ 53" by (intro dround_error) simp
    also have "\<dots> \<le> 100 * k" using d1 by (simp add: k_def field_simps)
    finally show ?thesis .
  next
    case False
    with dround_nonneg [of q] have "dround q = 0" by simp
    then show ?thesis by (simp add: dround_def k_def)
  qed
  moreover have "200 * k \<le> 1 / 10 ^ 9" by (simp add: k_def)
  ultimately show ?thesis using dround_nonneg [of "dround q * 100"] unfolding abs_le_iff by linarith
qed (simp add: dround_def)

text \<open>between two snapshots in which no counter went back, the reported usage is a percentage:
  a number from 0 to 100 that differs from the exact ratio of busy to elapsed ticks by less than a
  billionth.\<close>

theorem cpu_usage_percent:
  assumes "counters_grow prev cur"
  shows "\<exists>x. cpu_usage prev cur = Dfin x \<and> 0 \<le> x \<and> x \<le> 100 \<and>
           (nat_total prev < nat_total cur \<longrightarrow>
              \<bar>x - of_nat ((nat_total cur - nat_total prev) - (nat_idle cur - nat_idle prev)) / of_nat (nat_total cur - nat_total prev) * 100\<bar>
                \<le> 1 / 10 ^ 9)"
proof -
  let ?T = "nat_total cur - nat_total prev" and ?I = "nat_idle cur - nat_idle prev"
  note d = usage_deltas [OF assms]
  show ?thesis
  proof (cases "?T = 0")
    case True
    with d(1) have "stats_total cur - stats_total prev = 0" by (simp add: unat_eq_0)
    with True show ?thesis by (simp add: cpu_usage_def Let_def)
  next
    case False
    let ?q = "of_nat (?T - ?I) / of_nat ?T :: rat"
    have q: "0 \<le> ?q" "?q \<le> 1" using False by (simp_all add: divide_le_eq_1)
    have "stats_total cur - stats_total prev \<noteq> 0" using False d(1) by (metis unat_0)
    then have "cpu_usage prev cur = Dfin (dround (dround ?q * 100))"
      using d(4) unfolding cpu_usage_def Let_def d(1,2) by (simp add: round53_exact)
    with percent_rounding [OF q] show ?thesis by auto
  qed
qed

text \<open>A counter that goes back, as \<^verbatim>\<open>iowait\<close> may, leads to more than a hundred percent.\<close>

theorem cpu_usage_above_100:
  "cpu_usage (zero_stats\<lparr>cs_idle := 100, cs_iowait := 30\<rparr>) (zero_stats\<lparr>cs_user := 20, cs_idle := 110, cs_iowait := 10\<rparr>) = Dfin 200"
proof -
  have "dround 2 = 2" "dround 200 = 200" using dround_nat [of 2] dround_nat [of 200] by simp_all
  then show ?thesis by (simp add: cpu_usage_def stats_total_def stats_idle_def zero_stats_def round53_exact)
qed

section \<open>A collection is well formed\<close>

definition snapshot_wf :: "cpu_snapshot \<Rightarrow> bool" where
  "snapshot_wf g \<longleftrightarrow> length (sn_cores g) = MAX_CPUS \<and> 0 \<le> sn_count g"

lemma cpu_lines_wf: "length (sn_cores (snd (cpu_lines uninit ls i snap))) = length (sn_cores snap)"
  by (induction uninit ls i snap rule: cpu_lines.induct) (auto split: option.splits)

lemma read_cpu_stats_wf: "read_cpu_stats files uninit = Some s \<Longrightarrow> snapshot_wf s \<and> sn_valid s"
proof -
  assume "read_cpu_stats files uninit = Some s"
  then obtain bs i snap where "cpu_lines uninit (read_lines 256 bs) (- 1) zero_snapshot = (i, snap)"
    and s: "s = snap\<lparr>sn_count := (if 0 \<le> i then i + 1 else 0), sn_valid := True\<rparr>"
    by (auto simp: read_cpu_stats_def split: option.splits prod.splits)
  then have "length (sn_cores snap) = MAX_CPUS"
    using cpu_lines_wf [of uninit "read_lines 256 bs" "- 1" zero_snapshot] by (simp add: zero_snapshot_def)
  then show ?thesis by (simp add: s snapshot_wf_def)
qed

lemma read_meminfo_used:
  "read_meminfo files = Some (t, a, u) \<Longrightarrow> u \<le> t \<and> (a \<le> t \<longrightarrow> u + a = t)"
proof -
  assume "read_meminfo files = Some (t, a, u)"
  then have u: "u = (if a < t then t - a else 0)" by (auto simp: read_meminfo_def Let_def split: option.splits prod.splits)
  show ?thesis
  proof (cases "a < t")
    case True
    then have "unat (t - a) = unat t - unat a" by (intro unat_sub) simp
    with True u show ?thesis by (simp add: word_le_nat_alt)
  qed (use u in auto)
qed

text \<open>whatever the files hold, a collection succeeds, counts at most 256 cores and fills as many
  entries of an array of that size from arrays of the same size, reports no more memory used than
  there is, and keeps a snapshot for the next one.\<close>

theorem leo_metrics_collect_sound:
  assumes "snapshot_wf g" "leo_metrics_collect env g = (rc, m, g')"
  shows "rc = LEO_OK \<and> snapshot_wf g' \<and> (sn_valid g \<longrightarrow> sn_valid g') \<and>
         0 \<le> cpu_core_count m \<and> cpu_core_count m \<le> 256 \<and> length (cpu_per_core m) = 256 \<and> timestamp_ms m = me_now env \<and>
         ram_used_bytes m \<le> ram_total_bytes m \<and>
         (ram_available_bytes m \<le> ram_total_bytes m \<longrightarrow> ram_used_bytes m + ram_available_bytes m = ram_total_bytes m)"
proof -
  obtain out g1 where c: "collect_cpu env g (zero_metrics\<lparr>timestamp_ms := me_now env\<rparr>) = (out, g1)" by fastforce
  then have out: "snapshot_wf g1 \<and> (sn_valid g \<longrightarrow> sn_valid g1) \<and> 0 \<le> cpu_core_count out \<and> cpu_core_count out \<le> 256 \<and>
      length (cpu_per_core out) = 256 \<and> timestamp_ms out = me_now env \<and> ram_total_bytes out = 0 \<and> ram_used_bytes out = 0 \<and>
      ram_available_bytes out = 0"
    using assms(1) read_cpu_stats_wf
    by (auto simp: collect_cpu_def zero_metrics_def Let_def snapshot_wf_def split: option.splits if_splits)
  show ?thesis
    using assms(2) out read_meminfo_used [of "me_files env"]
    by (auto simp: leo_metrics_collect_def c Let_def split: option.splits)
qed

text \<open>When the first snapshot fails, no later collection takes its place: the processor usage stays at
  zero for good, not only in the first report.\<close>

theorem metrics_never_recover:
  "\<not> sn_valid g \<Longrightarrow> snd (snd (leo_metrics_collect env g)) = g \<and>
     cpu_total_percent (fst (snd (leo_metrics_collect env g))) = Dfin 0 \<and> cpu_core_count (fst (snd (leo_metrics_collect env g))) = 0"
  by (auto simp: leo_metrics_collect_def collect_cpu_def zero_metrics_def Let_def split: option.splits prod.splits)

section \<open>Reading the network counters\<close>

text \<open>A line of \<^verbatim>\<open>/proc/net/dev\<close>: the interface, eight numbers received, one sent, and the rest.\<close>

record net_iface =
  ni_name :: cstring
  ni_rx :: nat
  ni_mid :: "nat list"
  ni_tx :: nat
  ni_rest :: cstring

definition net_line :: "net_iface \<Rightarrow> cstring" where
  "net_line n = ni_name n @ '':'' @ concat (map (\<lambda>k. '' '' @ show_nat k) (ni_rx n # ni_mid n @ [ni_tx n])) @ ni_rest n"

definition iface_ok :: "net_iface \<Rightarrow> bool" where
  "iface_ok n \<longleftrightarrow>
     ni_name n \<noteq> [] \<and> length (ni_name n) \<le> 31 \<and> CHR '':'' \<notin> set (ni_name n) \<and> \<not> isspace (hd (ni_name n)) \<and>
     ni_rx n < 2 ^ 64 \<and> ni_tx n < 2 ^ 64 \<and> (\<forall>k \<in> set (ni_mid n). k < 2 ^ 64) \<and> length (ni_mid n) = 7 \<and>
     (ni_rest n = [] \<or> \<not> isdigit (hd (ni_rest n))) \<and> NUL \<notin> set (net_line n) \<and> NL \<notin> set (net_line n) \<and>
     length (net_line n) \<le> 510"

lemma scan_numbers:
  assumes "\<forall>k \<in> set ks. k < 2 ^ 64" "rest = [] \<or> \<not> isdigit (hd rest)"
  shows "scanf (concat (replicate (length ks) [SD_Space, SD_ULL])) (concat (map (\<lambda>k. '' '' @ show_nat k) ks) @ rest) =
           (map (\<lambda>k. SV_Num (int k)) ks, rest)"
  using assms(1)
proof (induction ks)
  case (Cons k ks)
  let ?r = "concat (map (\<lambda>k. '' '' @ show_nat k) ks) @ rest"
  obtain c cs where c: "show_nat k = c # cs" by (cases "show_nat k") auto
  have dig: "isdigit c" using show_nat_digits [of k] c by simp
  have sp: "isspace (CHR '' '')" "\<not> isdigit (CHR '' '')" by (simp_all add: isspace_def isdigit_def byte_of_def)
  have "?r = [] \<or> \<not> isdigit (hd ?r)" using assms(2) sp by (cases ks) simp_all
  then have "scan_int (show_nat k @ ?r) = Some (int k, ?r)" by (rule scan_int_show_nat)
  moreover have "dropWhile isspace ('' '' @ show_nat k @ ?r) = show_nat k @ ?r"
    using sp isdigit_imp [OF dig] by (simp add: c)
  ultimately show ?case using Cons by (simp add: scan_dir_def ull_of_nat)
qed (simp add: assms)

lemma add_interface_line:
  assumes "iface_ok n"
  shows "add_interface (net_line n @ [NL]) (i, u) =
           (if ni_name n = ''lo'' then (i, u) else (i + of_nat (ni_rx n), u + of_nat (ni_tx n)))"
proof -
  let ?ks = "ni_rx n # ni_mid n @ [ni_tx n]" and ?rest = "ni_rest n @ [NL]"
  let ?nums = "concat (map (\<lambda>k. '' '' @ show_nat k) ?ks) @ ?rest"
  have nul: "c_str (net_line n @ [NL]) = net_line n @ [NL]" using assms by (intro c_str_id) (simp add: iface_ok_def NL_def NUL_def)
  have line: "net_line n @ [NL] = ni_name n @ CHR '':'' # ?nums" by (simp add: net_line_def)
  have ks: "\<forall>k \<in> set ?ks. k < 2 ^ 64" "length ?ks = 9" using assms by (auto simp: iface_ok_def)
  have rest: "?rest = [] \<or> \<not> isdigit (hd ?rest)" using assms
    by (cases "ni_rest n") (auto simp: iface_ok_def isdigit_def NL_def byte_of_def)
  have "dropWhile isspace (net_line n @ [NL]) = net_line n @ [NL]" using assms by (cases "ni_name n") (auto simp: iface_ok_def line)
  moreover have "takeWhile (\<lambda>x. x \<noteq> CHR '':'') (net_line n @ [NL]) = ni_name n"
    unfolding line using assms by (subst takeWhile_append2) (auto simp: iface_ok_def)
  then have "scan_until 31 (CHR '':'') (net_line n @ [NL]) = Some (ni_name n, CHR '':'' # ?nums)"
    using assms by (simp add: scan_until_def iface_ok_def line)
  ultimately have "fst (scanf NET_FORMAT (net_line n @ [NL])) = SV_Str (ni_name n) # map (\<lambda>k. SV_Num (int k)) ?ks"
    using scan_numbers [OF ks(1) rest, unfolded ks(2)]
    by (simp add: NET_FORMAT_def scan_dir_def del: map_append split: prod.split)
  then show ?thesis using ks(2) by (simp add: add_interface_def nul Let_def str_val_def num_val_def nth_append del: map_append)
qed

text \<open>from a file in the kernel's format, the bytes reported are the sums over every interface but
  the loopback, modulo \<open>2 ^ 64\<close>.\<close>

theorem read_net_stats_sums:
  assumes "files ''/proc/net/dev'' = Some (concat (map (\<lambda>l. l @ [NL]) ([h1, h2] @ map net_line ns)))"
    and "\<forall>h \<in> {h1, h2}. NL \<notin> set h \<and> length h \<le> 510" "\<forall>n \<in> set ns. iface_ok n"
  shows "read_net_stats files =
           Some (of_nat (\<Sum>n \<leftarrow> filter (\<lambda>n. ni_name n \<noteq> ''lo'') ns. ni_rx n), of_nat (\<Sum>n \<leftarrow> filter (\<lambda>n. ni_name n \<noteq> ''lo'') ns. ni_tx n))"
proof -
  have "read_lines 512 (concat (map (\<lambda>l. l @ [NL]) ([h1, h2] @ map net_line ns))) = map (\<lambda>l. l @ [NL]) ([h1, h2] @ map net_line ns)"
    using assms(2,3) by (intro read_lines_concat) (auto simp: iface_ok_def)
  moreover have "fold add_interface (map (\<lambda>n. net_line n @ [NL]) ns) (i, u) =
      (i + of_nat (\<Sum>n \<leftarrow> filter (\<lambda>n. ni_name n \<noteq> ''lo'') ns. ni_rx n), u + of_nat (\<Sum>n \<leftarrow> filter (\<lambda>n. ni_name n \<noteq> ''lo'') ns. ni_tx n))"
    if "\<forall>n \<in> set ns. iface_ok n" for ns i u
    using that by (induction ns arbitrary: i u) (auto simp: add_interface_line add.assoc)
  ultimately show ?thesis using assms by (simp add: read_net_stats_def comp_def)
qed

section \<open>Sample readings\<close>

theorem cpu_usage_percent_witness:
  "\<exists>x. cpu_usage zero_stats (zero_stats\<lparr>cs_user := 30, cs_idle := 70\<rparr>) = Dfin x \<and> \<bar>x - 30\<bar> \<le> 1 / 10 ^ 9"
proof -
  let ?c = "zero_stats\<lparr>cs_user := 30, cs_idle := 70\<rparr>"
  have "counters_grow zero_stats ?c" by (simp add: counters_grow_def nat_total_def nat_idle_def zero_stats_def)
  from cpu_usage_percent [OF this] show ?thesis by (auto simp: nat_total_def nat_idle_def zero_stats_def)
qed

definition demo_metrics :: metrics_env where
  "demo_metrics =
     \<lparr>me_files = [''/proc/meminfo'' \<mapsto> ''MemTotal: 8 kB'' @ [NL] @ ''MemAvailable:  3 kB'' @ [NL]], me_now = 5, me_uninit = (\<lambda>_. 0),
      me_statvfs = (\<lambda>_. None)\<rparr>"

theorem leo_metrics_collect_sound_witness:
  "ram_used_bytes (fst (snd (leo_metrics_collect demo_metrics zero_snapshot))) +
     ram_available_bytes (fst (snd (leo_metrics_collect demo_metrics zero_snapshot))) = 8192"
proof -
  have wf: "snapshot_wf zero_snapshot" by (simp add: snapshot_wf_def zero_snapshot_def)
  obtain rc m g' where run: "leo_metrics_collect demo_metrics zero_snapshot = (rc, m, g')" by (metis prod_cases3)
  have "read_meminfo (me_files demo_metrics) = Some (8192, 3072, 5120)" by code_simp
  with run have "ram_total_bytes m = 8192" "ram_available_bytes m = 3072"
    by (auto simp: leo_metrics_collect_def Let_def split: prod.splits option.splits)
  with leo_metrics_collect_sound [OF wf run] run show ?thesis by (auto simp: word_le_nat_alt)
qed

theorem read_net_stats_sums_witness:
  "read_net_stats [''/proc/net/dev'' \<mapsto> ''a'' @ [NL] @ ''b'' @ [NL] @ ''lo: 7 0 0 0 0 0 0 0 7'' @ [NL] @ ''eth0: 12 2 0 0 0 0 0 0 34 5'' @ [NL]]
     = Some (12, 34)"
proof -
  let ?lo = "\<lparr>ni_name = ''lo'', ni_rx = 7, ni_mid = [0, 0, 0, 0, 0, 0, 0], ni_tx = 7, ni_rest = []\<rparr>"
  let ?eth = "\<lparr>ni_name = ''eth0'', ni_rx = 12, ni_mid = [2, 0, 0, 0, 0, 0, 0], ni_tx = 34, ni_rest = '' 5''\<rparr>"
  have lines: "net_line ?lo = ''lo: 7 0 0 0 0 0 0 0 7''" "net_line ?eth = ''eth0: 12 2 0 0 0 0 0 0 34 5''" by code_simp+
  have "\<forall>n \<in> set [?lo, ?eth]. iface_ok n"
    by (simp add: iface_ok_def lines) (simp add: isspace_def isdigit_def byte_of_def NUL_def NL_def)
  from read_net_stats_sums [OF _ _ this, of _ "''a''" "''b''"] show ?thesis
    by (simp add: lines NL_def)
qed

end
