(* ===== verification/Metrics_Win.thy ===== *)
theory Metrics_Win
  imports Metrics
begin

text \<open>
  \<^verbatim>\<open>agent/platform/windows/metrics_win.c\<close>: the metrics from the Windows API. The answers of the API are the
  record \<open>win_metrics_env\<close>; the previous snapshot of the processors and whether
  \<^verbatim>\<open>NtQuerySystemInformation\<close> was found are the record \<open>win_cpu\<close>. The result is \<open>None\<close> where more entries than
  the arrays hold would be written, which the API excludes (\<open>nt_fits\<close>).
\<close>

section \<open>Processors\<close>

text \<open>\<^verbatim>\<open>SYSTEM_PROCESSOR_PERFORMANCE_INFORMATION\<close>, with the fields the code reads; the kernel's time includes
  the idle time.\<close>

record leo_sppi =
  IdleTime :: "64 word"
  KernelTime :: "64 word"
  UserTime :: "64 word"

record cpu_times =
  ct_idle :: u64
  ct_kernel :: u64
  ct_user :: u64

record win_cpu =
  wc_fn :: "bool option"            \<comment> \<open>\<open>None\<close> before the first call, then whether the function exists\<close>
  wc_core :: "cpu_times list"
  wc_count :: nat
  wc_valid :: bool

text \<open>A drive: whether it is \<^verbatim>\<open>DRIVE_FIXED\<close>, and total and free bytes. A network interface: its type and
  status, bytes received and sent.\<close>

record win_metrics_env =
  wn_proc :: bool                                   \<comment> \<open>\<^verbatim>\<open>GetModuleHandleA\<close>, \<^verbatim>\<open>GetProcAddress\<close>\<close>
  wn_query :: "nat \<Rightarrow> leo_sppi list option"      \<comment> \<open>for a buffer of so many entries\<close>
  wn_filetime :: "u32 \<times> u32"                   \<comment> \<open>low and high part\<close>
  wn_memory :: "(u64 \<times> u64) option"
  wn_drives :: u32
  wn_fixed :: "nat \<Rightarrow> bool"
  wn_space :: "nat \<Rightarrow> (u64 \<times> u64) option"
  wn_ifs :: "(nat \<times> nat \<times> u64 \<times> u64) list option"
  wn_procs :: "nat option"                          \<comment> \<open>entries of the snapshot\<close>

definition query_cpu_times :: "win_metrics_env \<Rightarrow> nat \<Rightarrow> win_cpu \<Rightarrow> leo_sppi list option \<times> win_cpu" where
  "query_cpu_times env max_cores g =
     (let fn = (case wc_fn g of None \<Rightarrow> wn_proc env | Some b \<Rightarrow> b); g = g\<lparr>wc_fn := Some fn\<rparr> in
      if \<not> fn then (None, g) else (wn_query env max_cores, g))"

definition cpu_usage_pct :: "cpu_times \<Rightarrow> cpu_times \<Rightarrow> dbl" where
  "cpu_usage_pct prev cur =
     (let idle_delta = ct_idle cur - ct_idle prev;
          total_delta = (ct_kernel cur - ct_kernel prev) + (ct_user cur - ct_user prev) in
      if total_delta = 0 then Dfin 0
      else Dfin (dround (dround (of_nat (round53 (unat (total_delta - idle_delta))) / of_nat (round53 (unat total_delta))) * 100)))"

definition times_of :: "leo_sppi \<Rightarrow> cpu_times" where
  "times_of r = \<lparr>ct_idle = IdleTime r, ct_kernel = KernelTime r, ct_user = UserTime r\<rparr>"

definition zero_times :: cpu_times where "zero_times = \<lparr>ct_idle = 0, ct_kernel = 0, ct_user = 0\<rparr>"

definition add_times :: "cpu_times \<Rightarrow> cpu_times \<Rightarrow> cpu_times" where
  "add_times t acc =
     acc\<lparr>ct_idle := ct_idle acc + ct_idle t, ct_kernel := ct_kernel acc + ct_kernel t, ct_user := ct_user acc + ct_user t\<rparr>"

section \<open>The other sources\<close>

definition win_now_ms :: "u32 \<times> u32 \<Rightarrow> u64" where
  "win_now_ms ft = (ucast (snd ft) * 2 ^ 32 + ucast (fst ft) - 116444736000000000) div 10000"

definition win_read_ram :: "(u64 \<times> u64) option \<Rightarrow> u64 \<times> u64 \<times> u64" where
  "win_read_ram ms =
     (case ms of None \<Rightarrow> (0, 0, 0) | Some (tot, avail) \<Rightarrow> (tot, avail, if avail < tot then tot - avail else 0))"

definition add_drive :: "win_metrics_env \<Rightarrow> nat \<Rightarrow> (u64 \<times> u64) \<times> bool \<Rightarrow> (u64 \<times> u64) \<times> bool" where
  "add_drive env i acc =
     (if \<not> bit (wn_drives env) i then acc
      else if \<not> wn_fixed env i then acc
      else (case wn_space env i of
              None \<Rightarrow> acc
            | Some (total_bytes, total_free) \<Rightarrow>
                ((fst (fst acc) + total_bytes, snd (fst acc) + (total_bytes - total_free)), True)))"

definition win_read_disk_usage :: "win_metrics_env \<Rightarrow> (u64 \<times> u64) \<times> bool" where
  "win_read_disk_usage env = fold (add_drive env) [0..<26] ((0, 0), False)"

definition IF_TYPE_SOFTWARE_LOOPBACK :: nat where "IF_TYPE_SOFTWARE_LOOPBACK = 24"
definition IfOperStatusUp :: nat where "IfOperStatusUp = 1"

fun add_row :: "nat \<times> nat \<times> u64 \<times> u64 \<Rightarrow> u64 \<times> u64 \<Rightarrow> u64 \<times> u64" where
  "add_row (ty, status, in_octets, out_octets) (i, u) =
     (if ty = IF_TYPE_SOFTWARE_LOOPBACK then (i, u)
      else if status \<noteq> IfOperStatusUp then (i, u)
      else (i + in_octets, u + out_octets))"

definition win_read_net_stats :: "win_metrics_env \<Rightarrow> (u64 \<times> u64) \<times> bool" where
  "win_read_net_stats env =
     (case wn_ifs env of None \<Rightarrow> ((0, 0), False) | Some rows \<Rightarrow> (fold add_row rows (0, 0), True))"

definition win_read_process_count :: "win_metrics_env \<Rightarrow> u32" where
  "win_read_process_count env = (case wn_procs env of None \<Rightarrow> 0 | Some n \<Rightarrow> of_nat n)"

section \<open>Collecting\<close>

definition keep_snapshot :: "cpu_times list \<Rightarrow> win_cpu \<Rightarrow> win_cpu" where
  "keep_snapshot ts g = g\<lparr>wc_core := ts @ drop (length ts) (wc_core g), wc_count := length ts, wc_valid := True\<rparr>"

definition win_metrics_init :: "win_metrics_env \<Rightarrow> win_cpu \<Rightarrow> (leo_error \<times> win_cpu) option" where
  "win_metrics_init env g =
     (case query_cpu_times env LEO_MAX_CPU_CORES g of
        (Some raw, g) \<Rightarrow> if LEO_MAX_CPU_CORES < length raw then None else Some (LEO_OK, keep_snapshot (map times_of raw) g)
      | (None, g) \<Rightarrow> Some (LEO_OK, g))"

definition win_collect_cpu :: "win_metrics_env \<Rightarrow> win_cpu \<Rightarrow> leo_metrics \<Rightarrow> (leo_metrics \<times> win_cpu) option" where
  "win_collect_cpu env g out =
     (case query_cpu_times env LEO_MAX_CPU_CORES g of
        (None, g) \<Rightarrow> Some (out, g)
      | (Some raw, g) \<Rightarrow>
          if LEO_MAX_CPU_CORES < length raw then None
          else
            let cur = map times_of raw; count = length cur; prev = take count (wc_core g);
                out = (if wc_valid g \<and> count = wc_count g
                       then out\<lparr>cpu_core_count := int count,
                                cpu_per_core := map2 cpu_usage_pct prev cur @ drop count (cpu_per_core out),
                                cpu_total_percent := cpu_usage_pct (fold add_times prev zero_times) (fold add_times cur zero_times)\<rparr>
                       else out)
            in Some (out, keep_snapshot cur g))"

definition win_metrics_collect :: "win_metrics_env \<Rightarrow> win_cpu \<Rightarrow> (leo_error \<times> leo_metrics \<times> win_cpu) option" where
  "win_metrics_collect env g =
     (case win_collect_cpu env g (zero_metrics\<lparr>timestamp_ms := win_now_ms (wn_filetime env)\<rparr>) of
        None \<Rightarrow> None
      | Some (out, g) \<Rightarrow>
          let (t, a, u) = win_read_ram (wn_memory env);
              ((dt, du), _) = win_read_disk_usage env;
              ((ni, no), _) = win_read_net_stats env
          in Some (LEO_OK, out\<lparr>ram_total_bytes := t, ram_available_bytes := a, ram_used_bytes := u,
                               disk_total_bytes := dt, disk_used_bytes := du, net_bytes_in := ni, net_bytes_out := no,
                               process_count := win_read_process_count env\<rparr>, g))"

definition win_metrics_destroy :: "win_cpu \<Rightarrow> win_cpu" where
  "win_metrics_destroy g = g\<lparr>wc_count := 0, wc_valid := False\<rparr>"

section \<open>Percentages\<close>

text \<open>The API fills no more entries than the buffer has; the state's array has its size.\<close>

definition nt_fits :: "win_metrics_env \<Rightarrow> bool" where
  "nt_fits env \<longleftrightarrow> (case wn_query env LEO_MAX_CPU_CORES of None \<Rightarrow> True | Some raw \<Rightarrow> length raw \<le> LEO_MAX_CPU_CORES)"

definition win_cpu_wf :: "win_cpu \<Rightarrow> bool" where
  "win_cpu_wf g \<longleftrightarrow> length (wc_core g) = LEO_MAX_CPU_CORES \<and> wc_count g \<le> LEO_MAX_CPU_CORES"

definition times_total :: "cpu_times \<Rightarrow> nat" where
  "times_total t = unat (ct_kernel t) + unat (ct_user t)"

text \<open>No counter went back, and no more idle time passed than time in the kernel, of which it is a part.\<close>

definition times_grow :: "cpu_times \<Rightarrow> cpu_times \<Rightarrow> bool" where
  "times_grow p c \<longleftrightarrow>
     unat (ct_idle p) \<le> unat (ct_kernel p) \<and>
     unat (ct_idle p) \<le> unat (ct_idle c) \<and> unat (ct_kernel p) \<le> unat (ct_kernel c) \<and> unat (ct_user p) \<le> unat (ct_user c) \<and>
     unat (ct_idle c) - unat (ct_idle p) \<le> unat (ct_kernel c) - unat (ct_kernel p)"

text \<open>\<open>d\<close> is the percentage of \<open>busy\<close> in \<open>elapsed\<close>, up to rounding.\<close>

definition percent_of :: "nat \<Rightarrow> nat \<Rightarrow> dbl \<Rightarrow> bool" where
  "percent_of busy elapsed d \<longleftrightarrow>
     (case d of
        Dfin x \<Rightarrow> 0 \<le> x \<and> x \<le> 100 \<and> (elapsed = 0 \<or> \<bar>x - of_nat busy / of_nat elapsed * 100\<bar> \<le> 1 / 10 ^ 9)
      | _ \<Rightarrow> False)"

definition core_elapsed :: "cpu_times \<Rightarrow> cpu_times \<Rightarrow> nat" where
  "core_elapsed p c = times_total c - times_total p"

definition core_busy :: "cpu_times \<Rightarrow> cpu_times \<Rightarrow> nat" where
  "core_busy p c = core_elapsed p c - (unat (ct_idle c) - unat (ct_idle p))"

definition core_percent :: "cpu_times \<Rightarrow> cpu_times \<Rightarrow> dbl \<Rightarrow> bool" where
  "core_percent p c = percent_of (core_busy p c) (core_elapsed p c)"

lemma cpu_usage_pct_percent:
  assumes "times_grow p c" "times_total c < 2 ^ 53"
  shows "core_percent p c (cpu_usage_pct p c)"
proof -
  let ?td = "(ct_kernel c - ct_kernel p) + (ct_user c - ct_user p)" and ?id = "ct_idle c - ct_idle p"
  let ?T = "times_total c - times_total p" and ?I = "unat (ct_idle c) - unat (ct_idle p)"
  have small: "?T < 2 ^ 53" using assms(2) by simp
  have parts: "unat (ct_kernel c - ct_kernel p) = unat (ct_kernel c) - unat (ct_kernel p)"
    "unat (ct_user c - ct_user p) = unat (ct_user c) - unat (ct_user p)" "unat ?id = ?I"
    using assms(1) by (simp_all add: times_grow_def unat_sub word_le_nat_alt)
  have sum: "unat (ct_kernel c) - unat (ct_kernel p) + (unat (ct_user c) - unat (ct_user p)) = ?T"
    using assms(1) by (simp add: times_grow_def times_total_def)
  have td: "unat ?td = ?T"
    using sum small parts by (subst unat_add_lem [THEN iffD1]) simp_all
  have le: "?I \<le> ?T" using assms(1) unfolding times_grow_def times_total_def by linarith
  then have bd: "unat (?td - ?id) = ?T - ?I" using td parts(3) by (simp add: unat_sub word_le_nat_alt)
  show ?thesis
  proof (cases "?T = 0")
    case True
    then have "?td = 0" using td by (simp add: unat_eq_0)
    with True show ?thesis by (simp add: cpu_usage_pct_def core_percent_def core_busy_def core_elapsed_def percent_of_def Let_def)
  next
    case False
    let ?q = "of_nat (?T - ?I) / of_nat ?T :: rat"
    have q: "0 \<le> ?q" "?q \<le> 1" using False by (simp_all add: divide_le_eq_1)
    have "?td \<noteq> 0" using False td by (metis unat_0)
    then have "cpu_usage_pct p c = Dfin (dround (dround ?q * 100))"
      using small unfolding cpu_usage_pct_def Let_def td bd by (simp add: round53_exact)
    with percent_rounding [OF q] show ?thesis by (simp add: core_percent_def core_busy_def core_elapsed_def percent_of_def)
  qed
qed

text \<open>The totals over the cores.\<close>

lemma fold_add_times:
  "ct_idle (fold add_times ts acc) = ct_idle acc + sum_list (map ct_idle ts)"
  "ct_kernel (fold add_times ts acc) = ct_kernel acc + sum_list (map ct_kernel ts)"
  "ct_user (fold add_times ts acc) = ct_user acc + sum_list (map ct_user ts)"
  by (induction ts arbitrary: acc) (simp_all add: add_times_def add.assoc)

lemma unat_sum_list: "sum_list (map unat ws) < 2 ^ 64 \<Longrightarrow> unat (sum_list ws :: u64) = sum_list (map unat ws)"
proof (induction ws)
  case (Cons w ws)
  then show ?case by (simp add: unat_add_lem [THEN iffD1])
qed simp

text \<open>The sum over the cores behaves as one processor.\<close>

lemma sums_grow:
  assumes "list_all2 times_grow ps cs" "sum_list (map times_total cs) < 2 ^ 53"
  defines "p \<equiv> fold add_times ps zero_times" and "c \<equiv> fold add_times cs zero_times"
  shows "times_grow p c" "times_total c < 2 ^ 53" "core_elapsed p c = sum_list (map2 core_elapsed ps cs)"
    "core_busy p c = sum_list (map2 core_busy ps cs)"
proof -
  let ?s = "\<lambda>f ts. sum_list (map (unat \<circ> f) ts)"
  have le: "?s ct_idle ps \<le> ?s ct_kernel ps" "?s ct_idle ps \<le> ?s ct_idle cs" "?s ct_kernel ps \<le> ?s ct_kernel cs"
    "?s ct_user ps \<le> ?s ct_user cs" "?s ct_idle cs + ?s ct_kernel ps \<le> ?s ct_kernel cs + ?s ct_idle ps"
    using assms(1) by (induction rule: list_all2_induct) (auto simp: times_grow_def)
  have tot: "sum_list (map times_total ts) = ?s ct_kernel ts + ?s ct_user ts" for ts
    by (induction ts) (simp_all add: times_total_def)
  have "unat (ct_kernel p) = ?s ct_kernel ps" "unat (ct_user p) = ?s ct_user ps" "unat (ct_idle p) = ?s ct_idle ps"
    "unat (ct_kernel c) = ?s ct_kernel cs" "unat (ct_user c) = ?s ct_user cs" "unat (ct_idle c) = ?s ct_idle cs"
    using le assms(2) tot by (simp_all add: p_def c_def zero_times_def fold_add_times unat_sum_list)
  note u = this
  show "times_grow p c" using le by (simp add: times_grow_def u)
  show "times_total c < 2 ^ 53" using assms(2) tot [of cs] by (simp add: times_total_def u)
  have el: "sum_list (map2 core_elapsed ps cs) + sum_list (map times_total ps) = sum_list (map times_total cs) \<and>
      sum_list (map2 core_busy ps cs) + ?s ct_idle cs = sum_list (map2 core_elapsed ps cs) + ?s ct_idle ps"
    using assms(1) by (induction rule: list_all2_induct) (auto simp: times_grow_def core_elapsed_def core_busy_def times_total_def)
  moreover have "times_total p = sum_list (map times_total ps)" "times_total c = sum_list (map times_total cs)"
    by (simp_all add: times_total_def [of p] times_total_def [of c] u tot)
  ultimately show el2: "core_elapsed p c = sum_list (map2 core_elapsed ps cs)"
    unfolding core_elapsed_def [of p c] by linarith
  from el le show "core_busy p c = sum_list (map2 core_busy ps cs)" unfolding core_busy_def [of p c] u el2 by linarith
qed

lemma keep_snapshot_wf:
  assumes "win_cpu_wf g" "length ts \<le> LEO_MAX_CPU_CORES"
  shows "win_cpu_wf (keep_snapshot ts (g\<lparr>wc_fn := f\<rparr>)) \<and> wc_valid (keep_snapshot ts (g\<lparr>wc_fn := f\<rparr>)) \<and>
         take (wc_count (keep_snapshot ts (g\<lparr>wc_fn := f\<rparr>))) (wc_core (keep_snapshot ts (g\<lparr>wc_fn := f\<rparr>))) = ts"
  using assms by (simp add: win_cpu_wf_def keep_snapshot_def)

text \<open>A collection that gets the times of the processors.\<close>

lemma win_metrics_collect_cpu:
  assumes "wc_fn g \<noteq> Some False" "wn_proc env" "wn_query env LEO_MAX_CPU_CORES = Some raw" "length raw \<le> LEO_MAX_CPU_CORES"
  shows "\<exists>m. win_metrics_collect env g = Some (LEO_OK, m, keep_snapshot (map times_of raw) (g\<lparr>wc_fn := Some True\<rparr>)) \<and>
           (wc_valid g \<and> wc_count g = length raw \<longrightarrow>
              cpu_core_count m = int (length raw) \<and>
              cpu_per_core m = map2 cpu_usage_pct (take (length raw) (wc_core g)) (map times_of raw) @ drop (length raw) (replicate 256 (Dfin 0)) \<and>
              cpu_total_percent m = cpu_usage_pct (fold add_times (take (length raw) (wc_core g)) zero_times) (fold add_times (map times_of raw) zero_times))"
proof -
  let ?cs = "map times_of raw" and ?ps = "take (length raw) (wc_core g)"
  have "(case wc_fn g of None \<Rightarrow> wn_proc env | Some b \<Rightarrow> b)" using assms(1,2) by (cases "wc_fn g") auto
  then have "query_cpu_times env LEO_MAX_CPU_CORES g = (Some raw, g\<lparr>wc_fn := Some True\<rparr>)"
    using assms(3) by (simp add: query_cpu_times_def)
  with assms(4) have cpu: "win_collect_cpu env g out = Some (
      if wc_valid g \<and> length raw = wc_count g
      then out\<lparr>cpu_core_count := int (length raw), cpu_per_core := map2 cpu_usage_pct ?ps ?cs @ drop (length raw) (cpu_per_core out),
               cpu_total_percent := cpu_usage_pct (fold add_times ?ps zero_times) (fold add_times ?cs zero_times)\<rparr> else out,
      keep_snapshot ?cs (g\<lparr>wc_fn := Some True\<rparr>))" for out
    by (simp add: win_collect_cpu_def Let_def not_less)
  obtain t a u dt du ok ni no' ok' where "win_read_ram (wn_memory env) = (t, a, u)" "win_read_disk_usage env = ((dt, du), ok)"
    "win_read_net_stats env = ((ni, no'), ok')" by (metis prod.exhaust)
  then show ?thesis by (simp add: win_metrics_collect_def cpu zero_metrics_def Let_def split: prod.splits)
qed

lemma cores_percent:
  assumes "list_all2 times_grow ps cs" "sum_list (map times_total cs) < 2 ^ 53" "i < length cs"
  shows "core_percent (ps ! i) (cs ! i) (cpu_usage_pct (ps ! i) (cs ! i))"
proof -
  have "times_total (cs ! i) \<le> sum_list (map times_total cs)" using assms(3) by (intro member_le_sum_list) simp_all
  with assms list_all2_nthD [OF assms(1), of i] list_all2_lengthD [OF assms(1)] show ?thesis by (intro cpu_usage_pct_percent) simp_all
qed

text \<open>C34: when two snapshots of the same processors follow each other, the report on Windows gives for each
  core, and for the machine as a whole, the percentage of busy time in the time elapsed between them, as a
  number from 0 to 100 and exact to a billionth; and every collection, whatever the first one did, leaves
  a snapshot for the next.\<close>

theorem win_cpu_percent:
  assumes "win_cpu_wf g" "wc_fn g \<noteq> Some False" "wn_proc env" "wn_query env LEO_MAX_CPU_CORES = Some raw" "nt_fits env"
  shows "\<exists>m g'. win_metrics_collect env g = Some (LEO_OK, m, g') \<and> win_cpu_wf g' \<and> wc_valid g' \<and>
           take (wc_count g') (wc_core g') = map times_of raw \<and>
           (wc_valid g \<and> wc_count g = length raw \<and> list_all2 times_grow (take (length raw) (wc_core g)) (map times_of raw) \<and>
            sum_list (map (times_total \<circ> times_of) raw) < 2 ^ 53 \<longrightarrow>
              cpu_core_count m = int (length raw) \<and>
              (\<forall>i < length raw. core_percent (wc_core g ! i) (times_of (raw ! i)) (cpu_per_core m ! i)) \<and>
              percent_of (sum_list (map2 core_busy (take (length raw) (wc_core g)) (map times_of raw)))
                (sum_list (map2 core_elapsed (take (length raw) (wc_core g)) (map times_of raw))) (cpu_total_percent m))"
proof -
  let ?cs = "map times_of raw" and ?ps = "take (length raw) (wc_core g)"
  have len: "length raw \<le> LEO_MAX_CPU_CORES" using assms(4,5) by (simp add: nt_fits_def)
  from win_metrics_collect_cpu [OF assms(2-4) len] obtain m
    where run: "win_metrics_collect env g = Some (LEO_OK, m, keep_snapshot ?cs (g\<lparr>wc_fn := Some True\<rparr>))"
    and m: "wc_valid g \<and> wc_count g = length raw \<Longrightarrow> cpu_core_count m = int (length raw) \<and>
        cpu_per_core m = map2 cpu_usage_pct ?ps ?cs @ drop (length raw) (replicate 256 (Dfin 0)) \<and>
        cpu_total_percent m = cpu_usage_pct (fold add_times ?ps zero_times) (fold add_times ?cs zero_times)" by blast
  have pct: "(\<forall>i < length raw. core_percent (wc_core g ! i) (times_of (raw ! i)) (cpu_per_core m ! i)) \<and>
      percent_of (sum_list (map2 core_busy ?ps ?cs)) (sum_list (map2 core_elapsed ?ps ?cs)) (cpu_total_percent m)"
    if h: "wc_valid g \<and> wc_count g = length raw" "list_all2 times_grow ?ps ?cs" "sum_list (map (times_total \<circ> times_of) raw) < 2 ^ 53"
  proof -
    have lp: "length ?ps = length raw" using assms(1) len by (simp add: win_cpu_wf_def)
    have sum: "sum_list (map times_total ?cs) < 2 ^ 53" using h(3) by simp
    note s = sums_grow [OF h(2) sum]
    have "core_percent (wc_core g ! i) (times_of (raw ! i)) (cpu_per_core m ! i)" if "i < length raw" for i
      using cores_percent [OF h(2) sum, of i] m [OF h(1)] that lp by (simp add: nth_append)
    with cpu_usage_pct_percent [OF s(1,2)] m [OF h(1)] show ?thesis by (simp add: core_percent_def s(3,4))
  qed
  from run keep_snapshot_wf [OF assms(1), of ?cs "Some True"] len pct m show ?thesis by auto
qed

text \<open>Whatever the API answers, no more memory is reported used than there is.\<close>

lemma win_read_ram_used: "win_read_ram ms = (t, a, u) \<Longrightarrow> u \<le> t \<and> (a \<le> t \<longrightarrow> u + a = t)"
  by (auto simp: win_read_ram_def word_le_nat_alt word_less_nat_alt unat_sub split: option.splits if_splits) (simp add: word_unat_eq_iff)

section \<open>A sample collection\<close>

definition demo_win_metrics :: win_metrics_env where
  "demo_win_metrics =
     \<lparr>wn_proc = True, wn_query = (\<lambda>_. Some [\<lparr>IdleTime = 70, KernelTime = 80, UserTime = 20\<rparr>]), wn_filetime = (0, 0),
      wn_memory = None, wn_drives = 0, wn_fixed = (\<lambda>_. True), wn_space = (\<lambda>_. None), wn_ifs = None, wn_procs = None\<rparr>"

definition demo_win_cpu :: win_cpu where
  "demo_win_cpu = \<lparr>wc_fn = Some True, wc_core = replicate LEO_MAX_CPU_CORES zero_times, wc_count = 1, wc_valid = True\<rparr>"

theorem win_cpu_percent_witness:
  "\<exists>m g'. win_metrics_collect demo_win_metrics demo_win_cpu = Some (LEO_OK, m, g') \<and> percent_of 30 100 (cpu_total_percent m)"
proof -
  let ?raw = "[\<lparr>IdleTime = 70, KernelTime = 80, UserTime = 20\<rparr>]"
  have ps: "take (length ?raw) (wc_core demo_win_cpu) = [zero_times]" by (simp add: demo_win_cpu_def LEO_MAX_CPU_CORES_def)
  have pre: "win_cpu_wf demo_win_cpu" "wc_fn demo_win_cpu \<noteq> Some False" "wn_proc demo_win_metrics" "nt_fits demo_win_metrics"
    "wn_query demo_win_metrics LEO_MAX_CPU_CORES = Some ?raw"
    by (simp_all add: win_cpu_wf_def demo_win_cpu_def demo_win_metrics_def nt_fits_def LEO_MAX_CPU_CORES_def)
  have "wc_valid demo_win_cpu \<and> wc_count demo_win_cpu = length ?raw" by (simp add: demo_win_cpu_def)
  with win_cpu_percent [OF pre(1,2,3,5,4)] ps show ?thesis
    by (auto simp: times_grow_def times_of_def zero_times_def times_total_def core_busy_def core_elapsed_def)
qed

end
