(* ===== verification/Inventory.thy ===== *)
theory Inventory
  imports Metrics
begin

text \<open>
  \<^verbatim>\<open>agent/platform/linux/inventory_linux.c\<close>: the hardware and software inventory. Files are a map,
  \<^verbatim>\<open>sysconf\<close>, the listing of \<^verbatim>\<open>/sys/block\<close> and the output of \<^verbatim>\<open>dpkg-query\<close> are arguments (\<open>None\<close> where the
  call fails). \<open>None\<close> as a result is undefined behaviour: an \<^verbatim>\<open>int\<close> product that overflows.
\<close>

section \<open>Processors\<close>

definition TAB :: char where "TAB = CHR 0x09"

record cpuinfo =
  ci_model :: "cstring option"    \<comment> \<open>\<^verbatim>\<open>have_model\<close> and the text\<close>
  ci_ids :: "int list"            \<comment> \<open>\<^verbatim>\<open>seen_physical_ids\<close>\<close>
  ci_cores :: int

definition LEO_INVENTORY_MAX_SOCKETS :: nat where "LEO_INVENTORY_MAX_SOCKETS = 16"

definition cpuinfo_value :: "cstring \<Rightarrow> nat \<Rightarrow> cstring" where
  "cpuinfo_value line colon = chomp (dropWhile (\<lambda>c. c = CHR '' '' \<or> c = TAB) (drop (Suc colon) line))"

definition cpuinfo_line :: "cstring \<Rightarrow> cpuinfo \<Rightarrow> cpuinfo" where
  "cpuinfo_line line ci =
     (case strchr (CHR '':'') line of
        None \<Rightarrow> ci
      | Some colon \<Rightarrow>
          let value = cpuinfo_value line colon in
          if ci_model ci = None \<and> strprefix ''model name'' line then ci\<lparr>ci_model := Some (strncpy_buf 128 value)\<rparr>
          else if strprefix ''physical id'' line then
            let pid = atoi value in
            if pid \<notin> set (ci_ids ci) \<and> length (ci_ids ci) < LEO_INVENTORY_MAX_SOCKETS
            then ci\<lparr>ci_ids := ci_ids ci @ [pid]\<rparr> else ci
          else if strprefix ''cpu cores'' line then ci\<lparr>ci_cores := atoi value\<rparr>
          else ci)"

definition empty_cpuinfo :: cpuinfo where "empty_cpuinfo = \<lparr>ci_model = None, ci_ids = [], ci_cores = 0\<rparr>"

definition zero_hw :: leo_hw_inventory where
  "zero_hw = \<lparr>cpu_model = [], cpu_cores = 0, cpu_threads = 0, hw_ram_total_bytes = 0, disk_count = 0, bios_version = [],
              bios_vendor = [], motherboard = [], serial_number = []\<rparr>"

definition read_cpuinfo :: "fs \<Rightarrow> int \<Rightarrow> leo_hw_inventory \<Rightarrow> leo_hw_inventory option" where
  "read_cpuinfo files nproc out =
     (let n = wrap32 nproc; out = out\<lparr>cpu_threads := (if n < 0 then 0 else n)\<rparr> in
      case files ''/proc/cpuinfo'' of
        None \<Rightarrow> Some out
      | Some bs \<Rightarrow>
          let ci = fold (\<lambda>l. cpuinfo_line (c_str l)) (read_lines 256 bs) empty_cpuinfo;
              out = (case ci_model ci of Some m \<Rightarrow> out\<lparr>cpu_model := m\<rparr> | None \<Rightarrow> out);
              cores = int (length (ci_ids ci)) * ci_cores ci
          in if 0 < length (ci_ids ci) \<and> 0 < ci_cores ci
             then (if int32_range cores then Some (out\<lparr>cpu_cores := cores\<rparr>) else None)
             else Some out)"

section \<open>Memory, disks, firmware\<close>

definition read_ram_total :: "fs \<Rightarrow> leo_hw_inventory \<Rightarrow> leo_hw_inventory" where
  "read_ram_total files out =
     (case files ''/proc/meminfo'' of
        None \<Rightarrow> out
      | Some bs \<Rightarrow>
          (case List.map_filter (\<lambda>l. scan_kb MEM_TOTAL_FORMAT (c_str l)) (read_lines 128 bs) of
             [] \<Rightarrow> out | b # _ \<Rightarrow> out\<lparr>hw_ram_total_bytes := b\<rparr>))"

definition physical_disk :: "cstring \<Rightarrow> bool" where
  "physical_disk name \<longleftrightarrow>
     \<not> strprefix ''.'' name \<and> \<not> strprefix ''loop'' name \<and> \<not> strprefix ''ram'' name \<and> \<not> strprefix ''sr'' name"

definition read_disk_count :: "cstring list option \<Rightarrow> leo_hw_inventory \<Rightarrow> leo_hw_inventory" where
  "read_disk_count entries out =
     (case entries of None \<Rightarrow> out | Some names \<Rightarrow> out\<lparr>disk_count := int (length (filter physical_disk names))\<rparr>)"

definition read_dmi_field :: "fs \<Rightarrow> cstring \<Rightarrow> nat \<Rightarrow> cstring" where
  "read_dmi_field files path out_sz =
     (case files path of
        None \<Rightarrow> []
      | Some bs \<Rightarrow> (case fgets out_sz bs of None \<Rightarrow> [] | Some (l, _) \<Rightarrow> chomp (c_str l)))"

record hw_env =
  he_files :: fs
  he_nproc :: int
  he_block :: "cstring list option"

definition leo_inventory_collect_hw :: "hw_env \<Rightarrow> leo_hw_inventory option" where
  "leo_inventory_collect_hw env =
     (let files = he_files env in
      map_option (\<lambda>out.
          let out = read_disk_count (he_block env) (read_ram_total files out) in
          out\<lparr>bios_version := read_dmi_field files ''/sys/class/dmi/id/bios_version'' 64,
              bios_vendor := read_dmi_field files ''/sys/class/dmi/id/bios_vendor'' 64,
              motherboard := read_dmi_field files ''/sys/class/dmi/id/board_name'' 128,
              serial_number := read_dmi_field files ''/sys/class/dmi/id/product_serial'' 128\<rparr>)
        (read_cpuinfo files (he_nproc env) zero_hw))"

section \<open>Software\<close>

definition sw_line :: "cstring \<Rightarrow> leo_sw_item option" where
  "sw_line line =
     (case strchr TAB line of
        None \<Rightarrow> None
      | Some p \<Rightarrow>
          let ver = drop (Suc p) line;
              (version, pub) = (case strchr TAB ver of Some q \<Rightarrow> (take q ver, drop (Suc q) ver) | None \<Rightarrow> (ver, []))
          in Some \<lparr>sw_name = strncpy_buf 128 (take p line), sw_version = strncpy_buf 64 version,
                   publisher = strncpy_buf 128 pub, install_path = []\<rparr>)"

fun sw_loop :: "nat \<Rightarrow> string list \<Rightarrow> leo_sw_item list" where
  "sw_loop 0 ls = []"
| "sw_loop (Suc n) [] = []"
| "sw_loop (Suc n) (l # ls) =
     (case sw_line (chomp (c_str l)) of None \<Rightarrow> sw_loop (Suc n) ls | Some it \<Rightarrow> it # sw_loop n ls)"

text \<open>The entries written, whose number is returned; \<open>None\<close> is \<^verbatim>\<open>-1\<close>. The output is \<open>None\<close> when \<^verbatim>\<open>popen\<close> fails.\<close>

definition leo_inventory_collect_sw :: "string option \<Rightarrow> int \<Rightarrow> leo_sw_item list option" where
  "leo_inventory_collect_sw output max_items =
     (if max_items \<le> 0 then None
      else Some (case output of None \<Rightarrow> [] | Some text \<Rightarrow> sw_loop (nat max_items) (read_lines 512 text)))"

section \<open>Bounds\<close>

definition hw_fits :: "leo_hw_inventory \<Rightarrow> bool" where
  "hw_fits h \<longleftrightarrow>
     length (cpu_model h) < 128 \<and> length (bios_version h) < 64 \<and> length (bios_vendor h) < 64 \<and> length (motherboard h) < 128 \<and>
     length (serial_number h) < 128 \<and> 0 \<le> cpu_cores h \<and> 0 \<le> cpu_threads h \<and> 0 \<le> disk_count h"

definition sw_fits :: "leo_sw_item \<Rightarrow> bool" where
  "sw_fits s \<longleftrightarrow> length (sw_name s) < 128 \<and> length (sw_version s) < 64 \<and> length (publisher s) < 128 \<and> install_path s = []"

lemma read_dmi_field_fits: "0 < sz \<Longrightarrow> length (read_dmi_field files path sz) < sz"
proof -
  assume sz: "0 < sz"
  have "length (chomp (c_str l)) < sz" if "fgets sz bs = Some (l, r)" for bs l r
  proof -
    from that have "length l \<le> sz - 1" using take_line_le [of "sz - 1" bs] by (auto simp: fgets_def split: if_splits)
    with sz chomp_length [of "c_str l"] c_str_length [of l] show ?thesis by linarith
  qed
  with sz show ?thesis by (auto simp: read_dmi_field_def split: option.splits)
qed

lemma cpuinfo_fold_fits:
  "\<forall>m. ci_model (fold (\<lambda>l. cpuinfo_line (c_str l)) ls empty_cpuinfo) = Some m \<longrightarrow> length m < 128"
proof -
  have step: "\<forall>m. ci_model (cpuinfo_line l ci) = Some m \<longrightarrow> length m < 128" if "\<forall>m. ci_model ci = Some m \<longrightarrow> length m < 128" for l ci
    using that strncpy_buf_length [of 128] unfolding cpuinfo_line_def Let_def by (simp split: option.split)
  have "\<forall>m. ci_model (fold (\<lambda>l. cpuinfo_line (c_str l)) ls ci) = Some m \<longrightarrow> length m < 128"
    if "\<forall>m. ci_model ci = Some m \<longrightarrow> length m < 128" for ci
    using that
  proof (induction ls arbitrary: ci)
    case (Cons l ls)
    from Cons.IH [OF step [OF Cons.prems, of "c_str l"]] show ?case by simp
  qed simp
  from this [of empty_cpuinfo] show ?thesis by (simp add: empty_cpuinfo_def)
qed

lemma sw_line_fits: "sw_line l = Some it \<Longrightarrow> sw_fits it"
  by (auto simp: sw_line_def sw_fits_def Let_def strncpy_buf_length split: option.splits prod.splits)

lemma sw_loop_fits: "length (sw_loop n ls) \<le> n \<and> list_all sw_fits (sw_loop n ls)"
  by (induction n ls rule: sw_loop.induct) (auto simp: sw_line_fits split: option.splits)

text \<open>whatever the system's files and \<^verbatim>\<open>dpkg-query\<close> contain, an inventory fits its structures: every
  text within its buffer, no negative count, and at most the requested number of programs.\<close>

theorem inventory_fits:
  shows "(\<forall>h. leo_inventory_collect_hw env = Some h \<longrightarrow> hw_fits h) \<and>
         (\<forall>items. leo_inventory_collect_sw output n = Some items \<longrightarrow> int (length items) \<le> n \<and> list_all sw_fits items)"
proof (intro conjI allI impI)
  fix h assume "leo_inventory_collect_hw env = Some h"
  then obtain out where out: "read_cpuinfo (he_files env) (he_nproc env) zero_hw = Some out"
    and h: "h = (let out = read_disk_count (he_block env) (read_ram_total (he_files env) out) in
          out\<lparr>bios_version := read_dmi_field (he_files env) ''/sys/class/dmi/id/bios_version'' 64,
              bios_vendor := read_dmi_field (he_files env) ''/sys/class/dmi/id/bios_vendor'' 64,
              motherboard := read_dmi_field (he_files env) ''/sys/class/dmi/id/board_name'' 128,
              serial_number := read_dmi_field (he_files env) ''/sys/class/dmi/id/product_serial'' 128\<rparr>)"
    by (auto simp: leo_inventory_collect_hw_def Let_def)
  have "length (cpu_model out) < 128 \<and> 0 \<le> cpu_cores out \<and> 0 \<le> cpu_threads out \<and> disk_count out = 0"
    using out cpuinfo_fold_fits
    by (auto simp: read_cpuinfo_def zero_hw_def Let_def split: option.splits if_splits)
  then show "hw_fits h"
    by (auto simp: h Let_def hw_fits_def read_dmi_field_fits read_disk_count_def read_ram_total_def split: option.splits list.splits)
next
  fix items assume "leo_inventory_collect_sw output n = Some items"
  then show "int (length items) \<le> n" "list_all sw_fits items"
    using sw_loop_fits [of "nat n"] by (auto simp: leo_inventory_collect_sw_def le_nat_iff split: if_splits option.splits)
qed

section \<open>What is read\<close>

definition sw_text :: "leo_sw_item \<Rightarrow> cstring" where
  "sw_text s = sw_name s @ [TAB] @ sw_version s @ [TAB] @ publisher s"

definition sw_plain :: "leo_sw_item \<Rightarrow> bool" where
  "sw_plain s \<longleftrightarrow>
     sw_fits s \<and> TAB \<notin> set (sw_name s) \<and> TAB \<notin> set (sw_version s) \<and> NL \<notin> set (sw_text s) \<and> NUL \<notin> set (sw_text s) \<and>
     CHR 0x0D \<notin> set (sw_text s)"

lemma sw_line_text:
  assumes "sw_plain s"
  shows "sw_line (chomp (c_str (sw_text s @ [NL]))) = Some s"
proof -
  from assms have "c_str (sw_text s @ [NL]) = sw_text s @ [NL]" by (intro c_str_id) (simp add: sw_plain_def NL_def NUL_def)
  moreover have "chomp (sw_text s @ [NL]) = sw_text s"
  proof -
    have "sw_text s \<noteq> []" by (simp add: sw_text_def)
    then have "last (sw_text s) \<in> set (sw_text s)" by (rule last_in_set)
    with assms have "chomp (sw_text s) = sw_text s" by (intro chomp_id) (auto simp: sw_plain_def)
    then show ?thesis by (simp add: chomp_snoc)
  qed
  moreover have "sw_line (sw_text s) = Some s"
    using assms by (cases s) (simp add: sw_line_def sw_text_def sw_plain_def sw_fits_def strchr_append_hit strncpy_buf_id)
  ultimately show ?thesis by simp
qed

text \<open>the list \<^verbatim>\<open>dpkg-query\<close> prints, one line per package with its three fields, is read back in
  order, up to the number asked for.\<close>

theorem inventory_sw_roundtrip:
  assumes "\<forall>s \<in> set items. sw_plain s \<and> length (sw_text s) \<le> 510" "0 < n"
  shows "leo_inventory_collect_sw (Some (concat (map (\<lambda>s. sw_text s @ [NL]) items))) n = Some (take (nat n) items)"
proof -
  have "read_lines 512 (concat (map (\<lambda>l. l @ [NL]) (map sw_text items))) = map (\<lambda>l. l @ [NL]) (map sw_text items)"
    using assms(1) by (intro read_lines_concat) (auto simp: sw_plain_def)
  moreover have "sw_loop k (map (\<lambda>s. sw_text s @ [NL]) items) = take k items" if "\<forall>s \<in> set items. sw_plain s" for k items
    using that
  proof (induction items arbitrary: k)
    case Nil
    show ?case by (cases k) simp_all
  next
    case (Cons s items)
    then show ?case by (cases k) (simp_all add: sw_line_text)
  qed
  ultimately show ?thesis using assms by (simp add: leo_inventory_collect_sw_def comp_def)
qed

text \<open>The physical cores: the number of sockets times the cores of one.\<close>

definition processor_lines :: "nat \<times> nat \<Rightarrow> cstring list" where
  "processor_lines p = [''physical id'' @ [TAB] @ '': '' @ show_nat (fst p), ''cpu cores'' @ [TAB] @ '': '' @ show_nat (snd p)]"

lemma cpuinfo_value_nat:
  assumes "CHR '':'' \<notin> set k"
  shows "strchr (CHR '':'') (k @ [TAB] @ '': '' @ show_nat n @ [NL]) = Some (Suc (length k))"
    "cpuinfo_value (k @ [TAB] @ '': '' @ show_nat n @ [NL]) (Suc (length k)) = show_nat n"
proof -
  show "strchr (CHR '':'') (k @ [TAB] @ '': '' @ show_nat n @ [NL]) = Some (Suc (length k))"
    using strchr_append_hit [of "CHR '':''" "k @ [TAB]" "CHR '' '' # show_nat n @ [NL]"] assms by (simp add: TAB_def)
  obtain c cs where c: "show_nat n = c # cs" by (cases "show_nat n") auto
  have dig: "list_all isdigit (show_nat n)" by (rule show_nat_digits)
  then have "c \<noteq> CHR '' '' \<and> c \<noteq> TAB" using c by (auto simp: isdigit_def byte_of_def TAB_def)
  then have "dropWhile (\<lambda>c. c = CHR '' '' \<or> c = TAB) (CHR '' '' # show_nat n @ [NL]) = show_nat n @ [NL]" by (simp add: c)
  moreover have "chomp (show_nat n) = show_nat n"
  proof (rule chomp_id)
    have "isdigit (last (show_nat n))" using dig by (simp add: list_all_iff)
    then show "show_nat n = [] \<or> last (show_nat n) \<noteq> NL \<and> last (show_nat n) \<noteq> CHR 0x0D"
      by (auto simp: isdigit_def byte_of_def NL_def)
  qed
  ultimately show "cpuinfo_value (k @ [TAB] @ '': '' @ show_nat n @ [NL]) (Suc (length k)) = show_nat n"
    by (simp add: cpuinfo_value_def chomp_snoc)
qed

lemma processor_step:
  assumes "int32_range (int (fst p))" "int32_range (int (snd p))"
  shows "fold (\<lambda>l. cpuinfo_line (c_str l)) (map (\<lambda>l. l @ [NL]) (processor_lines p)) ci =
           ci\<lparr>ci_ids := (if int (fst p) \<notin> set (ci_ids ci) \<and> length (ci_ids ci) < 16 then ci_ids ci @ [int (fst p)] else ci_ids ci),
              ci_cores := int (snd p)\<rparr>"
proof -
  have nul: "c_str (k @ [TAB] @ '': '' @ show_nat n @ [NL]) = k @ [TAB] @ '': '' @ show_nat n @ [NL]" if "NUL \<notin> set k" for k n
    using that show_nat_digits [of n] by (intro c_str_id) (auto simp: list_all_iff TAB_def NUL_def NL_def isdigit_def byte_of_def)
  have at: "atoi (show_nat n) = int n" if "int32_range (int n)" for n using atoi_show_nat [OF that, of "[]"] by simp
  show ?thesis
    using assms nul [of "''physical id''" "fst p"] nul [of "''cpu cores''" "snd p"]
      cpuinfo_value_nat [of "''physical id''" "fst p"] cpuinfo_value_nat [of "''cpu cores''" "snd p"]
    by (cases ci) (simp add: processor_lines_def cpuinfo_line_def strprefix_def at NUL_def LEO_INVENTORY_MAX_SOCKETS_def)
qed

lemma processors_step:
  assumes "\<forall>i \<in> set is. int32_range (int i)" "distinct (ci_ids ci)" "card (set (ci_ids ci) \<union> int ` set is) \<le> 16" "int32_range (int c)"
  shows "\<exists>xs. fold (\<lambda>l. cpuinfo_line (c_str l)) (map (\<lambda>l. l @ [NL]) (concat (map (\<lambda>i. processor_lines (i, c)) is))) ci =
           ci\<lparr>ci_ids := xs, ci_cores := (if is = [] then ci_cores ci else int c)\<rparr> \<and> distinct xs \<and> set xs = set (ci_ids ci) \<union> int ` set is"
  using assms(1-3)
proof (induction "is" arbitrary: ci)
  case Nil
  then show ?case by (intro exI [of _ "ci_ids ci"]) (cases ci, simp)
next
  case (Cons i "is")
  let ?ids = "if int i \<notin> set (ci_ids ci) \<and> length (ci_ids ci) < 16 then ci_ids ci @ [int i] else ci_ids ci"
  let ?ci = "ci\<lparr>ci_ids := ?ids, ci_cores := int c\<rparr>"
  have "card (insert (int i) (set (ci_ids ci))) \<le> card (set (ci_ids ci) \<union> int ` set (i # is))" by (intro card_mono) auto
  then have "length (ci_ids ci) < 16" if "int i \<notin> set (ci_ids ci)" using that Cons.prems by (simp add: distinct_card)
  then have set_ids: "set ?ids = insert (int i) (set (ci_ids ci))" by auto
  have "\<exists>xs. fold (\<lambda>l. cpuinfo_line (c_str l)) (map (\<lambda>l. l @ [NL]) (concat (map (\<lambda>i. processor_lines (i, c)) is))) ?ci =
      ?ci\<lparr>ci_ids := xs, ci_cores := (if is = [] then ci_cores ?ci else int c)\<rparr> \<and> distinct xs \<and> set xs = set (ci_ids ?ci) \<union> int ` set is"
    using Cons.prems set_ids by (intro Cons.IH) auto
  then show ?case using processor_step [of "(i, c)" ci] Cons.prems assms(4) set_ids by auto
qed

lemma processor_lines_short:
  assumes "int32_range (int i)" "int32_range (int c)" "l \<in> set (processor_lines (i, c))"
  shows "NL \<notin> set l \<and> length l + 2 \<le> 256"
proof -
  have sh: "NL \<notin> set (show_nat k) \<and> length (show_nat k) \<le> 10" if "int32_range (int k)" for k
    using show_nat_digits [of k] show_nat_length [of k 10] that by (auto simp: list_all_iff int32_range_def dest!: bspec isdigit_imp)
  show ?thesis using assms(3) sh [OF assms(1)] sh [OF assms(2)] by (auto simp: processor_lines_def TAB_def NL_def)
qed

text \<open>from a file that gives each processor its socket and the cores per socket, with at most
  sixteen sockets, the number of physical cores is the number of distinct sockets times the cores
  per socket.\<close>

theorem cpu_cores_counted:
  assumes "files ''/proc/cpuinfo'' = Some (concat (map (\<lambda>l. l @ [NL]) (concat (map (\<lambda>i. processor_lines (i, c)) ids))))"
    and "ids \<noteq> []" "0 < c" "\<forall>i \<in> set ids. int32_range (int i)" "card (set ids) \<le> 16" "int32_range (16 * int c)"
  shows "\<exists>out. read_cpuinfo files n zero_hw = Some out \<and> cpu_cores out = int (card (set ids)) * int c"
proof -
  have cr: "int32_range (int c)" using assms(6) by (simp add: int32_range_def)
  then have lines: "\<forall>l \<in> set (concat (map (\<lambda>i. processor_lines (i, c)) ids)). NL \<notin> set l \<and> length l + 2 \<le> 256"
    using assms(4) processor_lines_short by auto
  obtain xs where xs: "fold (\<lambda>l. cpuinfo_line (c_str l)) (map (\<lambda>l. l @ [NL]) (concat (map (\<lambda>i. processor_lines (i, c)) ids))) empty_cpuinfo =
      empty_cpuinfo\<lparr>ci_ids := xs, ci_cores := int c\<rparr>" "distinct xs" "set xs = int ` set ids"
    using processors_step [of ids empty_cpuinfo c] assms(2,4,5) cr by (auto simp: empty_cpuinfo_def card_image)
  then have len: "length xs = card (set ids)" by (metis card_image distinct_card inj_on_of_nat)
  then have "0 < length xs" using assms(2) by (simp add: card_gt_0_iff)
  moreover have "int (length xs) * int c \<le> 16 * int c" using len assms(5) by (intro mult_right_mono) simp_all
  then have "int32_range (int (length xs) * int c)"
    using assms(6) mult_nonneg_nonneg [of "int (length xs)" "int c"] unfolding int32_range_def by linarith
  ultimately show ?thesis
    using assms(1,3) xs(1) len read_lines_concat [OF lines]
    by (auto simp: read_cpuinfo_def Let_def empty_cpuinfo_def)
qed

section \<open>Sample inventories\<close>

definition demo_hw :: hw_env where
  "demo_hw = \<lparr>he_files = [''/sys/class/dmi/id/bios_vendor'' \<mapsto> ''ACME'' @ [NL]], he_nproc = 4, he_block = Some [''.'', ''sda'', ''loop0'']\<rparr>"

theorem inventory_fits_witness:
  "\<exists>h. leo_inventory_collect_hw demo_hw = Some h \<and> bios_vendor h = ''ACME'' \<and> disk_count h = 1 \<and> hw_fits h"
proof -
  have "map_option bios_vendor (leo_inventory_collect_hw demo_hw) = Some ''ACME''"
    "map_option disk_count (leo_inventory_collect_hw demo_hw) = Some 1" by code_simp+
  then obtain h where "leo_inventory_collect_hw demo_hw = Some h" "bios_vendor h = ''ACME''" "disk_count h = 1" by auto
  with inventory_fits [of demo_hw None 1] show ?thesis by blast
qed

definition demo_sw :: leo_sw_item where
  "demo_sw = \<lparr>sw_name = ''vim'', sw_version = ''9.1'', publisher = ''Debian'', install_path = []\<rparr>"

theorem inventory_sw_roundtrip_witness:
  "leo_inventory_collect_sw (Some (sw_text demo_sw @ [NL] @ sw_text demo_sw @ [NL])) 1 = Some [demo_sw]"
proof -
  have "sw_plain demo_sw" "length (sw_text demo_sw) \<le> 510"
    by (simp_all add: sw_plain_def sw_fits_def sw_text_def demo_sw_def TAB_def NL_def NUL_def)
  with inventory_sw_roundtrip [of "[demo_sw, demo_sw]" 1] show ?thesis by simp
qed

theorem cpu_cores_counted_witness:
  "\<exists>out. read_cpuinfo [''/proc/cpuinfo'' \<mapsto> concat (map (\<lambda>l. l @ [NL]) (concat (map (\<lambda>i. processor_lines (i, 4)) [0, 2, 2])))] 8 zero_hw =
     Some out \<and> cpu_cores out = 8"
  using cpu_cores_counted [of "[''/proc/cpuinfo'' \<mapsto> concat (map (\<lambda>l. l @ [NL]) (concat (map (\<lambda>i. processor_lines (i, 4)) [0, 2, 2])))]" 4 "[0, 2, 2]" 8]
  by (simp add: int32_range_def insert_absorb)

end
