(* ===== verification/Inventory_Win.thy ===== *)
theory Inventory_Win
  imports Inventory
begin

text \<open>
  \<^verbatim>\<open>agent/platform/windows/inventory_win.c\<close>: hardware and software inventory from the registry. The registry
  and the other answers of the API are the record \<open>win_inv_env\<close>; the answers of \<^verbatim>\<open>RegEnumKeyExA\<close>, one per
  call, are a list for each key, and the value is \<open>None\<close> when the list ends before the loop does.
\<close>

section \<open>The registry\<close>

text \<open>\<^verbatim>\<open>RegGetValueA\<close> into a buffer: the text, nothing (the buffer keeps what it had), or a text too long
  for the buffer, of which the API leaves undefined bytes.\<close>

datatype reg_result = Reg_Value cstring | Reg_Missing | Reg_More string

datatype reg_enum = Enum_Key cstring | Enum_Error | Enum_End

datatype drive_answer = Drive_Opened | Drive_Not_Found | Drive_Refused

record win_inv_env =
  wi_open :: "cstring \<Rightarrow> bool"
  wi_get :: "cstring \<Rightarrow> cstring \<Rightarrow> nat \<Rightarrow> reg_result"   \<comment> \<open>key, value, size of the buffer\<close>
  wi_enum :: "cstring \<Rightarrow> reg_enum list"
  wi_processors :: u32
  wi_lpi_len :: nat                       \<comment> \<open>the size \<^verbatim>\<open>GetLogicalProcessorInformation\<close> asks for\<close>
  wi_malloc :: bool
  wi_lpi :: "bool list option"            \<comment> \<open>its entries: which are processor cores\<close>
  wi_memory :: "u64 option"
  wi_drive :: "nat \<Rightarrow> drive_answer"

text \<open>A text buffer of \<open>sz\<close> bytes after the call.\<close>

definition reg_field :: "nat \<Rightarrow> reg_result \<Rightarrow> cstring \<Rightarrow> cstring" where
  "reg_field sz r old =
     (case r of Reg_Value s \<Rightarrow> s | Reg_Missing \<Rightarrow> old | Reg_More junk \<Rightarrow> c_str (take sz junk))"

section \<open>Hardware\<close>

definition CPU_KEY :: cstring where
  "CPU_KEY = ''HARDWARE'' @ [CHR 0x5C] @ ''DESCRIPTION'' @ [CHR 0x5C] @ ''System'' @ [CHR 0x5C] @ ''CentralProcessor'' @ [CHR 0x5C] @ ''0''"

definition BIOS_KEY :: cstring where
  "BIOS_KEY = ''HARDWARE'' @ [CHR 0x5C] @ ''DESCRIPTION'' @ [CHR 0x5C] @ ''System'' @ [CHR 0x5C] @ ''BIOS''"

definition read_cpu_model :: "win_inv_env \<Rightarrow> leo_hw_inventory \<Rightarrow> leo_hw_inventory" where
  "read_cpu_model env out =
     (if \<not> wi_open env CPU_KEY then out
      else out\<lparr>cpu_model := reg_field 128 (wi_get env CPU_KEY ''ProcessorNameString'' 128) (cpu_model out)\<rparr>)"

definition read_cpu_topology :: "win_inv_env \<Rightarrow> leo_hw_inventory \<Rightarrow> leo_hw_inventory" where
  "read_cpu_topology env out =
     (let out = out\<lparr>cpu_threads := sint (wi_processors env)\<rparr> in
      if wi_lpi_len env = 0 then out
      else if \<not> wi_malloc env then out
      else (case wi_lpi env of None \<Rightarrow> out | Some cores \<Rightarrow> out\<lparr>cpu_cores := int (length (filter id cores))\<rparr>))"

definition win_read_ram_total :: "win_inv_env \<Rightarrow> leo_hw_inventory \<Rightarrow> leo_hw_inventory" where
  "win_read_ram_total env out = (case wi_memory env of None \<Rightarrow> out | Some b \<Rightarrow> out\<lparr>hw_ram_total_bytes := b\<rparr>)"

fun drive_loop :: "(nat \<Rightarrow> drive_answer) \<Rightarrow> nat list \<Rightarrow> int \<Rightarrow> int" where
  "drive_loop drive [] count = count"
| "drive_loop drive (i # is) count =
     (case drive i of
        Drive_Not_Found \<Rightarrow> count
      | Drive_Refused \<Rightarrow> drive_loop drive is count
      | Drive_Opened \<Rightarrow> drive_loop drive is (count + 1))"

definition win_read_disk_count :: "win_inv_env \<Rightarrow> leo_hw_inventory \<Rightarrow> leo_hw_inventory" where
  "win_read_disk_count env out = out\<lparr>disk_count := drive_loop (wi_drive env) [0..<64] 0\<rparr>"

definition read_bios_field :: "win_inv_env \<Rightarrow> cstring \<Rightarrow> nat \<Rightarrow> cstring \<Rightarrow> cstring" where
  "read_bios_field env value_name out_sz old =
     (if \<not> wi_open env BIOS_KEY then old else reg_field out_sz (wi_get env BIOS_KEY value_name out_sz) old)"

definition win_inventory_collect_hw :: "win_inv_env \<Rightarrow> leo_hw_inventory" where
  "win_inventory_collect_hw env =
     (let out = win_read_disk_count env (win_read_ram_total env (read_cpu_topology env (read_cpu_model env zero_hw))) in
      out\<lparr>bios_version := read_bios_field env ''BIOSVersion'' 64 (bios_version out),
          bios_vendor := read_bios_field env ''BIOSVendor'' 64 (bios_vendor out),
          motherboard := read_bios_field env ''BaseBoardProduct'' 128 (motherboard out),
          serial_number := read_bios_field env ''SystemSerialNumber'' 128 (serial_number out)\<rparr>)"

section \<open>Software\<close>

definition sub_key :: "cstring \<Rightarrow> cstring \<Rightarrow> cstring" where
  "sub_key key name = key @ [CHR 0x5C] @ name"

definition uninstall_item :: "win_inv_env \<Rightarrow> cstring \<Rightarrow> leo_sw_item option" where
  "uninstall_item env sub =
     (if \<not> wi_open env sub then None
      else
        case wi_get env sub ''DisplayName'' 128 of
          Reg_Value name \<Rightarrow>
            if name = [] then None
            else Some \<lparr>sw_name = name,
                       sw_version = reg_field 64 (wi_get env sub ''DisplayVersion'' 64) [],
                       publisher = reg_field 128 (wi_get env sub ''Publisher'' 128) [],
                       install_path = reg_field 256 (wi_get env sub ''InstallLocation'' 256) []\<rparr>
        | _ \<Rightarrow> None)"

text \<open>The first argument is the room left in the array.\<close>

fun uninstall_loop :: "win_inv_env \<Rightarrow> cstring \<Rightarrow> nat \<Rightarrow> reg_enum list \<Rightarrow> leo_sw_item list option" where
  "uninstall_loop env key 0 es = Some []"
| "uninstall_loop env key (Suc n) [] = None"
| "uninstall_loop env key (Suc n) (Enum_End # es) = Some []"
| "uninstall_loop env key (Suc n) (Enum_Error # es) = uninstall_loop env key (Suc n) es"
| "uninstall_loop env key (Suc n) (Enum_Key name # es) =
     (case uninstall_item env (sub_key key name) of
        None \<Rightarrow> uninstall_loop env key (Suc n) es
      | Some item \<Rightarrow> map_option ((#) item) (uninstall_loop env key n es))"

definition collect_uninstall_key :: "win_inv_env \<Rightarrow> cstring \<Rightarrow> nat \<Rightarrow> leo_sw_item list option" where
  "collect_uninstall_key env subkey room =
     (if \<not> wi_open env subkey then Some [] else uninstall_loop env subkey room (wi_enum env subkey))"

definition UNINSTALL_KEY :: cstring where
  "UNINSTALL_KEY = ''SOFTWARE'' @ [CHR 0x5C] @ ''Microsoft'' @ [CHR 0x5C] @ ''Windows'' @ [CHR 0x5C] @ ''CurrentVersion'' @ [CHR 0x5C] @ ''Uninstall''"

definition UNINSTALL_KEY_32 :: cstring where
  "UNINSTALL_KEY_32 = ''SOFTWARE'' @ [CHR 0x5C] @ ''WOW6432Node'' @ [CHR 0x5C] @ ''Microsoft'' @ [CHR 0x5C] @ ''Windows'' @ [CHR 0x5C] @
     ''CurrentVersion'' @ [CHR 0x5C] @ ''Uninstall''"

text \<open>The entries written; \<open>Some None\<close> is \<^verbatim>\<open>-1\<close>, \<open>None\<close> that the enumeration goes on.\<close>

definition win_inventory_collect_sw :: "win_inv_env \<Rightarrow> int \<Rightarrow> leo_sw_item list option option" where
  "win_inventory_collect_sw env max_items =
     (if max_items \<le> 0 then Some None
      else case collect_uninstall_key env UNINSTALL_KEY (nat max_items) of
        None \<Rightarrow> None
      | Some first \<Rightarrow>
          map_option (\<lambda>second. Some (first @ second))
            (collect_uninstall_key env UNINSTALL_KEY_32 (nat max_items - length first)))"

section \<open>What is listed\<close>

text \<open>The programs of a key: the entries with a name to display, in the order of the enumeration.\<close>

fun key_names :: "reg_enum list \<Rightarrow> cstring list" where
  "key_names [] = []"
| "key_names (Enum_End # es) = []"
| "key_names (Enum_Error # es) = key_names es"
| "key_names (Enum_Key name # es) = name # key_names es"

definition programs :: "win_inv_env \<Rightarrow> cstring \<Rightarrow> leo_sw_item list" where
  "programs env key =
     (if wi_open env key then List.map_filter (\<lambda>name. uninstall_item env (sub_key key name)) (key_names (wi_enum env key)) else [])"

definition enum_ends :: "win_inv_env \<Rightarrow> bool" where
  "enum_ends env \<longleftrightarrow> Enum_End \<in> set (wi_enum env UNINSTALL_KEY) \<and> Enum_End \<in> set (wi_enum env UNINSTALL_KEY_32)"

lemma uninstall_loop_eq:
  "Enum_End \<in> set es \<Longrightarrow>
     uninstall_loop env key n es = Some (take n (List.map_filter (\<lambda>name. uninstall_item env (sub_key key name)) (key_names es)))"
  by (induction env key n es rule: uninstall_loop.induct) (auto simp: map_filter_simps split: option.splits)

lemma collect_uninstall_key_eq:
  "Enum_End \<in> set (wi_enum env key) \<Longrightarrow> collect_uninstall_key env key n = Some (take n (programs env key))"
  by (simp add: collect_uninstall_key_def programs_def uninstall_loop_eq)

text \<open>A failing enumeration never ends the loop, however often it is asked.\<close>

theorem enum_error_never_ends:
  "uninstall_loop env key (Suc n) (replicate k Enum_Error) = None"
  by (induction k) simp_all

section \<open>Bounds\<close>

text \<open>The API's texts fit the buffers, and what is left of a text that did not fit is terminated: the API
  does not promise the latter.\<close>

definition reg_terminated :: "win_inv_env \<Rightarrow> bool" where
  "reg_terminated env \<longleftrightarrow>
     (\<forall>key value sz. case wi_get env key value sz of
        Reg_Value s \<Rightarrow> length s < sz | Reg_Missing \<Rightarrow> True | Reg_More junk \<Rightarrow> NUL \<in> set (take sz junk))"

definition win_sw_fits :: "leo_sw_item \<Rightarrow> bool" where
  "win_sw_fits s \<longleftrightarrow> sw_name s \<noteq> [] \<and> length (sw_name s) < 128 \<and> length (sw_version s) < 64 \<and> length (publisher s) < 128 \<and> length (install_path s) < 256"

lemma c_str_shorter: "NUL \<in> set s \<Longrightarrow> length (c_str s) < length s"
  by (induction s) (auto simp: c_str_def)

lemma reg_field_fits:
  assumes "reg_terminated env" "length old < sz"
  shows "length (reg_field sz (wi_get env key value sz) old) < sz"
proof (cases "wi_get env key value sz")
  case (Reg_More junk)
  then have "NUL \<in> set (take sz junk)" using assms(1) by (auto simp: reg_terminated_def dest!: spec split: reg_result.splits)
  from c_str_shorter [OF this] show ?thesis using Reg_More by (simp add: reg_field_def)
qed (use assms in \<open>auto simp: reg_field_def reg_terminated_def split: reg_result.splits\<close>)

lemma uninstall_item_fits: "reg_terminated env \<Longrightarrow> uninstall_item env sub = Some it \<Longrightarrow> win_sw_fits it"
proof -
  assume reg: "reg_terminated env" and "uninstall_item env sub = Some it"
  then have it: "sw_name it \<noteq> []" "wi_get env sub ''DisplayName'' 128 = Reg_Value (sw_name it)"
    "sw_version it = reg_field 64 (wi_get env sub ''DisplayVersion'' 64) []"
    "publisher it = reg_field 128 (wi_get env sub ''Publisher'' 128) []"
    "install_path it = reg_field 256 (wi_get env sub ''InstallLocation'' 256) []"
    by (auto simp: uninstall_item_def split: if_splits reg_result.splits)
  have "length (sw_name it) < 128" using reg_field_fits [OF reg, of "[]" 128 sub "''DisplayName''"] it(2) by (simp add: reg_field_def)
  with it reg show ?thesis by (simp add: win_sw_fits_def reg_field_fits)
qed

lemma drive_loop_bounds: "count \<le> drive_loop drive is count \<and> drive_loop drive is count \<le> count + int (length is)"
proof (induction "is" arbitrary: count)
  case (Cons i "is")
  from Cons [of count] Cons [of "count + 1"] show ?case by (auto split: drive_answer.splits)
qed simp

text \<open>C35: the software inventory on Windows lists exactly the programs with a name to display, those of the
  64-bit view before those of the 32-bit view, each in the registry's order, cut at the number asked for,
  provided both enumerations end; every text then fits its buffer if the registry terminates what it cuts.\<close>

theorem win_inventory_sw_exact:
  assumes "enum_ends env" "0 < n"
  shows "win_inventory_collect_sw env n = Some (Some (take (nat n) (programs env UNINSTALL_KEY @ programs env UNINSTALL_KEY_32))) \<and>
         (reg_terminated env \<longrightarrow> list_all win_sw_fits (programs env UNINSTALL_KEY @ programs env UNINSTALL_KEY_32))"
proof -
  have "list_all win_sw_fits (programs env key)" if "reg_terminated env" for key
    using uninstall_item_fits [OF that] by (auto simp: programs_def list_all_iff List.map_filter_def)
  with assms show ?thesis by (simp add: win_inventory_collect_sw_def enum_ends_def collect_uninstall_key_eq min_def)
qed

text \<open>The hardware inventory fits its structure under the same condition.\<close>

theorem win_inventory_hw_fits:
  assumes "reg_terminated env" "0 \<le> sint (wi_processors env)"
  shows "hw_fits (win_inventory_collect_hw env) \<and> disk_count (win_inventory_collect_hw env) \<le> 64"
  using assms drive_loop_bounds [of 0 "wi_drive env" "[0..<64]"]
  by (simp add: win_inventory_collect_hw_def hw_fits_def read_bios_field_def read_cpu_model_def read_cpu_topology_def win_read_ram_total_def
      win_read_disk_count_def zero_hw_def Let_def reg_field_fits split: option.split)

section \<open>A sample registry\<close>

definition demo_registry :: win_inv_env where
  "demo_registry =
     \<lparr>wi_open = (\<lambda>_. True),
      wi_get = (\<lambda>key value sz. if value = ''DisplayName'' \<and> last key = CHR ''A'' \<and> 5 < sz then Reg_Value ''Alpha'' else Reg_Missing),
      wi_enum = (\<lambda>key. if key = UNINSTALL_KEY then [Enum_Key ''A'', Enum_Error, Enum_Key ''B'', Enum_End] else [Enum_End]),
      wi_processors = 4, wi_lpi_len = 0, wi_malloc = True, wi_lpi = None, wi_memory = None, wi_drive = (\<lambda>_. Drive_Not_Found)\<rparr>"

theorem win_inventory_sw_exact_witness:
  "win_inventory_collect_sw demo_registry 150 =
     Some (Some [\<lparr>sw_name = ''Alpha'', sw_version = [], publisher = [], install_path = []\<rparr>])"
proof -
  have ends: "enum_ends demo_registry"
    by (simp add: enum_ends_def demo_registry_def UNINSTALL_KEY_def UNINSTALL_KEY_32_def)
  have "programs demo_registry UNINSTALL_KEY @ programs demo_registry UNINSTALL_KEY_32 =
      [\<lparr>sw_name = ''Alpha'', sw_version = [], publisher = [], install_path = []\<rparr>]"
    by code_simp
  with win_inventory_sw_exact [OF ends, of 150] show ?thesis by simp
qed

theorem win_inventory_hw_fits_witness: "hw_fits (win_inventory_collect_hw demo_registry)"
proof -
  have "reg_terminated demo_registry"
    unfolding reg_terminated_def
  proof (intro allI)
    fix key val and sz :: nat
    show "case wi_get demo_registry key val sz of Reg_Value s \<Rightarrow> length s < sz | Reg_Missing \<Rightarrow> True | Reg_More junk \<Rightarrow> NUL \<in> set (take sz junk)"
      by (simp add: demo_registry_def)
  qed
  then show ?thesis using win_inventory_hw_fits [of demo_registry] by (simp add: demo_registry_def)
qed

end
