(* ===== verification/Logger.thy ===== *)
theory Logger
  imports Config "HOL-Library.Sublist"
begin

text \<open>
  \<^verbatim>\<open>agent/src/logger.c\<close>: the log file with its rotation. The logger's state is the record \<open>logger\<close>; the
  stream is the file it was opened on and its position. What the calls meet is the record \<open>log_env\<close>:
  whether \<^verbatim>\<open>fopen\<close> and \<^verbatim>\<open>rename\<close> succeed, the position of a stream just opened for appending (left to the
  implementation by the C standard) and the printed time. Each operation runs under the logger's mutex.
\<close>

record logger =
  lg_fp :: "(cstring \<times> nat) option"
  lg_min_level :: int
  lg_max_bytes :: int
  lg_path :: cstring
  lg_initialized :: bool

record log_sys =
  ls_logger :: logger
  ls_files :: fs
  ls_stderr :: string

record log_env =
  le_open :: bool
  le_tell :: "nat \<Rightarrow> nat"
  le_rename :: bool
  le_ts :: cstring

definition LEVEL_NAMES :: "cstring list" where
  "LEVEL_NAMES = [''DEBUG'', ''INFO '', ''WARN '', ''ERROR'', ''FATAL'']"

definition LOG_FATAL :: int where "LOG_FATAL = 4"

definition content :: "fs \<Rightarrow> cstring \<Rightarrow> string" where
  "content files path = (case files path of None \<Rightarrow> [] | Some s \<Rightarrow> s)"

text \<open>\<^verbatim>\<open>fopen(path, "a")\<close>: creates the file when there is none.\<close>

definition open_append :: "log_env \<Rightarrow> cstring \<Rightarrow> fs \<Rightarrow> (cstring \<times> nat) option \<times> fs" where
  "open_append env path files =
     (if le_open env then (Some (path, le_tell env (length (content files path))), files(path \<mapsto> content files path))
      else (None, files))"

definition log_file_size :: "logger \<Rightarrow> nat" where
  "log_file_size lg = (case lg_fp lg of None \<Rightarrow> 0 | Some (_, pos) \<Rightarrow> pos)"

definition archive_of :: "cstring \<Rightarrow> cstring" where
  "archive_of path = strncpy_buf 520 (path @ ''.1'')"

definition rotate_log :: "log_env \<Rightarrow> log_sys \<Rightarrow> log_sys" where
  "rotate_log env s =
     (let lg = ls_logger s in
      if lg_fp lg = None \<or> lg_path lg = [] then s
      else let path = lg_path lg;
               files = ls_files s;
               files = (if le_rename env \<and> files path \<noteq> None then files(archive_of path := files path, path := None) else files);
               (fp, files) = open_append env path files
           in s\<lparr>ls_logger := lg\<lparr>lg_fp := fp\<rparr>, ls_files := files\<rparr>)"

definition open_warning :: "cstring \<Rightarrow> string" where
  "open_warning p = ''[leo-agent] WARN: impossible d'' @ [CHR 0x27] @ ''ouvrir le log '' @ [CHR 0x27] @ p @ [CHR 0x27] @ '', utilisation de stderr'' @ [NL]"

definition leo_log_init :: "log_env \<Rightarrow> cstring option \<Rightarrow> int \<Rightarrow> int \<Rightarrow> log_sys \<Rightarrow> int \<times> log_sys" where
  "leo_log_init env path level max_bytes s =
     (let lg = (ls_logger s)\<lparr>lg_min_level := level, lg_max_bytes := (if 0 < max_bytes then max_bytes else 10 * 1024 * 1024)\<rparr>;
          s = s\<lparr>ls_logger := lg\<rparr>;
          s = (case path of
                 None \<Rightarrow> s
               | Some p \<Rightarrow>
                   if p = [] then s
                   else let (fp, files) = open_append env p (ls_files s)
                        in s\<lparr>ls_logger := lg\<lparr>lg_path := strncpy_buf 512 p, lg_fp := fp\<rparr>, ls_files := files,
                             ls_stderr := ls_stderr s @ (if fp = None then open_warning p else [])\<rparr>);
          s = s\<lparr>ls_logger := (ls_logger s)\<lparr>lg_initialized := True\<rparr>\<rparr>
      in (if lg_fp (ls_logger s) \<noteq> None \<or> path = None then 0 else - 1, s))"

text \<open>The last component of the source file's path, and the printed line.\<close>

definition base_name :: "cstring option \<Rightarrow> cstring" where
  "base_name file =
     (case file of None \<Rightarrow> ''?'' | Some f \<Rightarrow> rev (takeWhile (\<lambda>c. c \<noteq> CHR ''/'') (rev f)))"

definition log_entry :: "cstring \<Rightarrow> int \<Rightarrow> cstring option \<Rightarrow> int \<Rightarrow> cstring \<Rightarrow> cstring" where
  "log_entry ts level file line msg =
     ts @ '' ['' @ LEVEL_NAMES ! nat level @ ''] '' @ base_name file @ '':'' @ show_int line @
     [CHR '' '', CHR 0xE2, CHR 0x80, CHR 0x94, CHR '' ''] @ strncpy_buf 4096 msg @ [NL]"

definition leo_log_write :: "log_env \<Rightarrow> int \<Rightarrow> cstring option \<Rightarrow> int \<Rightarrow> cstring \<Rightarrow> log_sys \<Rightarrow> log_sys" where
  "leo_log_write env level file line msg s =
     (if \<not> lg_initialized (ls_logger s) \<or> level < lg_min_level (ls_logger s) then s
      else
        let s = (if lg_fp (ls_logger s) \<noteq> None \<and> lg_max_bytes (ls_logger s) \<le> int (log_file_size (ls_logger s))
                 then rotate_log env s else s);
            entry = log_entry (le_ts env) level file line msg;
            s = (case lg_fp (ls_logger s) of
                   None \<Rightarrow> s\<lparr>ls_stderr := ls_stderr s @ entry\<rparr>
                 | Some (path, pos) \<Rightarrow>
                     let new = content (ls_files s) path @ entry in
                     s\<lparr>ls_files := (ls_files s)(path \<mapsto> new),
                       ls_logger := (ls_logger s)\<lparr>lg_fp := Some (path, length new)\<rparr>\<rparr>)
        in if level = LOG_FATAL then s\<lparr>ls_stderr := ls_stderr s @ entry\<rparr> else s)"

definition leo_log_destroy :: "log_sys \<Rightarrow> log_sys" where
  "leo_log_destroy s =
     (if \<not> lg_initialized (ls_logger s) then s
      else s\<lparr>ls_logger := (ls_logger s)\<lparr>lg_fp := None, lg_initialized := False\<rparr>\<rparr>)"

section \<open>What the log files hold\<close>

record log_call =
  lc_env :: log_env
  lc_level :: int
  lc_file :: "cstring option"
  lc_line :: int
  lc_msg :: cstring

definition call_entry :: "log_call \<Rightarrow> cstring" where
  "call_entry c = log_entry (le_ts (lc_env c)) (lc_level c) (lc_file c) (lc_line c) (lc_msg c)"

definition log_calls :: "log_call list \<Rightarrow> log_sys \<Rightarrow> log_sys" where
  "log_calls cs s = fold (\<lambda>c. leo_log_write (lc_env c) (lc_level c) (lc_file c) (lc_line c) (lc_msg c)) cs s"

text \<open>The disk lets the log be renamed and opened again.\<close>

definition disk_ok :: "log_call \<Rightarrow> bool" where
  "disk_ok c \<longleftrightarrow> le_open (lc_env c) \<and> le_rename (lc_env c) \<and> le_tell (lc_env c) 0 = 0"

definition logging_to :: "cstring \<Rightarrow> log_sys \<Rightarrow> bool" where
  "logging_to path s \<longleftrightarrow>
     lg_initialized (ls_logger s) \<and> lg_path (ls_logger s) = path \<and> path \<noteq> [] \<and> archive_of path \<noteq> path \<and> 0 < lg_max_bytes (ls_logger s) \<and>
     lg_fp (ls_logger s) = Some (path, length (content (ls_files s) path)) \<and> ls_files s path \<noteq> None"

definition both_logs :: "cstring \<Rightarrow> log_sys \<Rightarrow> string" where
  "both_logs path s = content (ls_files s) (archive_of path) @ content (ls_files s) path"

definition logged :: "log_sys \<Rightarrow> log_call list \<Rightarrow> cstring" where
  "logged s cs = concat (map call_entry (filter (\<lambda>c. lg_min_level (ls_logger s) \<le> lc_level c) cs))"

lemma write_effect:
  assumes "logging_to path s" "disk_ok c"
  defines "s' \<equiv> leo_log_write (lc_env c) (lc_level c) (lc_file c) (lc_line c) (lc_msg c) s"
  shows "logging_to path s'" "lg_min_level (ls_logger s') = lg_min_level (ls_logger s)" "lg_max_bytes (ls_logger s') = lg_max_bytes (ls_logger s)"
    "suffix (both_logs path s') (both_logs path s @ logged s [c])"
    "\<And>q. q \<noteq> path \<Longrightarrow> q \<noteq> archive_of path \<Longrightarrow> ls_files s' q = ls_files s q"
    "int (length (content (ls_files s') path)) < max (int (length (content (ls_files s) path)) + 1) (lg_max_bytes (ls_logger s) + int (length (call_entry c)))"
    "suffix (logged s [c]) (content (ls_files s') path)"
  using assms
  by (auto simp: leo_log_write_def rotate_log_def open_append_def logging_to_def disk_ok_def log_file_size_def both_logs_def logged_def
      content_def call_entry_def Let_def suffix_def split: if_splits option.splits)

lemma suffix_app: "suffix a b \<Longrightarrow> suffix (a @ c) (b @ c)"
  by (auto simp: suffix_def)

lemma log_calls_effect:
  assumes "logging_to path s" "list_all disk_ok cs"
  shows "logging_to path (log_calls cs s) \<and> suffix (both_logs path (log_calls cs s)) (both_logs path s @ logged s cs) \<and>
         (\<forall>q. q \<noteq> path \<longrightarrow> q \<noteq> archive_of path \<longrightarrow> ls_files (log_calls cs s) q = ls_files s q)"
  using assms
proof (induction cs arbitrary: s)
  case (Cons c cs)
  let ?s = "leo_log_write (lc_env c) (lc_level c) (lc_file c) (lc_line c) (lc_msg c) s"
  have calls: "log_calls (c # cs) s = log_calls cs ?s" by (simp add: log_calls_def)
  from Cons.prems have disk: "disk_ok c" "list_all disk_ok cs" by simp_all
  note w = write_effect [OF Cons.prems(1) disk(1)]
  note IH = Cons.IH [OF w(1) disk(2)]
  have "logged s (c # cs) = logged s [c] @ logged ?s cs" using w(2) by (simp add: logged_def)
  then have "suffix (both_logs path (log_calls cs ?s)) (both_logs path s @ logged s (c # cs))"
    using IH suffix_app [OF w(4), of "logged ?s cs"] by (auto intro: suffix_order.trans)
  with IH w(5) calls show ?case by auto
qed (simp add: log_calls_def logged_def)

lemma log_calls_bounded:
  assumes "logging_to path s" "list_all disk_ok cs" "list_all (\<lambda>c. int (length (call_entry c)) \<le> n) cs"
    and "int (length (content (ls_files s) path)) < lg_max_bytes (ls_logger s) + n"
  shows "int (length (content (ls_files (log_calls cs s)) path)) < lg_max_bytes (ls_logger s) + n"
  using assms
proof (induction cs arbitrary: s)
  case (Cons c cs)
  let ?s = "leo_log_write (lc_env c) (lc_level c) (lc_file c) (lc_line c) (lc_msg c) s"
  from Cons.prems have disk: "disk_ok c" "list_all disk_ok cs" by simp_all
  note w = write_effect [OF Cons.prems(1) disk(1)]
  have "int (length (content (ls_files ?s) path)) < lg_max_bytes (ls_logger ?s) + n" using w(6) w(3) Cons.prems(3,4) by auto
  from Cons.IH [OF w(1) disk(2) _ this] Cons.prems(3) w(3) show ?case by (simp add: log_calls_def)
qed (simp add: log_calls_def)


section \<open>A sample log\<close>

definition demo_log_env :: log_env where
  "demo_log_env = \<lparr>le_open = True, le_tell = (\<lambda>n. n), le_rename = True, le_ts = ''T''\<rparr>"

definition demo_log_call :: log_call where
  "demo_log_call = \<lparr>lc_env = demo_log_env, lc_level = 1, lc_file = Some ''src/a.c'', lc_line = 3, lc_msg = ''hello''\<rparr>"

definition demo_log :: log_sys where
  "demo_log = snd (leo_log_init demo_log_env (Some ''x.log'') 1 20
     \<lparr>ls_logger = \<lparr>lg_fp = None, lg_min_level = 0, lg_max_bytes = 0, lg_path = [], lg_initialized = False\<rparr>,
      ls_files = Map.empty, ls_stderr = []\<rparr>)"

lemma demo_log_entry: "call_entry demo_log_call = ''T [INFO ] a.c:3 '' @ [CHR 0xE2, CHR 0x80, CHR 0x94] @ '' hello'' @ [NL]"
  by code_simp

lemma demo_log_ok: "logging_to ''x.log'' demo_log" "content (ls_files demo_log) ''x.log'' = []" "lg_max_bytes (ls_logger demo_log) = 20"
proof -
  have "archive_of ''x.log'' = ''x.log.1''" by (simp add: archive_of_def strncpy_buf_def)
  then show "logging_to ''x.log'' demo_log"
    by (simp add: logging_to_def demo_log_def leo_log_init_def demo_log_env_def open_append_def content_def strncpy_buf_def)
qed (simp_all add: demo_log_def leo_log_init_def demo_log_env_def open_append_def content_def)


end
