(* ===== verification/Service.thy ===== *)
theory Service
  imports Config Interfaces
begin

text \<open>
  Integration as a system service: \<^verbatim>\<open>agent/platform/linux/service_linux.c\<close> (a systemd unit file) and
  \<^verbatim>\<open>agent/platform/windows/service_win.c\<close> (the service control manager, SCM). Installation, removal and
  status of both fulfil the contract \<open>service_manager\<close>; the life of the Windows service, in which the
  service's thread and the control handler interleave, is the step relation \<open>svc_step\<close>.
\<close>

datatype leo_service_status = LEO_SERVICE_UNKNOWN | LEO_SERVICE_ACTIVE | LEO_SERVICE_INACTIVE | LEO_SERVICE_FAILED

section \<open>Linux\<close>

definition LEO_SYSTEMD_UNIT_PATH :: cstring where "LEO_SYSTEMD_UNIT_PATH = ''/etc/systemd/system/leo-agent.service''"

definition LEO_SERVICE_UNIT :: string where
  "LEO_SERVICE_UNIT =
     concat (map (\<lambda>l. l @ [NL])
       [''[Unit]'', ''Description=Leo-One RMM Agent'', ''After=network-online.target'', ''Wants=network-online.target'', '''',
        ''[Service]'', ''Type=simple'', ''ExecStart=/opt/leo-one/agent/leo-agent'', ''Restart=on-failure'', ''RestartSec=10'',
        ''User=root'', ''StandardOutput=journal'', ''StandardError=journal'', '''',
        ''[Install]'', ''WantedBy=multi-user.target''])"

record systemd_env =
  sd_root :: bool                 \<comment> \<open>\<^verbatim>\<open>geteuid() == 0\<close>\<close>
  sd_runtime_dir :: bool
  sd_fopen :: bool
  sd_written :: nat               \<comment> \<open>what \<^verbatim>\<open>fwrite\<close> returned\<close>
  sd_unlink :: bool
  sd_popen :: "string option"     \<comment> \<open>what \<^verbatim>\<open>systemctl is-active\<close> printed\<close>

definition systemd_available :: "systemd_env \<Rightarrow> bool" where
  "systemd_available env = sd_runtime_dir env"

definition linux_service_install :: "systemd_env \<Rightarrow> fs \<Rightarrow> leo_error \<times> fs" where
  "linux_service_install env files =
     (if \<not> sd_root env then (LEO_ERR_SYSTEM, files)
      else if \<not> systemd_available env then (LEO_ERR_SYSTEM, files)
      else if \<not> sd_fopen env then (LEO_ERR_SYSTEM, files)
      else
        let files = files(LEO_SYSTEMD_UNIT_PATH \<mapsto> take (sd_written env) LEO_SERVICE_UNIT) in
        if sd_written env \<noteq> length LEO_SERVICE_UNIT then (LEO_ERR_SYSTEM, files) else (LEO_OK, files))"

definition linux_service_uninstall :: "systemd_env \<Rightarrow> fs \<Rightarrow> leo_error \<times> fs" where
  "linux_service_uninstall env files =
     (if files LEO_SYSTEMD_UNIT_PATH = None then (LEO_OK, files)
      else if \<not> sd_unlink env then (LEO_ERR_SYSTEM, files)
      else (LEO_OK, files(LEO_SYSTEMD_UNIT_PATH := None)))"

definition linux_service_status :: "systemd_env \<Rightarrow> leo_service_status" where
  "linux_service_status env =
     (if \<not> systemd_available env then LEO_SERVICE_UNKNOWN
      else case sd_popen env of
        None \<Rightarrow> LEO_SERVICE_UNKNOWN
      | Some printed \<Rightarrow>
          (case read_lines 63 printed of
             [] \<Rightarrow> LEO_SERVICE_UNKNOWN
           | l # _ \<Rightarrow>
               let out = c_str l;
                   out = (if out \<noteq> [] \<and> last out = NL then butlast out else out) in
               if out = ''active'' then LEO_SERVICE_ACTIVE
               else if out = ''inactive'' then LEO_SERVICE_INACTIVE
               else if out = ''failed'' then LEO_SERVICE_FAILED
               else LEO_SERVICE_UNKNOWN))"

section \<open>Windows: installation\<close>

definition LEO_SERVICE_NAME :: cstring where "LEO_SERVICE_NAME = ''leo-agent''"

datatype svc_state = SERVICE_START_PENDING | SERVICE_RUNNING | SERVICE_STOP_PENDING | SERVICE_STOPPED

datatype sc_handle = Sc_Manager | Sc_Service

text \<open>The services the SCM knows, with the path of their program; what its calls answer.\<close>

type_synonym scm = "cstring \<rightharpoonup> cstring"

record scm_env =
  sc_open :: bool
  sc_module :: "cstring option"
  sc_create :: bool                              \<comment> \<open>for a service that does not exist\<close>
  sc_open_service :: bool                        \<comment> \<open>for one that exists\<close>
  sc_delete :: bool
  sc_query :: "(svc_state \<times> u32) option"

definition win_service_install :: "scm_env \<Rightarrow> scm \<Rightarrow> leo_error \<times> scm \<times> sc_handle res_effect list" where
  "win_service_install env svcs =
     (if \<not> sc_open env then (LEO_ERR_SYSTEM, svcs, [])
      else case sc_module env of
        None \<Rightarrow> (LEO_ERR_SYSTEM, svcs, held_briefly Sc_Manager [])
      | Some exe_path \<Rightarrow>
          if svcs LEO_SERVICE_NAME \<noteq> None then (LEO_OK, svcs, held_briefly Sc_Manager [])
          else if \<not> sc_create env then (LEO_ERR_SYSTEM, svcs, held_briefly Sc_Manager [])
          else (LEO_OK, svcs(LEO_SERVICE_NAME \<mapsto> exe_path), held_briefly Sc_Manager (held_briefly Sc_Service [])))"

definition win_service_uninstall :: "scm_env \<Rightarrow> scm \<Rightarrow> leo_error \<times> scm \<times> sc_handle res_effect list" where
  "win_service_uninstall env svcs =
     (if \<not> sc_open env then (LEO_ERR_SYSTEM, svcs, [])
      else if svcs LEO_SERVICE_NAME = None then (LEO_OK, svcs, held_briefly Sc_Manager [])
      else if \<not> sc_open_service env then (LEO_ERR_SYSTEM, svcs, held_briefly Sc_Manager [])
      else if \<not> sc_delete env then (LEO_ERR_SYSTEM, svcs, held_briefly Sc_Manager (held_briefly Sc_Service []))
      else (LEO_OK, svcs(LEO_SERVICE_NAME := None), held_briefly Sc_Manager (held_briefly Sc_Service [])))"

definition win_service_status :: "scm_env \<Rightarrow> scm \<Rightarrow> leo_service_status \<times> sc_handle res_effect list" where
  "win_service_status env svcs =
     (if \<not> sc_open env then (LEO_SERVICE_UNKNOWN, [])
      else if svcs LEO_SERVICE_NAME = None \<or> \<not> sc_open_service env then (LEO_SERVICE_UNKNOWN, held_briefly Sc_Manager [])
      else
        (case sc_query env of
           Some (SERVICE_RUNNING, _) \<Rightarrow> LEO_SERVICE_ACTIVE
         | Some (SERVICE_STOPPED, code) \<Rightarrow> if code \<noteq> 0 then LEO_SERVICE_FAILED else LEO_SERVICE_INACTIVE
         | _ \<Rightarrow> LEO_SERVICE_UNKNOWN,
         held_briefly Sc_Manager (held_briefly Sc_Service [])))"

section \<open>The contract of both\<close>

locale service_manager =
  fixes install uninstall :: "'env \<Rightarrow> 'st \<Rightarrow> leo_error \<times> 'st"
    and installed :: "'st \<Rightarrow> bool"
    and reachable :: "'env \<Rightarrow> bool"      \<comment> \<open>the manager answers\<close>
  assumes install_law: "install e s = (LEO_OK, s') \<Longrightarrow> installed s'"
    and uninstall_law: "uninstall e s = (LEO_OK, s') \<Longrightarrow> \<not> installed s'"
    and refused_law: "uninstall e s = (r, s') \<Longrightarrow> r \<noteq> LEO_OK \<Longrightarrow> r = LEO_ERR_SYSTEM \<and> s' = s"
    and absent_law: "reachable e \<Longrightarrow> \<not> installed s \<Longrightarrow> uninstall e s = (LEO_OK, s)"
begin

text \<open>Any sequence of installations and removals: after the last successful one the service is there
  exactly when it was an installation.\<close>

fun apply_op :: "'env \<times> bool \<Rightarrow> 'st \<Rightarrow> leo_error \<times> 'st" where
  "apply_op (e, True) s = install e s"
| "apply_op (e, False) s = uninstall e s"

lemma last_success: "apply_op (e, b) s = (LEO_OK, s') \<Longrightarrow> installed s' \<longleftrightarrow> b"
  by (cases b) (auto dest: install_law uninstall_law)

lemma uninstall_twice: "uninstall e s = (LEO_OK, s') \<Longrightarrow> reachable e' \<Longrightarrow> uninstall e' s' = (LEO_OK, s')"
  using uninstall_law absent_law by blast

end

definition scm_only :: "leo_error \<times> scm \<times> sc_handle res_effect list \<Rightarrow> leo_error \<times> scm" where
  "scm_only r = (fst r, fst (snd r))"

lemma unit_not_empty: "LEO_SERVICE_UNIT \<noteq> []" by (simp add: LEO_SERVICE_UNIT_def)

interpretation systemd: service_manager linux_service_install linux_service_uninstall
  "\<lambda>files. files LEO_SYSTEMD_UNIT_PATH \<noteq> None" "\<lambda>_. True"
  by unfold_locales
     (auto simp: linux_service_install_def linux_service_uninstall_def Let_def split: if_splits)

interpretation scm: service_manager "\<lambda>e s. scm_only (win_service_install e s)" "\<lambda>e s. scm_only (win_service_uninstall e s)"
  "\<lambda>svcs. svcs LEO_SERVICE_NAME \<noteq> None" sc_open
  by unfold_locales
     (auto simp: scm_only_def win_service_install_def win_service_uninstall_def split: if_splits option.splits)

text \<open>on both systems an installation that reports success leaves the service installed (on Linux
  with the complete unit file), a removal that reports success leaves it absent, removing it again
  succeeds, a failed removal changes nothing; no other file or service is touched, and the handles of
  the service manager are closed on every path.\<close>

theorem service_installation:
  "(linux_service_install e files = (LEO_OK, files') \<longrightarrow> files' = files(LEO_SYSTEMD_UNIT_PATH \<mapsto> LEO_SERVICE_UNIT)) \<and>
   (linux_service_uninstall e files = (r, files') \<longrightarrow> files' = (if r = LEO_OK then files(LEO_SYSTEMD_UNIT_PATH := None) else files)) \<and>
   (linux_service_uninstall e files = (LEO_OK, files') \<longrightarrow> linux_service_uninstall e' files' = (LEO_OK, files')) \<and>
   (win_service_install w svcs = (r', svcs', hs) \<longrightarrow>
      account [] hs = Some [] \<and> (r' = LEO_OK \<longrightarrow> svcs' LEO_SERVICE_NAME \<noteq> None) \<and> (\<forall>n. n \<noteq> LEO_SERVICE_NAME \<longrightarrow> svcs' n = svcs n)) \<and>
   (win_service_uninstall w svcs = (r', svcs', hs) \<longrightarrow>
      account [] hs = Some [] \<and> svcs' = (if r' = LEO_OK then svcs(LEO_SERVICE_NAME := None) else svcs) \<and>
      (r' = LEO_OK \<longrightarrow> sc_open w' \<longrightarrow> scm_only (win_service_uninstall w' svcs') = (LEO_OK, svcs')))"
proof (intro conjI impI)
  assume "linux_service_uninstall e files = (LEO_OK, files')"
  then show "linux_service_uninstall e' files' = (LEO_OK, files')" by (rule systemd.uninstall_twice) simp
next
  assume *: "win_service_uninstall w svcs = (r', svcs', hs)" "r' = LEO_OK" "sc_open w'"
  then show "scm_only (win_service_uninstall w' svcs') = (LEO_OK, svcs')"
    by (intro scm.uninstall_twice [of w svcs svcs']) (simp_all add: scm_only_def)
qed (auto simp: linux_service_install_def linux_service_uninstall_def win_service_install_def win_service_uninstall_def
      held_briefly_def Let_def fun_upd_idem_iff split: if_splits option.splits)

section \<open>Windows: the life of the service\<close>

record svc_status =
  ss_state :: svc_state
  ss_exit :: u32
  ss_hint :: nat
  ss_accept :: bool               \<comment> \<open>STOP and SHUTDOWN are accepted\<close>
  ss_checkpoint :: nat

definition ERROR_SERVICE_SPECIFIC_ERROR :: u32 where "ERROR_SERVICE_SPECIFIC_ERROR = 1066"

text \<open>Where the service's thread and the control handler are.\<close>

datatype svc_pc = M_entered | M_pending | M_event | M_failed | M_started | M_waiting | M_woken | M_agent_stopped | M_closed | M_returned

datatype ctrl_pc = C_idle | C_delivered | C_reported

record svc_sys =
  sv_pc :: svc_pc
  sv_ctrl :: ctrl_pc
  sv_status :: "svc_status option"      \<comment> \<open>the last status the SCM was told\<close>
  sv_check_point :: nat
  sv_event :: "bool option"             \<comment> \<open>\<open>None\<close>: NULL; otherwise whether it is signalled\<close>
  sv_agent :: bool
  sv_controls :: nat                    \<comment> \<open>stop controls the SCM has delivered\<close>
  sv_stops :: nat                       \<comment> \<open>calls of \<^verbatim>\<open>leo_agent_stop\<close>\<close>

definition report_svc :: "svc_state \<Rightarrow> u32 \<Rightarrow> nat \<Rightarrow> svc_sys \<Rightarrow> svc_sys" where
  "report_svc st code hint s =
     (let final = (st = SERVICE_RUNNING \<or> st = SERVICE_STOPPED) in
      s\<lparr>sv_status := Some \<lparr>ss_state = st, ss_exit = code, ss_hint = hint, ss_accept = (st \<noteq> SERVICE_START_PENDING),
                           ss_checkpoint = (if final then 0 else sv_check_point s)\<rparr>,
        sv_check_point := (if final then sv_check_point s else sv_check_point s + 1)\<rparr>)"

definition svc_init :: "svc_sys \<Rightarrow> bool" where
  "svc_init s \<longleftrightarrow> s = \<lparr>sv_pc = M_entered, sv_ctrl = C_idle, sv_status = None, sv_check_point = 1, sv_event = None, sv_agent = False,
                   sv_controls = 0, sv_stops = 0\<rparr>"

text \<open>The SCM delivers a stop control to a service that accepts it and has not reported its end.\<close>

definition deliverable :: "svc_sys \<Rightarrow> bool" where
  "deliverable s \<longleftrightarrow> (case sv_status s of None \<Rightarrow> False | Some st \<Rightarrow> ss_accept st \<and> ss_state st \<noteq> SERVICE_STOPPED)"

inductive svc_step :: "svc_sys \<Rightarrow> svc_sys \<Rightarrow> bool" where
  no_handler: "sv_pc s = M_entered \<Longrightarrow> svc_step s (s\<lparr>sv_pc := M_returned\<rparr>)"
| handler: "sv_pc s = M_entered \<Longrightarrow> svc_step s ((report_svc SERVICE_START_PENDING 0 3000 s)\<lparr>sv_pc := M_pending\<rparr>)"
| no_event: "sv_pc s = M_pending \<Longrightarrow> svc_step s ((report_svc SERVICE_STOPPED ERROR_SERVICE_SPECIFIC_ERROR 0 s)\<lparr>sv_pc := M_returned\<rparr>)"
| event: "sv_pc s = M_pending \<Longrightarrow> svc_step s (s\<lparr>sv_event := Some False, sv_pc := M_event\<rparr>)"
| no_agent: "sv_pc s = M_event \<Longrightarrow> svc_step s ((report_svc SERVICE_STOPPED ERROR_SERVICE_SPECIFIC_ERROR 0 s)\<lparr>sv_pc := M_failed\<rparr>)"
| failed_close: "sv_pc s = M_failed \<Longrightarrow> svc_step s (s\<lparr>sv_event := None, sv_pc := M_returned\<rparr>)"
| agent: "sv_pc s = M_event \<Longrightarrow> svc_step s (s\<lparr>sv_agent := True, sv_pc := M_started\<rparr>)"
| running: "sv_pc s = M_started \<Longrightarrow> svc_step s ((report_svc SERVICE_RUNNING 0 0 s)\<lparr>sv_pc := M_waiting\<rparr>)"
| wake: "sv_pc s = M_waiting \<Longrightarrow> sv_event s = Some True \<Longrightarrow> svc_step s (s\<lparr>sv_pc := M_woken\<rparr>)"
| stop_agent: "sv_pc s = M_woken \<Longrightarrow> svc_step s (s\<lparr>sv_agent := False, sv_stops := sv_stops s + 1, sv_pc := M_agent_stopped\<rparr>)"
| close_event: "sv_pc s = M_agent_stopped \<Longrightarrow> svc_step s (s\<lparr>sv_event := None, sv_pc := M_closed\<rparr>)"
| stopped: "sv_pc s = M_closed \<Longrightarrow> svc_step s ((report_svc SERVICE_STOPPED 0 0 s)\<lparr>sv_pc := M_returned\<rparr>)"
| control: "sv_ctrl s = C_idle \<Longrightarrow> deliverable s \<Longrightarrow> svc_step s (s\<lparr>sv_ctrl := C_delivered, sv_controls := sv_controls s + 1\<rparr>)"
| control_report: "sv_ctrl s = C_delivered \<Longrightarrow> svc_step s ((report_svc SERVICE_STOP_PENDING 0 3000 s)\<lparr>sv_ctrl := C_reported\<rparr>)"
| control_set: "sv_ctrl s = C_reported \<Longrightarrow>
    svc_step s (s\<lparr>sv_event := (case sv_event s of None \<Rightarrow> None | Some _ \<Rightarrow> Some True), sv_ctrl := C_idle\<rparr>)"

text \<open>Nothing has been delivered, and nothing can be.\<close>

definition undisturbed :: "svc_sys \<Rightarrow> bool" where
  "undisturbed s \<longleftrightarrow> sv_ctrl s = C_idle \<and> \<not> deliverable s \<and> sv_controls s = 0 \<and> sv_stops s = 0"

definition svc_inv :: "svc_sys \<Rightarrow> bool" where
  "svc_inv s \<longleftrightarrow>
     (case sv_pc s of
        M_entered \<Rightarrow> undisturbed s \<and> \<not> sv_agent s \<and> sv_event s = None
      | M_pending \<Rightarrow> undisturbed s \<and> \<not> sv_agent s \<and> sv_event s = None
      | M_event \<Rightarrow> undisturbed s \<and> \<not> sv_agent s \<and> sv_event s = Some False
      | M_failed \<Rightarrow> undisturbed s \<and> \<not> sv_agent s \<and> sv_event s = Some False
      | M_started \<Rightarrow> undisturbed s \<and> sv_agent s \<and> sv_event s = Some False
      | M_waiting \<Rightarrow> sv_agent s \<and> sv_stops s = 0 \<and> sv_event s \<noteq> None \<and> (sv_event s = Some True \<longrightarrow> 0 < sv_controls s) \<and>
                     (sv_controls s = 0 \<longrightarrow> sv_ctrl s = C_idle) \<and> (0 < sv_controls s \<and> sv_ctrl s = C_idle \<longrightarrow> sv_event s = Some True)
      | M_woken \<Rightarrow> sv_agent s \<and> sv_stops s = 0 \<and> sv_event s = Some True \<and> 0 < sv_controls s
      | M_agent_stopped \<Rightarrow> \<not> sv_agent s \<and> sv_stops s = 1 \<and> sv_event s = Some True \<and> 0 < sv_controls s
      | M_closed \<Rightarrow> \<not> sv_agent s \<and> sv_stops s = 1 \<and> sv_event s = None \<and> 0 < sv_controls s
      | M_returned \<Rightarrow> \<not> sv_agent s \<and> sv_event s = None \<and> (if sv_controls s = 0 then undisturbed s else sv_stops s = 1))"

lemma report_svc_simps [simp]:
  "sv_pc (report_svc st c h s) = sv_pc s" "sv_ctrl (report_svc st c h s) = sv_ctrl s" "sv_event (report_svc st c h s) = sv_event s"
  "sv_agent (report_svc st c h s) = sv_agent s" "sv_controls (report_svc st c h s) = sv_controls s" "sv_stops (report_svc st c h s) = sv_stops s"
  "deliverable (report_svc st c h s) \<longleftrightarrow> st \<noteq> SERVICE_START_PENDING \<and> st \<noteq> SERVICE_STOPPED"
  by (simp_all add: report_svc_def deliverable_def Let_def)

lemma deliverable_updates [simp]:
  "deliverable (s\<lparr>sv_pc := p\<rparr>) = deliverable s" "deliverable (s\<lparr>sv_event := e\<rparr>) = deliverable s"
  "deliverable (s\<lparr>sv_agent := b\<rparr>) = deliverable s" "deliverable (s\<lparr>sv_ctrl := q\<rparr>) = deliverable s"
  by (simp_all add: deliverable_def)

lemma svc_inv_step: "svc_step s s' \<Longrightarrow> svc_inv s \<Longrightarrow> svc_inv s'"
proof (induction rule: svc_step.induct)
  case (control s)
  then show ?case by (cases "sv_pc s") (auto simp: svc_inv_def undisturbed_def split: if_splits)
next
  case (control_report s)
  then show ?case by (cases "sv_pc s") (auto simp: svc_inv_def undisturbed_def split: if_splits)
next
  case (control_set s)
  then show ?case by (cases "sv_pc s") (auto simp: svc_inv_def undisturbed_def split: if_splits option.splits)
qed (auto simp: svc_inv_def undisturbed_def)

interpretation svcsys: invariant_system svc_init svc_step svc_inv
proof unfold_locales
  fix s assume "svc_init s"
  then show "svc_inv s" by (simp add: svc_init_def svc_inv_def undisturbed_def deliverable_def)
qed (rule svc_inv_step)

text \<open>C30: in every interleaving of the service's thread and the control handler, the agent runs exactly
  between its start and its stop and is stopped at most once, and only after a stop control; a stop
  control that has been handled is never lost: the thread that waits for it can go on.\<close>

theorem service_stop_not_lost:
  assumes "reach svc_init svc_step s"
  shows "(sv_agent s \<longleftrightarrow> sv_pc s \<in> {M_started, M_waiting, M_woken}) \<and> sv_stops s \<le> 1 \<and> (0 < sv_stops s \<longrightarrow> 0 < sv_controls s) \<and>
         (sv_pc s = M_waiting \<and> 0 < sv_controls s \<and> sv_ctrl s = C_idle \<longrightarrow> svc_step s (s\<lparr>sv_pc := M_woken\<rparr>)) \<and>
         (sv_pc s = M_returned \<longrightarrow> sv_event s = None \<and> (sv_stops s = 1 \<longleftrightarrow> 0 < sv_controls s))"
proof -
  have inv: "svc_inv s" by (rule svcsys.always [OF assms])
  then have "sv_pc s = M_waiting \<and> 0 < sv_controls s \<and> sv_ctrl s = C_idle \<Longrightarrow> sv_event s = Some True" by (auto simp: svc_inv_def)
  then have "sv_pc s = M_waiting \<and> 0 < sv_controls s \<and> sv_ctrl s = C_idle \<longrightarrow> svc_step s (s\<lparr>sv_pc := M_woken\<rparr>)" by (auto intro: svc_step.wake)
  with inv show ?thesis by (cases "sv_pc s") (auto simp: svc_inv_def undisturbed_def split: if_splits)
qed

text \<open>The dispatcher runs the service's thread until it has returned (no error), or fails with an error code:
  the process was not started by the SCM, or something else went wrong; both are reported alike.\<close>

definition ERROR_FAILED_SERVICE_CONTROLLER_CONNECT :: u32 where "ERROR_FAILED_SERVICE_CONTROLLER_CONNECT = 1063"

definition leo_service_run_dispatcher :: "u32 option \<Rightarrow> bool" where
  "leo_service_run_dispatcher failure =
     (case failure of
        Some err \<Rightarrow> if err = ERROR_FAILED_SERVICE_CONTROLLER_CONNECT then False else False
      | None \<Rightarrow> True)"

text \<open>The handler runs beside the service's thread and its report is not ordered with the thread's: with
  two stop controls the last status the SCM is told may be "stop pending" although the service ended.\<close>

definition svc_running :: svc_sys where
  "svc_running = \<lparr>sv_pc = M_waiting, sv_ctrl = C_idle,
     sv_status = Some \<lparr>ss_state = SERVICE_RUNNING, ss_exit = 0, ss_hint = 0, ss_accept = True, ss_checkpoint = 0\<rparr>,
     sv_check_point = 2, sv_event = Some False, sv_agent = True, sv_controls = 0, sv_stops = 0\<rparr>"

lemma svc_running_reach: "reach svc_init svc_step svc_running"
proof -
  let ?s0 = "\<lparr>sv_pc = M_entered, sv_ctrl = C_idle, sv_status = None, sv_check_point = 1, sv_event = None, sv_agent = False, sv_controls = 0, sv_stops = 0\<rparr>"
  let ?s1 = "(report_svc SERVICE_START_PENDING 0 3000 ?s0)\<lparr>sv_pc := M_pending\<rparr>"
  let ?s2 = "?s1\<lparr>sv_event := Some False, sv_pc := M_event\<rparr>"
  let ?s3 = "?s2\<lparr>sv_agent := True, sv_pc := M_started\<rparr>"
  let ?s4 = "(report_svc SERVICE_RUNNING 0 0 ?s3)\<lparr>sv_pc := M_waiting\<rparr>"
  have "reach svc_init svc_step ?s0" by (rule reach.start) (simp add: svc_init_def)
  then have "reach svc_init svc_step ?s1" by (rule reach.move) (rule svc_step.handler, simp)
  then have "reach svc_init svc_step ?s2" by (rule reach.move) (rule svc_step.event, simp)
  then have "reach svc_init svc_step ?s3" by (rule reach.move) (rule svc_step.agent, simp)
  then have "reach svc_init svc_step ?s4" by (rule reach.move) (rule svc_step.running, simp)
  moreover have "?s4 = svc_running" by (simp add: report_svc_def svc_running_def)
  ultimately show ?thesis by simp
qed

definition svc_asked :: svc_sys where
  "svc_asked = (report_svc SERVICE_STOP_PENDING 0 3000 (svc_running\<lparr>sv_ctrl := C_delivered, sv_controls := 1\<rparr>))\<lparr>sv_event := Some True, sv_ctrl := C_idle\<rparr>"

lemma svc_asked_reach: "reach svc_init svc_step svc_asked"
proof -
  let ?s1 = "svc_running\<lparr>sv_ctrl := C_delivered, sv_controls := sv_controls svc_running + 1\<rparr>"
  let ?s2 = "(report_svc SERVICE_STOP_PENDING 0 3000 ?s1)\<lparr>sv_ctrl := C_reported\<rparr>"
  let ?s3 = "?s2\<lparr>sv_event := (case sv_event ?s2 of None \<Rightarrow> None | Some _ \<Rightarrow> Some True), sv_ctrl := C_idle\<rparr>"
  have "reach svc_init svc_step ?s1"
    by (rule reach.move [OF svc_running_reach]) (rule svc_step.control, simp_all add: svc_running_def deliverable_def)
  then have "reach svc_init svc_step ?s2" by (rule reach.move) (rule svc_step.control_report, simp)
  then have "reach svc_init svc_step ?s3" by (rule reach.move) (rule svc_step.control_set, simp)
  moreover have "?s3 = svc_asked" by (simp add: svc_asked_def svc_running_def report_svc_def)
  ultimately show ?thesis by simp
qed

theorem service_ends_pending:
  "\<exists>s. reach svc_init svc_step s \<and> sv_pc s = M_returned \<and> map_option ss_state (sv_status s) = Some SERVICE_STOP_PENDING"
proof -
  let ?s1 = "svc_asked\<lparr>sv_ctrl := C_delivered, sv_controls := sv_controls svc_asked + 1\<rparr>"
  let ?s2 = "?s1\<lparr>sv_pc := M_woken\<rparr>"
  let ?s3 = "?s2\<lparr>sv_agent := False, sv_stops := sv_stops ?s2 + 1, sv_pc := M_agent_stopped\<rparr>"
  let ?s4 = "?s3\<lparr>sv_event := None, sv_pc := M_closed\<rparr>"
  let ?s5 = "(report_svc SERVICE_STOPPED 0 0 ?s4)\<lparr>sv_pc := M_returned\<rparr>"
  let ?s6 = "(report_svc SERVICE_STOP_PENDING 0 3000 ?s5)\<lparr>sv_ctrl := C_reported\<rparr>"
  have "reach svc_init svc_step ?s1"
    by (rule reach.move [OF svc_asked_reach]) (rule svc_step.control, simp_all add: svc_asked_def)
  then have "reach svc_init svc_step ?s2" by (rule reach.move) (rule svc_step.wake, simp_all add: svc_asked_def svc_running_def)
  then have "reach svc_init svc_step ?s3" by (rule reach.move) (rule svc_step.stop_agent, simp)
  then have "reach svc_init svc_step ?s4" by (rule reach.move) (rule svc_step.close_event, simp)
  then have "reach svc_init svc_step ?s5" by (rule reach.move) (rule svc_step.stopped, simp)
  then have "reach svc_init svc_step ?s6" by (rule reach.move) (rule svc_step.control_report, simp)
  then show ?thesis by (rule exI [of _ ?s6, OF conjI]) (simp add: report_svc_def Let_def)
qed

section \<open>Samples\<close>

theorem service_stop_not_lost_witness: "svc_step svc_asked (svc_asked\<lparr>sv_pc := M_woken\<rparr>)"
  using service_stop_not_lost [OF svc_asked_reach] by (simp add: svc_asked_def svc_running_def)

definition demo_systemd :: systemd_env where
  "demo_systemd = \<lparr>sd_root = True, sd_runtime_dir = True, sd_fopen = True, sd_written = length LEO_SERVICE_UNIT, sd_unlink = True,
     sd_popen = Some (''active'' @ [NL])\<rparr>"

theorem service_installation_witness:
  "linux_service_install demo_systemd Map.empty = (LEO_OK, [LEO_SYSTEMD_UNIT_PATH \<mapsto> LEO_SERVICE_UNIT])"
proof -
  obtain files where i: "linux_service_install demo_systemd Map.empty = (LEO_OK, files)"
    by (simp add: linux_service_install_def demo_systemd_def systemd_available_def)
  with service_installation [of demo_systemd Map.empty files LEO_OK demo_systemd undefined Map.empty LEO_OK Map.empty "[]" undefined] show ?thesis by simp
qed

end
