(* ===== verification/Leo_Main.thy ===== *)
theory Leo_Main
  imports Agent Logger Service
begin

text \<open>
  \<^verbatim>\<open>agent/src/main.c\<close>: the entry point, for Linux (signals) and for Windows (service or console). What the
  calls meet is the record \<open>main_env\<close>; \<open>mn_ticks\<close> are the values of \<^verbatim>\<open>g_stop_requested\<close> at the tests of the
  waiting loop, one per second. The value is \<open>None\<close> when the stop is never requested.
\<close>

definition LEO_LOG_PATH :: cstring where "LEO_LOG_PATH = ''/opt/leo-one/logs/agent.log''"

definition EXIT_SUCCESS :: int where "EXIT_SUCCESS = 0"
definition EXIT_FAILURE :: int where "EXIT_FAILURE = 1"

record main_env =
  mn_log :: log_env
  mn_start :: start_env
  mn_ticks :: "bool list"
  mn_later :: "leo_agent \<Rightarrow> leo_agent"     \<comment> \<open>the agent when it is stopped\<close>
  mn_stop :: stop_env
  mn_dispatcher :: "u32 option"            \<comment> \<open>the error of \<^verbatim>\<open>StartServiceCtrlDispatcherA\<close>\<close>

record main_result =
  mr_exit :: int
  mr_sys :: log_sys
  mr_life :: "life_effect list"

definition main_config_path :: "cstring list \<Rightarrow> cstring" where
  "main_config_path argv = (if 1 < length argv then argv ! 1 else LEO_CONFIG_FILE)"

text \<open>The first test of the loop that sees the request.\<close>

fun wait_for_stop :: "bool list \<Rightarrow> nat option" where
  "wait_for_stop [] = None"
| "wait_for_stop (b # bs) = (if b then Some 0 else map_option Suc (wait_for_stop bs))"

text \<open>Start, wait, stop: the body that \<^verbatim>\<open>main\<close> on Linux and \<^verbatim>\<open>_run_console_mode\<close> on Windows share.\<close>

definition run_agent :: "main_env \<Rightarrow> cstring \<Rightarrow> fs \<Rightarrow> (int \<times> fs \<times> life_effect list) option" where
  "run_agent env config_path files =
     (case leo_agent_start (mn_start env) files config_path of
        None \<Rightarrow> None
      | Some (None, files, eff) \<Rightarrow> Some (EXIT_FAILURE, files, eff)
      | Some (Some ag, files, eff) \<Rightarrow>
          (case wait_for_stop (mn_ticks env) of
             None \<Rightarrow> None
           | Some _ \<Rightarrow> Some (EXIT_SUCCESS, files, eff @ snd (leo_agent_stop (mn_stop env) (Some (mn_later env ag))))))"

definition finish_main :: "log_sys \<Rightarrow> int \<times> fs \<times> life_effect list \<Rightarrow> main_result" where
  "finish_main s out =
     (case out of (code, files, eff) \<Rightarrow> \<lparr>mr_exit = code, mr_sys = leo_log_destroy (s\<lparr>ls_files := files\<rparr>), mr_life = eff\<rparr>)"

text \<open>The logger is opened first; when it cannot be, the process says so and goes on.\<close>

definition MSG_STDERR_ONLY :: string where
  "MSG_STDERR_ONLY = ''[leo-agent] Logger initialis'' @ [CHR 0xC3, CHR 0xA9] @ '' sur stderr uniquement'' @ [NL]"

definition main_log :: "main_env \<Rightarrow> cstring \<Rightarrow> log_sys \<Rightarrow> log_sys" where
  "main_log env path s =
     (let (log_rc, s) = leo_log_init (mn_log env) (Some path) 1 (10 * 1024 * 1024) s
      in if log_rc \<noteq> 0 then s\<lparr>ls_stderr := ls_stderr s @ MSG_STDERR_ONLY\<rparr> else s)"

definition main_linux :: "main_env \<Rightarrow> cstring list \<Rightarrow> log_sys \<Rightarrow> main_result option" where
  "main_linux env argv s =
     (let s = main_log env LEO_LOG_PATH s in
      map_option (finish_main s) (run_agent env (main_config_path argv) (ls_files s)))"

section \<open>Windows\<close>

text \<open>Under the service control manager the agent's life is that of \<open>svc_step\<close>; otherwise the process waits
  for a console event.\<close>

datatype ctrl_event = CTRL_C_EVENT | CTRL_BREAK_EVENT | CTRL_CLOSE_EVENT | CTRL_LOGOFF_EVENT | CTRL_SHUTDOWN_EVENT

text \<open>Whether the event was handled, and the new value of \<^verbatim>\<open>g_stop_requested\<close>.\<close>

definition console_ctrl_handler :: "ctrl_event \<Rightarrow> bool \<Rightarrow> bool \<times> bool" where
  "console_ctrl_handler ev stop_requested =
     (if ev \<in> {CTRL_C_EVENT, CTRL_BREAK_EVENT, CTRL_CLOSE_EVENT, CTRL_SHUTDOWN_EVENT} then (True, True) else (False, stop_requested))"

definition run_console_mode :: "main_env \<Rightarrow> cstring \<Rightarrow> fs \<Rightarrow> (int \<times> fs \<times> life_effect list) option" where
  "run_console_mode env config_path files = run_agent env config_path files"

definition main_win :: "main_env \<Rightarrow> cstring \<Rightarrow> cstring list \<Rightarrow> log_sys \<Rightarrow> main_result option" where
  "main_win env log_path argv s =
     (let s = main_log env log_path s in
      if leo_service_run_dispatcher (mn_dispatcher env) then Some (finish_main s (EXIT_SUCCESS, ls_files s, []))
      else map_option (finish_main s) (run_console_mode env (main_config_path argv) (ls_files s)))"

section \<open>What the process does\<close>

lemma wait_for_stop_eq: "(\<exists>n. wait_for_stop ts = Some n) \<longleftrightarrow> True \<in> set ts"
  by (induction ts) auto

lemma finish_main_simps [simp]: "mr_exit (finish_main s out) = fst out" "mr_life (finish_main s out) = snd (snd out)"
  by (simp_all add: finish_main_def split: prod.splits)

lemma finish_main_closes: "lg_initialized (ls_logger s) \<Longrightarrow> lg_fp (ls_logger (mr_sys (finish_main s out))) = None \<and> \<not> lg_initialized (ls_logger (mr_sys (finish_main s out)))"
  by (simp add: finish_main_def leo_log_destroy_def split: prod.splits)

lemma main_log_done: "lg_initialized (ls_logger (main_log env path s))"
  by (simp add: main_log_def leo_log_init_def Let_def split: prod.splits)

lemma run_agent_spec:
  assumes start: "leo_agent_start (mn_start env) files path = Some (ag, files', eff)"
  shows "run_agent env path files =
           (case ag of
              None \<Rightarrow> Some (EXIT_FAILURE, files', eff)
            | Some a \<Rightarrow>
                if True \<in> set (mn_ticks env)
                then Some (EXIT_SUCCESS, files', eff @ snd (leo_agent_stop (mn_stop env) (Some (mn_later env a)))) else None)"
  using assms wait_for_stop_eq [of "mn_ticks env"] by (auto simp: run_agent_def split: option.splits)

text \<open>C31: the process ends when its agent cannot start, or when the stop is requested: a failed start
  gives exit code 1 with everything the start did undone by it; a requested stop gives 0 after the
  agent's threads have been told to stop and joined; in both cases the log has been closed. Without a
  stop request a started agent keeps running.\<close>

theorem main_outcome:
  assumes "leo_agent_start (mn_start env) (ls_files (main_log env LEO_LOG_PATH s))
             (main_config_path argv) = Some (ag, files', eff)"
  shows "case main_linux env argv s of
           None \<Rightarrow> ag \<noteq> None \<and> True \<notin> set (mn_ticks env)
         | Some r \<Rightarrow>
             lg_fp (ls_logger (mr_sys r)) = None \<and> \<not> lg_initialized (ls_logger (mr_sys r)) \<and>
             (if ag = None then mr_exit r = 1 \<and> mr_life r = eff
              else mr_exit r = 0 \<and> True \<in> set (mn_ticks env) \<and>
                   (\<exists>rest. mr_life r = eff @ [Stop_Threads, Join_Thread Heartbeat_Thread, Join_Thread Metrics_Thread, Join_Thread Patch_Thread] @ rest))"
proof -
  note run = run_agent_spec [OF assms]
  note log = finish_main_closes [OF main_log_done, of env LEO_LOG_PATH s]
  have stop: "\<exists>rest. snd (leo_agent_stop senv (Some a)) =
      [Stop_Threads, Join_Thread Heartbeat_Thread, Join_Thread Metrics_Thread, Join_Thread Patch_Thread] @ rest" for senv a
    by (simp add: leo_agent_stop_def Let_def)
  show ?thesis
  proof (cases ag)
    case None
    with run log show ?thesis by (simp add: main_linux_def EXIT_FAILURE_def)
  next
    case (Some a)
    with run log stop show ?thesis by (cases "True \<in> set (mn_ticks env)") (auto simp: main_linux_def EXIT_SUCCESS_def)
  qed
qed

section \<open>A sample process\<close>

definition demo_main :: main_env where
  "demo_main = \<lparr>mn_log = demo_log_env\<lparr>le_open := False\<rparr>, mn_start = demo_start True, mn_ticks = [False, True], mn_later = (\<lambda>a. a),
     mn_stop = \<lparr>st_counts = [0], st_rd_exits = True, st_conn_exits = True\<rparr>, mn_dispatcher = Some ERROR_FAILED_SERVICE_CONTROLLER_CONNECT\<rparr>"

definition demo_main_sys :: log_sys where
  "demo_main_sys = \<lparr>ls_logger = \<lparr>lg_fp = None, lg_min_level = 0, lg_max_bytes = 0, lg_path = [], lg_initialized = False\<rparr>,
     ls_files = [''c'' \<mapsto> config_text demo_saved], ls_stderr = []\<rparr>"

theorem main_outcome_witness:
  "\<exists>r. main_linux demo_main [''leo-agent'', ''c''] demo_main_sys = Some r \<and> mr_exit r = 0 \<and> \<not> lg_initialized (ls_logger (mr_sys r)) \<and>
     Join_Thread Patch_Thread \<in> set (mr_life r)"
proof -
  let ?s = "main_log demo_main LEO_LOG_PATH demo_main_sys"
  have files: "ls_files ?s = [''c'' \<mapsto> config_text demo_saved]"
    by (simp add: main_log_def leo_log_init_def demo_main_def demo_main_sys_def demo_log_env_def open_append_def LEO_LOG_PATH_def)
  have path: "main_config_path [''leo-agent'', ''c''] = ''c''" by (simp add: main_config_path_def)
  obtain ag eff where start: "leo_agent_start (demo_start True) [''c'' \<mapsto> config_text demo_saved] ''c'' = Some (Some ag, [''c'' \<mapsto> config_text demo_saved], eff)"
    using demo_start_conn by (auto simp: leo_agent_start_def demo_start_config)
  have "leo_agent_start (mn_start demo_main) (ls_files ?s) (main_config_path [''leo-agent'', ''c'']) = Some (Some ag, [''c'' \<mapsto> config_text demo_saved], eff)"
    unfolding files path using start by (simp add: demo_main_def)
  from main_outcome [OF this] show ?thesis by (cases "main_linux demo_main [''leo-agent'', ''c''] demo_main_sys") (auto simp: demo_main_def)
qed

end
