(* ===== verification/Spec2Isabelle.thy ===== *)
theory Spec2Isabelle
  imports Agent Rd_Input Rd_Capture Commands_Win Enroll_Win Metrics_Win Inventory_Win Leo_Main
begin

text \<open>
  Verification of the Leo-One agent: the C program under \<^verbatim>\<open>agent/\<close> that a managed machine runs. It
  keeps one WebSocket connection to the server, answers the server's commands (run a script, install
  packages or updates, fetch a file, restart, list the inventory, open a remote desktop session), and
  sends heartbeats, metrics and lists of available updates.

  \<^bold>\<open>The program and its model.\<close> One theory per component, in the order in which they build on each other:

  \<^item> \<open>Leo_Prelude\<close>, \<open>Interfaces\<close>: C strings (a list of characters before the NUL, \<open>strncpy_buf\<close> for the
    bounded copies), reading a file line by line, integer ranges; the locales the components share
    (a keyed text file, a bounded queue, an endpoint parser, a transition system with an invariant).
  \<^item> \<open>Leo_Types\<close>: \<^verbatim>\<open>include/leo_agent.h\<close>, its enumerations with their wire codes, structures and limits.
  \<^item> \<open>Floating\<close>, \<open>Json\<close>: the numbers of JSON (\<open>dbl\<close>: a rational, an infinity or NaN; a C cast that is
    undefined is \<open>None\<close>) and the part of cJSON's tree interface the agent uses.
  \<^item> \<open>Config\<close>: \<^verbatim>\<open>src/config.c\<close>, reading and writing \<^verbatim>\<open>agent.conf\<close>. \<open>Http_Url\<close>: \<^verbatim>\<open>src/http_url.c\<close>.
    \<open>Protocol\<close>: \<^verbatim>\<open>src/protocol.c\<close>, every message builder and the parser. \<open>Crypto\<close>:
    \<^verbatim>\<open>platform/linux/crypto_linux.c\<close>, certificate files and fingerprints. \<open>Crypto_Win\<close>:
    \<^verbatim>\<open>platform/windows/crypto_win.c\<close>, under the contract \<open>cert_store\<close> of both.
  \<^item> \<open>Connection\<close>: \<^verbatim>\<open>src/connection.c\<close>: the ring buffer \<open>conn_put\<close>/\<open>conn_get\<close>, \<open>leo_conn_send\<close>, the
    libwebsockets callback \<open>lws_callback\<close>, and the step relation \<open>conn_step\<close> in which senders, the
    connection's thread and its destruction interleave.
  \<^item> \<open>Executor\<close>: \<^verbatim>\<open>platform/linux/executor_linux.c\<close>: one child process, its pipes and its deadline.
    \<open>Executor_Win\<close>: \<^verbatim>\<open>platform/windows/executor_win.c\<close>, with the quoting of command lines.
    \<open>Patches\<close>, \<open>Patches_Win\<close>: \<^verbatim>\<open>platform/linux/patches_linux.c\<close>, \<^verbatim>\<open>platform/windows/patches_win.c\<close>. \<open>File_Transfer\<close>: \<^verbatim>\<open>src/file_transfer.c\<close>,
    for the work directory of either system (\<open>ft_workdir\<close>).
  \<^item> \<open>Scan\<close>: the C library's \<^verbatim>\<open>sscanf\<close> as far as the readers of \<^verbatim>\<open>/proc\<close> use it. \<open>Metrics\<close>:
    \<^verbatim>\<open>platform/linux/metrics_linux.c\<close> and \<^verbatim>\<open>src/metrics.c\<close>. \<open>Inventory\<close>: \<^verbatim>\<open>platform/linux/inventory_linux.c\<close>.
    \<open>Metrics_Win\<close>, \<open>Inventory_Win\<close>: \<^verbatim>\<open>platform/windows/metrics_win.c\<close>, \<^verbatim>\<open>platform/windows/inventory_win.c\<close>.
  \<^item> \<open>Rd_Input\<close>, \<open>Rd_Capture\<close>: \<^verbatim>\<open>platform/linux/input_linux.c\<close>, \<^verbatim>\<open>platform/windows/input_win.c\<close>,
    \<^verbatim>\<open>platform/linux/capture_linux.c\<close> and \<^verbatim>\<open>platform/windows/capture_win.c\<close>: both systems fulfil the
    contracts \<open>input_backend\<close> and \<open>capture_backend\<close>.
  \<^item> \<open>Rd_Wire\<close>, \<open>Remote_Desktop\<close>: \<^verbatim>\<open>src/remote_desktop.c\<close>: image scaling and the binary protocol; the
    session thread, its start and its stop, with the step relation \<open>rd_step\<close>.
  \<^item> \<open>Commands\<close>, \<open>Dispatch\<close>, \<open>Agent\<close>: \<^verbatim>\<open>src/agent.c\<close>: the command threads; the handling of messages;
    the periodic threads, start and stop, with the step relation \<open>ag_step\<close>. The functions of
    \<^verbatim>\<open>executor.h\<close> and \<^verbatim>\<open>patches.h\<close> that a command thread calls are the record \<open>platform\<close>, its contract the
    locale \<open>exec_platform\<close>, fulfilled by \<open>linux_platform\<close> and, in \<open>Commands_Win\<close>, by \<open>win_platform\<close>. \<open>Enroll\<close>, \<open>Enroll_Win\<close>:
    \<^verbatim>\<open>src/enroll.c\<close> for both systems, over the contract \<open>enrollment\<close> that extends \<open>cert_store\<close>.
  \<^item> \<open>Logger\<close>: \<^verbatim>\<open>src/logger.c\<close>, the log and its rotation. \<open>Service\<close>: \<^verbatim>\<open>platform/linux/service_linux.c\<close> and
    \<^verbatim>\<open>platform/windows/service_win.c\<close>, which fulfil the contract \<open>service_manager\<close>; the life of the Windows
    service is the step relation \<open>svc_step\<close>. \<open>Leo_Main\<close>: \<^verbatim>\<open>src/main.c\<close>.

  This theory composes them: \<open>message_to_processes\<close> and \<open>win_message_to_processes\<close> go from the bytes of a
  message to the child processes, on Linux and on Windows; \<open>result_reaches_server\<close> from a command's end to what the server parses.

  \<^bold>\<open>Conventions.\<close> Underscores at the front of C names are dropped. State is passed explicitly in records;
  a return code is a value of \<open>leo_error\<close>; what a function does to the outside world is a list of
  effects. Code outside the repository is a parameter: cJSON's text level (parsing and printing),
  OpenSSL, SHA-256, libwebsockets' callbacks, the clock, system calls, allocation and thread creation
  are fields of the records \<open>proto_env\<close>, \<open>openssl\<close>, \<open>exec_env\<close>, \<open>ft_env\<close>, \<open>rd_env\<close>, \<open>cmd_env\<close>, \<open>win_cmd\<close>, \<open>disp_env\<close>,
  \<open>enroll_env\<close>, \<open>start_env\<close>, \<open>stop_env\<close>, \<open>metrics_env\<close>, \<open>hw_env\<close>, \<open>x_server\<close>, \<open>win_screen\<close>,
  \<open>win_env\<close>, \<open>wu_env\<close>, \<open>log_env\<close>, \<open>systemd_env\<close>, \<open>scm_env\<close>, \<open>main_env\<close>,
  \<open>win_metrics_env\<close>, \<open>win_inv_env\<close>. Event loops run over a list of what each turn meets; the value
  is \<open>None\<close> when the list ends before the loop does, and the theorems on termination show that a list
  that reaches the deadline or the stop is long enough, so that no fuel bound is chosen. The calls that
  write log messages are left out of the other components: nothing they do depends on them.

  \<^bold>\<open>What is shown.\<close>
  \<^item> Containment: which processes a message can start and with which arguments, which files a transfer
    may touch, that a process is reaped and a temporary file removed on every path, that every reply
    fits its buffer.
  \<^item> Answers: every command is answered once; slots are counted exactly in every interleaving, and the
    handler refines the abstract slot machine; no message changes the agent's identity.
  \<^item> Delivery: the connection sends what was accepted, in order, with no lost wake-up; the ring buffer is
    a queue; a handshake is accepted exactly for the pinned certificate.
  \<^item> Transfers: a file appears under its name only when its digest was verified.
  \<^item> Sessions: at most one remote desktop session; a viewer never injects input; scaling stays within
    its buffers; frames and messages round-trip.
  \<^item> Screen: a capture gives back every resource it takes on every path, its frames have the bytes of their
    size; an input message injects a bounded number of events inside the screen.
  \<^item> Measurements: usage of processors is a percentage as long as the kernel's counters grow, network
    counters are the sums of the interfaces, inventories fit their buffers and list what was installed.
  \<^item> Files: configuration, certificates, enrollment: what is written is what is read back, enrollment
    saves everything or can be tried again.
  \<^item> Ends: the loops end by their deadline, the periodic threads when they are told to; a failed start
    gives back what it took, a stop joins before it frees.
  \<^item> Process: when it ends and with which exit code; the log keeps the latest messages within its limit; a
    stop of the service is not lost; installing and removing the service does that and nothing else.

  Some theorems state defects of the code: \<open>stop_frees_running_command\<close>, \<open>enroll_may_save_unloadable\<close>,
  \<open>running_flag_unsound\<close>, \<open>short_download_accepted\<close>, \<open>dnf_option_as_patch_id\<close>,
  \<open>cpu_usage_above_100\<close>, \<open>metrics_never_recover\<close>, \<open>win_scroll_unbounded\<close>, \<open>packed_pixels_pass\<close>,
  \<open>win_timeout_blocks\<close>, \<open>service_ends_pending\<close>, \<open>enum_error_never_ends\<close>, \<open>win_transfer_needs_drive\<close>.

  \<^bold>\<open>Not modelled.\<close> The server (Go), the web interface and the deployment files; vendored cJSON and
  libwebsockets; the C declarations of the headers beyond the types above. Data races
  below the level of the steps of \<open>conn_step\<close>, \<open>rd_step\<close>, \<open>ag_step\<close> and \<open>svc_step\<close> are outside the model: each step
  is one critical section or one atomic access of the code.
\<close>

section \<open>From a message to the processes it starts\<close>

text \<open>The command lines the agent may ever run for its server.\<close>

definition server_commands :: "cstring list set" where
  "server_commands =
     {[i, path] | i path. i \<in> set ALLOWED_INTERPRETERS} \<union>
     {UPDATE_ARGV, SHUTDOWN_ARGV, SYSTEMCTL_ARGV} \<union>
     {pkg_install_argv names | names. names \<noteq> [] \<and> length names \<le> 32 \<and> list_all pkg_name_valid names} \<union>
     {reboot_argv d | d. 0 \<le> d \<and> d \<le> 3600} \<union>
     {apt_install_argv ids (int (length ids)) | ids. ids \<noteq> [] \<and> length ids \<le> 64 \<and> list_all patch_id_valid ids} \<union>
     {dnf_install_argv ids (int (length ids)) | ids. ids \<noteq> [] \<and> length ids \<le> 64 \<and> list_all patch_id_valid ids}"

lemma allowed_server_commands: "ctx_wf ctx \<Longrightarrow> allowed_commands ctx \<subseteq> server_commands"
  by (cases "ctx_kind ctx") (auto simp: ctx_wf_def allowed_commands_def commands_of_def linux_scripts_def patch_commands_def server_commands_def)

lemma handled_ctx_wf:
  assumes "handle_msg env msg (ag, g) = Some ((ag', g'), effs)" "Ag_Exec ctx \<in> set effs"
  shows "ctx_wf ctx"
proof (cases "\<exists>t. msg_of_code (msg_type msg) = Some t \<and> is_command t")
  case True
  with assms(1) have "request_done (msg_id msg) ag (ag', effs)"
    by (auto simp: handle_msg_def is_command_def agent_only_def dest: command_done)
  with assms(2) show ?thesis by (auto simp: request_done_def thread_wf_def split: if_splits)
next
  case False
  with other_messages_no_slot [OF assms(1)] have "threads_of effs = 0" by auto
  with assms(2) show ?thesis by (auto simp: threads_of_def is_thread_def filter_empty_conv)
qed

lemma on_message_ctx_wf:
  assumes "on_message parse env json (ag, g) = Some ((ag', g'), effs)" "Ag_Exec ctx \<in> set effs"
  shows "ctx_wf ctx"
proof -
  from assms obtain msg where "handle_msg env msg (ag, g) = Some ((ag', g'), effs)"
    by (auto simp: on_message_def split: option.splits if_splits)
  then show ?thesis using assms(2) by (rule handled_ctx_wf)
qed


definition demo_pkg_json :: json where
  "demo_pkg_json =
     JObject [(''type'', JNumber (dbl_of_int (msg_code LEO_MSG_INSTALL_PKG))), (''id'', JString ''c1''),
              (''body'', JObject [(''package'', JString ''vim''), (''timeout_sec'', JNumber (Dfin 10))])]"

lemma demo_pkg_message:
  "on_message (\<lambda>_. Some demo_pkg_json) demo_disp ''...'' (demo_agent, no_session) =
     Some ((demo_agent\<lparr>exec_active_count := 2\<rparr>, no_session), [Ag_Exec demo_pkg_ctx])"
  by code_simp


text \<open>The argument lists a child of the agent may ever read on Windows.\<close>

definition win_server_commands :: "cstring list set" where
  "win_server_commands =
     {[''cmd.exe'', ''/c'', path] | path. True} \<union>
     {[''powershell.exe'', ''-NoProfile'', ''-ExecutionPolicy'', ''Bypass'', ''-File'', path] | path. True} \<union>
     {UPDATE_ARGV, SYSTEMCTL_ARGV} \<union>
     {pkg_install_argv names | names. names \<noteq> [] \<and> length names \<le> 32 \<and> list_all pkg_name_valid names} \<union>
     {reboot_argv d | d. 0 \<le> d \<and> d \<le> 3600}"

lemma win_allowed_server_commands: "ctx_wf ctx \<Longrightarrow> commands_of win_scripts (\<lambda>ids. {}) ctx \<subseteq> win_server_commands"
  by (cases "ctx_kind ctx") (auto simp: ctx_wf_def commands_of_def win_scripts_def script_argv_def win_server_commands_def)


definition demo_script_json :: json where
  "demo_script_json =
     JObject [(''type'', JNumber (dbl_of_int (msg_code LEO_MSG_EXEC_SCRIPT))), (''id'', JString ''c1''),
              (''body'', JObject [(''interpreter'', JString ''cmd''), (''script'', JString ''dir''), (''timeout_sec'', JNumber (Dfin 5))])]"

lemma demo_script_message:
  "on_message (\<lambda>_. Some demo_script_json) demo_disp ''...'' (demo_agent, no_session) =
     Some ((demo_agent\<lparr>exec_active_count := 2\<rparr>, no_session), [Ag_Exec demo_script_ctx])"
  by code_simp




text \<open>An identifier that begins with a dash passes the check, and reaches \<^verbatim>\<open>dnf\<close> where it reads options.\<close>

theorem dnf_option_as_patch_id:
  "patch_id_valid ''--nogpgcheck'' \<and> dnf_install_argv [''--nogpgcheck''] 1 = [''dnf'', ''update'', ''-y'', ''--nogpgcheck''] \<and>
   apt_install_argv [''--nogpgcheck''] 1 = [''apt-get'', ''install'', ''-y'', ''--only-upgrade'', ''--'', ''--nogpgcheck'']"
  by code_simp

end
